(* ===== verification/Prelude.thy ===== *)
theory Prelude
  imports Main "HOL-Library.Word"
begin

text \<open>
  Shared vocabulary of the development: Go's machine integers and pointers, the
  state-passing operations in which every stateful Go function is written, the
  combinators that stand for the \<open>if err != nil { return err }\<close> idiom, and generic
  facts on lists, association lists and maps that several components use.
\<close>

section \<open>Go types\<close>

text \<open>
  Go's \<open>int\<close> is 64 bits wide on the supported platforms; \<open>int32\<close> is the width of the
  SQL column and of the protobuf enum.  Signed reading is \<open>sint\<close>, conversion between
  widths is \<open>scast\<close> (it truncates or sign-extends exactly as Go's conversions do).
  A pointer that may be \<open>nil\<close> and is only ever read is an option.
\<close>

type_synonym goint = "64 word"
type_synonym goint32 = "32 word"
type_synonym 'a ptr = "'a option"
type_synonym time = int  \<comment> \<open>nanoseconds since the Unix epoch, UTC\<close>
type_synonym duration = int  \<comment> \<open>nanoseconds\<close>

section \<open>Stateful operations that can fail\<close>

text \<open>
  A Go function \<open>func(args) (T, error)\<close> with effects on some state \<open>'s\<close> is a function
  of type \<open>args \<Rightarrow> ('s, 'e, 'a) op\<close>: it returns either the error (\<open>Inl\<close>) or the value
  (\<open>Inr\<close>), and the state after the call.  The state is returned on the error path too:
  what a failed call has already changed stays changed.
\<close>

type_synonym ('s, 'e, 'a) op = "'s \<Rightarrow> ('e + 'a) \<times> 's"

definition ret :: "'a \<Rightarrow> ('s, 'e, 'a) op" where
  "ret a = (\<lambda>s. (Inr a, s))"

definition throw :: "'e \<Rightarrow> ('s, 'e, 'a) op" where
  "throw e = (\<lambda>s. (Inl e, s))"

text \<open>\<open>x, err := m(); if err != nil { return err }; k(x)\<close>\<close>

definition andThen :: "('s, 'e, 'a) op \<Rightarrow> ('a \<Rightarrow> ('s, 'e, 'b) op) \<Rightarrow> ('s, 'e, 'b) op" where
  "andThen m k = (\<lambda>s. case m s of (Inl e, s') \<Rightarrow> (Inl e, s') | (Inr a, s') \<Rightarrow> k a s')"

text \<open>\<open>if err != nil { return wrap(err) }\<close>\<close>

definition mapErr :: "('e \<Rightarrow> 'f) \<Rightarrow> ('s, 'e, 'a) op \<Rightarrow> ('s, 'f, 'a) op" where
  "mapErr f m = (\<lambda>s. case m s of (Inl e, s') \<Rightarrow> (Inl (f e), s') | (Inr a, s') \<Rightarrow> (Inr a, s'))"

text \<open>A pure computation that can fail, run as an operation.\<close>

definition liftR :: "'e + 'a \<Rightarrow> ('s, 'e, 'a) op" where
  "liftR r = (\<lambda>s. (r, s))"

text \<open>An operation on one component of a composite state.\<close>

definition onPart :: "('s \<Rightarrow> 'p) \<Rightarrow> ('p \<Rightarrow> 's \<Rightarrow> 's) \<Rightarrow> ('p, 'e, 'a) op \<Rightarrow> ('s, 'e, 'a) op" where
  "onPart get put m = (\<lambda>s. case m (get s) of (r, p) \<Rightarrow> (r, put p s))"

named_theorems op_simps \<open>unfolding rules of the operation combinators\<close>

lemma ret_apply [op_simps, simp]: "ret a s = (Inr a, s)"
  by (simp add: ret_def)

lemma throw_apply [op_simps, simp]: "throw e s = (Inl e, s)"
  by (simp add: throw_def)

lemma liftR_apply [op_simps, simp]: "liftR r s = (r, s)"
  by (simp add: liftR_def)

lemma andThen_Inl [simp]: "m s = (Inl e, s') \<Longrightarrow> andThen m k s = (Inl e, s')"
  by (simp add: andThen_def)

lemma andThen_Inr [simp]: "m s = (Inr a, s') \<Longrightarrow> andThen m k s = k a s'"
  by (simp add: andThen_def)

lemma mapErr_Inl [simp]: "m s = (Inl e, s') \<Longrightarrow> mapErr f m s = (Inl (f e), s')"
  by (simp add: mapErr_def)

lemma mapErr_Inr [simp]: "m s = (Inr a, s') \<Longrightarrow> mapErr f m s = (Inr a, s')"
  by (simp add: mapErr_def)

lemma andThen_ret [simp]: "andThen (ret a) k = k a"
  by (rule ext) (simp add: andThen_def)

lemma andThen_throw [simp]: "andThen (throw e) k = throw e"
  by (rule ext) (simp add: andThen_def)

lemma andThen_liftR_Inr [simp]: "andThen (liftR (Inr a)) k = k a"
  by (rule ext) (simp add: andThen_def)

lemma andThen_liftR_Inl [simp]: "andThen (liftR (Inl e)) k = throw e"
  by (rule ext) (simp add: andThen_def)

lemma andThen_assoc: "andThen (andThen m k) l = andThen m (\<lambda>a. andThen (k a) l)"
  by (rule ext) (simp add: andThen_def split: prod.splits sum.splits)

lemma andThen_ret_right: "andThen m ret = m"
  by (rule ext) (simp add: andThen_def split: prod.splits sum.splits)

text \<open>Inversion of a successful and of a failed sequence.\<close>

lemma andThen_InrE:
  assumes "andThen m k s = (Inr b, s')"
  obtains a t where "m s = (Inr a, t)" and "k a t = (Inr b, s')"
  using assms by (auto simp: andThen_def split: prod.splits sum.splits)

lemma andThen_InlE:
  assumes "andThen m k s = (Inl e, s')"
  obtains (first) "m s = (Inl e, s')" | (second) a t where "m s = (Inr a, t)" and "k a t = (Inl e, s')"
  using assms by (auto simp: andThen_def split: prod.splits sum.splits)

lemma mapErr_InrE:
  assumes "mapErr f m s = (Inr a, s')"
  obtains "m s = (Inr a, s')"
  using assms by (auto simp: mapErr_def split: prod.splits sum.splits)

lemma mapErr_InlE:
  assumes "mapErr f m s = (Inl e, s')"
  obtains e0 where "m s = (Inl e0, s')" and "e = f e0"
  using assms by (auto simp: mapErr_def split: prod.splits sum.splits)

section \<open>Operations that keep a view of the state\<close>

text \<open>
  \<open>keeps v m\<close>: whatever \<open>m\<close> returns, the part of the state that \<open>v\<close> shows is as before.
  Read operations and operations on other components are of this kind.
\<close>

definition keeps :: "('s \<Rightarrow> 'v) \<Rightarrow> ('s, 'e, 'a) op \<Rightarrow> bool" where
  "keeps v m \<longleftrightarrow> (\<forall>s. v (snd (m s)) = v s)"

named_theorems keeps_intros \<open>operations that keep a view\<close>

lemma keepsI: "(\<And>s r s'. m s = (r, s') \<Longrightarrow> v s' = v s) \<Longrightarrow> keeps v m"
  by (simp add: keeps_def) (metis prod.collapse)

lemma keepsD: "keeps v m \<Longrightarrow> m s = (r, s') \<Longrightarrow> v s' = v s"
  by (auto simp: keeps_def dest: spec [of _ s])

lemma keeps_ret [keeps_intros]: "keeps v (ret a)"
  by (simp add: keeps_def)

lemma keeps_throw [keeps_intros]: "keeps v (throw e)"
  by (simp add: keeps_def)

lemma keeps_liftR [keeps_intros]: "keeps v (liftR r)"
  by (simp add: keeps_def)

lemma keeps_mapErr [keeps_intros]: "keeps v m \<Longrightarrow> keeps v (mapErr f m)"
  by (auto simp: mapErr_def intro!: keepsI dest: keepsD split: prod.splits sum.splits)

lemma keeps_andThen [keeps_intros]:
  "keeps v m \<Longrightarrow> (\<And>a. keeps v (k a)) \<Longrightarrow> keeps v (andThen m k)"
  by (rule keepsI) (fastforce simp: andThen_def split: prod.splits sum.splits dest: keepsD)

lemma keeps_if [keeps_intros]:
  "keeps v m \<Longrightarrow> keeps v m' \<Longrightarrow> keeps v (if b then m else m')"
  by simp

section \<open>Operations on a part of the state\<close>

locale store_part =
  fixes get :: "'s \<Rightarrow> 'p" and upd :: "'p \<Rightarrow> 's \<Rightarrow> 's"
  assumes get_upd: "get (upd p s) = p"
    and upd_get: "upd (get s) s = s"
    and upd_upd: "upd p (upd q s) = upd p s"
begin

lemma onPart_ret: "onPart get upd (ret a) = ret a"
  by (rule ext) (simp add: onPart_def upd_get)

lemma onPart_throw: "onPart get upd (throw e) = throw e"
  by (rule ext) (simp add: onPart_def upd_get)

lemma onPart_liftR: "onPart get upd (liftR r) = liftR r"
  by (rule ext) (simp add: onPart_def upd_get)

lemma onPart_mapErr: "onPart get upd (mapErr f m) = mapErr f (onPart get upd m)"
  by (rule ext) (simp add: onPart_def mapErr_def split: prod.splits sum.splits)

lemma onPart_andThen: "onPart get upd (andThen m k) = andThen (onPart get upd m) (\<lambda>a. onPart get upd (k a))"
  by (rule ext) (simp add: onPart_def andThen_def get_upd upd_upd split: prod.splits sum.splits)

lemma onPart_guard: "onPart get upd (if b then throw e else ret a) = (if b then throw e else ret a)"
  by (simp add: onPart_ret onPart_throw)

lemma onPart_cases:
  assumes "onPart get upd m s = (x, s')"
  shows "m (get s) = (x, get s')"
  using assms by (auto simp: onPart_def get_upd split: prod.splits)

lemma keeps_onPart: "keeps v m \<Longrightarrow> keeps (v \<circ> get) (onPart get upd m)"
  by (rule keepsI) (auto dest!: onPart_cases dest: keepsD)

lemmas onPart_push = onPart_ret onPart_throw onPart_liftR onPart_mapErr onPart_andThen onPart_guard

end

section \<open>Association lists\<close>

text \<open>
  A Go map that the code iterates over or tests for emptiness is an association list;
  \<open>m[k] = v\<close> is \<open>put k v m\<close>.  Lookups are read through \<open>map_of\<close>, and no result of the
  model depends on the order of the entries.
\<close>

fun put :: "'k \<Rightarrow> 'v \<Rightarrow> ('k \<times> 'v) list \<Rightarrow> ('k \<times> 'v) list" where
  "put k v [] = [(k, v)]"
| "put k v ((k', v') # m) = (if k = k' then (k, v) # m else (k', v') # put k v m)"

fun drop_key :: "'k \<Rightarrow> ('k \<times> 'v) list \<Rightarrow> ('k \<times> 'v) list" where
  "drop_key k [] = []"
| "drop_key k ((k', v') # m) = (if k = k' then drop_key k m else (k', v') # drop_key k m)"

lemma map_of_put [simp]: "map_of (put k v m) = (map_of m)(k \<mapsto> v)"
  by (induction k v m rule: put.induct) (auto simp: fun_eq_iff)

lemma map_of_drop_key [simp]: "map_of (drop_key k m) = (map_of m)(k := None)"
  by (induction k m rule: drop_key.induct) (auto simp: fun_eq_iff)

lemma keys_put: "fst ` set (put k v m) = insert k (fst ` set m)"
  by (induction k v m rule: put.induct) auto

lemma put_not_Nil [simp]: "put k v m \<noteq> []"
  by (cases m) (auto split: if_splits)

lemma distinct_put: "distinct (map fst m) \<Longrightarrow> distinct (map fst (put k v m))"
  by (induction k v m rule: put.induct) (auto simp: keys_put)

lemma keys_drop_key: "fst ` set (drop_key k m) = fst ` set m - {k}"
  by (induction k m rule: drop_key.induct) auto

lemma distinct_drop_key: "distinct (map fst m) \<Longrightarrow> distinct (map fst (drop_key k m))"
  by (induction k m rule: drop_key.induct) (auto simp: keys_drop_key)

lemma map_le_deleteD: "m' \<subseteq>\<^sub>m m(k := None) \<Longrightarrow> m' \<subseteq>\<^sub>m m"
  unfolding map_le_def by (metis domIff fun_upd_apply)

lemma map_le_SomeD: "m' \<subseteq>\<^sub>m m \<Longrightarrow> m' k = Some v \<Longrightarrow> m k = Some v"
  by (metis domI map_le_def)

section \<open>Lists\<close>

text \<open>The loop \<open>for _, x := range xs { out = append(out, f(x)) }\<close>.\<close>

definition append_all :: "('a \<Rightarrow> 'b) \<Rightarrow> 'a list \<Rightarrow> 'b list" where
  "append_all f xs = fold (\<lambda>x out. out @ [f x]) xs []"

lemma append_all_map [simp]: "append_all f xs = map f xs"
proof -
  have "fold (\<lambda>x out. out @ [f x]) xs acc = acc @ map f xs" for acc
    by (induction xs arbitrary: acc) auto
  then show ?thesis by (simp add: append_all_def)
qed

lemma is_prefix_take: "take (length p) s = p \<longleftrightarrow> (\<exists>r. s = p @ r)"
  by (metis append_eq_conv_conj append_take_drop_id)

end
