(* ===== verification/GoStrings.thy ===== *)
theory GoStrings
  imports Prelude
begin

text \<open>
  The parts of Go's standard library on strings and times that the program calls:
  \<open>strings.ToLower\<close>, \<open>strings.TrimSpace\<close>, \<open>strings.Contains\<close>, \<open>strconv.Itoa\<close>,
  \<open>strconv.Atoi\<close>, \<open>Duration.String\<close> and the RFC 3339 layout of \<open>Time.Format\<close>.
  A Go string is a sequence of bytes, here a \<open>string\<close> (a list of 8-bit characters).
\<close>

section \<open>Bytes\<close>

definition byte :: "char \<Rightarrow> nat" where
  "byte c = of_char c"

definition chr :: "nat \<Rightarrow> char" where
  "chr n = char_of n"

lemma byte_chr [simp]: "n < 256 \<Longrightarrow> byte (chr n) = n"
  by (simp add: byte_def chr_def)

lemma chr_byte [simp]: "chr (byte c) = c"
  by (simp add: byte_def chr_def)

lemma byte_less [simp]: "byte c < 256"
  by (simp add: byte_def)

section \<open>\<open>strings.ToLower\<close>\<close>

text \<open>
  On ASCII strings \<open>ToLower\<close> maps bytes; on any other string it maps Unicode code points
  with the tables of package \<open>unicode\<close>, which is the argument \<open>uni\<close> of every definition
  that lower-cases.
\<close>

definition isASCII :: "string \<Rightarrow> bool" where
  "isASCII s = list_all (\<lambda>c. byte c < 128) s"

definition lowerByte :: "char \<Rightarrow> char" where
  "lowerByte c = (if 65 \<le> byte c \<and> byte c \<le> 90 then chr (byte c + 32) else c)"

definition ToLower :: "(string \<Rightarrow> string) \<Rightarrow> string \<Rightarrow> string" where
  "ToLower uni s = (if isASCII s then map lowerByte s else uni s)"

lemma byte_lowerByte:
  "byte (lowerByte c) = (if 65 \<le> byte c \<and> byte c \<le> 90 then byte c + 32 else byte c)"
  by (simp add: lowerByte_def)

lemma lowerByte_idem [simp]: "lowerByte (lowerByte c) = lowerByte c"
  by (simp add: lowerByte_def)

lemma isASCII_lower [simp]: "isASCII (map lowerByte s) = isASCII s"
  by (induction s) (auto simp: isASCII_def byte_lowerByte)

lemma ToLower_idem_ASCII: "isASCII s \<Longrightarrow> ToLower uni (ToLower uni s) = ToLower uni s"
  by (simp add: ToLower_def comp_def)

section \<open>\<open>strings.Contains\<close>\<close>

fun Contains :: "string \<Rightarrow> string \<Rightarrow> bool" where
  "Contains [] sub = (sub = [])"
| "Contains (c # s) sub = (take (length sub) (c # s) = sub \<or> Contains s sub)"

lemma Contains_iff: "Contains s sub \<longleftrightarrow> (\<exists>u v. s = u @ sub @ v)"
proof (induction s)
  case (Cons c s)
  have "(\<exists>u v. c # s = u @ sub @ v) \<longleftrightarrow> (\<exists>v. c # s = sub @ v) \<or> (\<exists>u v. s = u @ sub @ v)"
    by (auto simp: Cons_eq_append_conv)
  then show ?case using Cons.IH by (simp add: is_prefix_take)
qed simp

lemma Contains_char: "Contains s [c] \<longleftrightarrow> c \<in> set s"
  by (auto simp: Contains_iff in_set_conv_decomp)

section \<open>\<open>strings.TrimSpace\<close>\<close>

text \<open>
  The UTF-8 encodings of the code points with \<open>unicode.IsSpace\<close>: the six ASCII ones,
  U+0085, U+00A0, U+1680, U+2000 to U+200A, U+2028, U+2029, U+202F, U+205F and U+3000.
  UTF-8 is self-synchronising, so trimming code points is trimming these byte sequences.
\<close>

definition spaceRunes :: "string list" where
  "spaceRunes = map (map chr)
     ([[9], [10], [11], [12], [13], [32], [194, 133], [194, 160], [225, 154, 128]]
      @ map (\<lambda>n. [226, 128, n]) ([128..<139] @ [168, 169, 175])
      @ [[226, 129, 159], [227, 128, 128]])"

function trimPrefixes :: "string list \<Rightarrow> string \<Rightarrow> string" where
  "trimPrefixes ps s =
     (case find (\<lambda>p. p \<noteq> [] \<and> take (length p) s = p) ps of
        None \<Rightarrow> s
      | Some p \<Rightarrow> trimPrefixes ps (drop (length p) s))"
  by pat_completeness auto
termination
proof (relation "measure (\<lambda>(ps, s). length s)")
  fix ps :: "string list" and s p
  assume "find (\<lambda>p. p \<noteq> [] \<and> take (length p) s = p) ps = Some p"
  then have p: "p \<noteq> []" "take (length p) s = p" by (auto simp: find_Some_iff)
  from p have "s \<noteq> []" by auto
  with p(1) show "((ps, drop (length p) s), ps, s) \<in> measure (\<lambda>(ps, s). length s)" by simp
qed simp

declare trimPrefixes.simps [simp del]

definition TrimSpace :: "string \<Rightarrow> string" where
  "TrimSpace s = rev (trimPrefixes (map rev spaceRunes) (rev (trimPrefixes spaceRunes s)))"

lemma trimPrefixes_None:
  "find (\<lambda>p. p \<noteq> [] \<and> take (length p) s = p) ps = None \<Longrightarrow> trimPrefixes ps s = s"
  by (simp add: trimPrefixes.simps [of ps s])

lemma trimPrefixes_Some:
  "find (\<lambda>p. p \<noteq> [] \<and> take (length p) s = p) ps = Some p \<Longrightarrow>
     trimPrefixes ps s = trimPrefixes ps (drop (length p) s)"
  by (simp add: trimPrefixes.simps [of ps s])

lemma trimPrefixes_suffix: "\<exists>u. s = u @ trimPrefixes ps s"
proof (induction ps s rule: trimPrefixes.induct)
  case (1 ps s)
  show ?case
  proof (cases "find (\<lambda>p. p \<noteq> [] \<and> take (length p) s = p) ps")
    case None
    then show ?thesis by (simp add: trimPrefixes_None)
  next
    case (Some p)
    from "1.IH" [OF Some] obtain u where u: "drop (length p) s = u @ trimPrefixes ps (drop (length p) s)"
      by blast
    from u have "s = (take (length p) s @ u) @ trimPrefixes ps (drop (length p) s)"
      by (metis append_assoc append_take_drop_id)
    with trimPrefixes_Some [OF Some] show ?thesis by metis
  qed
qed

lemma trimPrefixes_done:
  "p \<in> set ps \<Longrightarrow> p \<noteq> [] \<Longrightarrow> take (length p) (trimPrefixes ps s) \<noteq> p"
proof (induction ps s rule: trimPrefixes.induct)
  case (1 ps s)
  show ?case
  proof (cases "find (\<lambda>p. p \<noteq> [] \<and> take (length p) s = p) ps")
    case None
    with "1.prems" show ?thesis by (auto simp: trimPrefixes_None find_None_iff)
  next
    case (Some q)
    with "1.IH" [OF Some "1.prems"] show ?thesis by (simp add: trimPrefixes_Some)
  qed
qed

lemma trimPrefixes_Nil [simp]: "trimPrefixes ps [] = []"
  using trimPrefixes_suffix [of "[]" ps] by simp

lemma trimPrefixes_id:
  assumes "\<And>p. p \<in> set ps \<Longrightarrow> p \<noteq> [] \<Longrightarrow> take (length p) s \<noteq> p"
  shows "trimPrefixes ps s = s"
proof (rule trimPrefixes_None)
  show "find (\<lambda>p. p \<noteq> [] \<and> take (length p) s = p) ps = None"
    using assms by (auto simp: find_None_iff)
qed

text \<open>No space code point is left at the end of the result.\<close>

lemma TrimSpace_no_trailing:
  assumes "p \<in> set spaceRunes" "p \<noteq> []"
  shows "\<nexists>u. TrimSpace s = u @ p"
proof
  assume "\<exists>u. TrimSpace s = u @ p"
  then obtain u where "TrimSpace s = u @ p" ..
  then have "trimPrefixes (map rev spaceRunes) (rev (trimPrefixes spaceRunes s)) = rev p @ rev u"
    by (simp add: TrimSpace_def rev_swap)
  moreover have "rev p \<in> set (map rev spaceRunes)" "rev p \<noteq> []"
    using assms by auto
  ultimately show False
    using trimPrefixes_done [of "rev p" "map rev spaceRunes" "rev (trimPrefixes spaceRunes s)"]
    by simp
qed

lemma TrimSpace_prefix: "\<exists>u. trimPrefixes spaceRunes s = TrimSpace s @ u"
proof -
  obtain u where "rev (trimPrefixes spaceRunes s) = u @ trimPrefixes (map rev spaceRunes) (rev (trimPrefixes spaceRunes s))"
    using trimPrefixes_suffix by blast
  then have "trimPrefixes spaceRunes s = TrimSpace s @ rev u"
    by (metis TrimSpace_def rev_append rev_rev_ident)
  then show ?thesis ..
qed

text \<open>Nor at its beginning.\<close>

lemma TrimSpace_no_leading:
  assumes "p \<in> set spaceRunes" "p \<noteq> []"
  shows "\<nexists>u. TrimSpace s = p @ u"
proof
  assume "\<exists>u. TrimSpace s = p @ u"
  then obtain u where "TrimSpace s = p @ u" ..
  moreover obtain v where "trimPrefixes spaceRunes s = TrimSpace s @ v"
    using TrimSpace_prefix by blast
  ultimately have "take (length p) (trimPrefixes spaceRunes s) = p" by simp
  with trimPrefixes_done [OF assms] show False by blast
qed

lemma TrimSpace_infix: "\<exists>u v. s = u @ TrimSpace s @ v"
  using trimPrefixes_suffix [of s spaceRunes] TrimSpace_prefix [of s] by metis

lemma TrimSpace_id:
  assumes "\<And>p. p \<in> set spaceRunes \<Longrightarrow> p \<noteq> [] \<Longrightarrow> take (length p) s \<noteq> p"
    and "\<And>p. p \<in> set spaceRunes \<Longrightarrow> p \<noteq> [] \<Longrightarrow> take (length p) (rev s) \<noteq> rev p"
  shows "TrimSpace s = s"
proof -
  have "trimPrefixes spaceRunes s = s"
    by (rule trimPrefixes_id) (rule assms(1))
  moreover have "trimPrefixes (map rev spaceRunes) (rev s) = rev s"
    by (rule trimPrefixes_id) (use assms(2) in auto)
  ultimately show ?thesis by (simp add: TrimSpace_def)
qed

end
