(* ===== verification/GoFormat.thy ===== *)
theory GoFormat
  imports GoStrings
begin

text \<open>
  Numbers and times as text: \<open>strconv.Itoa\<close>, \<open>strconv.Atoi\<close>, \<open>time.Duration.String\<close>
  and \<open>time.Time.Format(time.RFC3339)\<close>, all of the standard library, as the program's
  handlers, metrics and error metadata use them.
\<close>

section \<open>Decimal numbers\<close>

definition digit :: "nat \<Rightarrow> char" where
  "digit d = chr (48 + d)"

definition digitVal :: "char \<Rightarrow> nat option" where
  "digitVal c = (if 48 \<le> byte c \<and> byte c \<le> 57 then Some (byte c - 48) else None)"

fun natStr :: "nat \<Rightarrow> string" where
  "natStr n = (if n < 10 then [digit n] else natStr (n div 10) @ [digit (n mod 10)])"

declare natStr.simps [simp del]

fun natVal :: "nat \<Rightarrow> string \<Rightarrow> nat option" where
  "natVal acc [] = Some acc"
| "natVal acc (c # s) = (case digitVal c of None \<Rightarrow> None | Some d \<Rightarrow> natVal (10 * acc + d) s)"

definition intStr :: "int \<Rightarrow> string" where
  "intStr i = (if i < 0 then ''-'' @ natStr (nat (- i)) else natStr (nat i))"

text \<open>\<open>strconv.Itoa\<close>\<close>

definition Itoa :: "goint \<Rightarrow> string" where
  "Itoa n = intStr (sint n)"

text \<open>
  \<open>strconv.Atoi\<close>: an optional sign, at least one digit, digits only (\<open>ErrSyntax\<close>
  otherwise), and a value that fits 64 bits (\<open>ErrRange\<close> otherwise).
\<close>

datatype num_error = ErrSyntax | ErrRange

definition Atoi :: "string \<Rightarrow> num_error + goint" where
  "Atoi s =
     (let neg = (case s of c # _ \<Rightarrow> c = CHR ''-'' | [] \<Rightarrow> False);
          ds = (case s of c # r \<Rightarrow> if c = CHR ''-'' \<or> c = CHR ''+'' then r else s | [] \<Rightarrow> [])
      in if ds = [] then Inl ErrSyntax
         else (case natVal 0 ds of
                 None \<Rightarrow> Inl ErrSyntax
               | Some n \<Rightarrow>
                   (let v = (if neg then - int n else int n)
                    in if - (2 ^ 63) \<le> v \<and> v < 2 ^ 63 then Inr (word_of_int v) else Inl ErrRange)))"

lemma digitVal_digit [simp]: "d < 10 \<Longrightarrow> digitVal (digit d) = Some d"
  by (simp add: digitVal_def digit_def)

lemma natVal_append:
  "natVal acc (s @ t) = (case natVal acc s of None \<Rightarrow> None | Some n \<Rightarrow> natVal n t)"
  by (induction acc s rule: natVal.induct) (auto split: option.splits)

lemma natVal_natStr [simp]: "natVal 0 (natStr n) = Some n"
proof (induction n rule: natStr.induct)
  case (1 n)
  then show ?case
    by (cases "n < 10") (simp_all add: natStr.simps [of n] natVal_append)
qed

lemma natStr_not_Nil [simp]: "natStr n \<noteq> []"
  by (subst natStr.simps) simp

lemma natStr_digits: "c \<in> set (natStr n) \<Longrightarrow> 48 \<le> byte c \<and> byte c \<le> 57"
proof (induction n rule: natStr.induct)
  case (1 n)
  then show ?case
    by (cases "n < 10") (auto simp: natStr.simps [of n] digit_def)
qed

lemma natStr_head:
  obtains c r where "natStr n = c # r" and "c \<noteq> CHR ''-''" and "c \<noteq> CHR ''+''"
proof -
  obtain c r where cr: "natStr n = c # r" by (cases "natStr n") auto
  then have "48 \<le> byte c" using natStr_digits [of c n] by simp
  then have "c \<noteq> CHR ''-''" "c \<noteq> CHR ''+''" by (auto simp: byte_def)
  with cr that show thesis by blast
qed

lemma Atoi_natStr: "int n < 2 ^ 63 \<Longrightarrow> Atoi (natStr n) = Inr (word_of_int (int n))"
proof -
  assume n: "int n < 2 ^ 63"
  obtain c r where "natStr n = c # r" "c \<noteq> CHR ''-''" "c \<noteq> CHR ''+''" by (rule natStr_head)
  with n show ?thesis
    using natVal_natStr [of n] by (simp add: Atoi_def Let_def)
qed

lemma Atoi_neg_natStr: "int n \<le> 2 ^ 63 \<Longrightarrow> Atoi (CHR ''-'' # natStr n) = Inr (word_of_int (- int n))"
  by (simp add: Atoi_def Let_def)

lemma Atoi_Itoa_id: "Atoi (Itoa n) = Inr n"
proof (cases "sint n < 0")
  case True
  have "- (2 ^ 63) \<le> sint n" using sint_ge [of n] by simp
  with True have "int (nat (- sint n)) \<le> 2 ^ 63" and "- int (nat (- sint n)) = sint n" by auto
  with True show ?thesis
    using Atoi_neg_natStr [of "nat (- sint n)"] by (simp add: Itoa_def intStr_def)
next
  case False
  have "sint n < 2 ^ 63" using sint_lt [of n] by simp
  with False have "int (nat (sint n)) < 2 ^ 63" and "int (nat (sint n)) = sint n" by auto
  with Atoi_natStr [of "nat (sint n)"] have "Atoi (natStr (nat (sint n))) = Inr n" by simp
  moreover have "Itoa n = natStr (nat (sint n))" using False by (simp add: Itoa_def intStr_def)
  ultimately show ?thesis by simp
qed

section \<open>\<open>time.Duration.String\<close>\<close>

text \<open>
  \<open>fmtFrac\<close> writes the fraction \<open>v / 10^prec\<close> without trailing zeros (and without the
  point when it is zero) and returns \<open>v\<close> divided by that power of ten.
\<close>

fun fmtFracDigits :: "int \<Rightarrow> nat \<Rightarrow> bool \<Rightarrow> string \<Rightarrow> string \<times> int" where
  "fmtFracDigits v 0 printed w = ((if printed then CHR ''.'' # w else w), v)"
| "fmtFracDigits v (Suc prec) printed w =
     (let d = v mod 10; p = (printed \<or> d \<noteq> 0)
      in fmtFracDigits (v div 10) prec p (if p then digit (nat d) # w else w))"

definition fmtFrac :: "int \<Rightarrow> nat \<Rightarrow> string \<Rightarrow> string \<times> int" where
  "fmtFrac v prec w = fmtFracDigits v prec False w"

definition DurationString :: "duration \<Rightarrow> string" where
  "DurationString d =
     (let u = \<bar>d\<bar>;
          body =
            (if u < 1000000000 then
               (if u = 0 then ''0s''
                else if u < 1000 then natStr (nat u) @ ''ns''
                else if u < 1000000 then
                  (case fmtFrac u 3 ([chr 194, chr 181] @ ''s'') of (w, v) \<Rightarrow> natStr (nat v) @ w)
                else (case fmtFrac u 6 ''ms'' of (w, v) \<Rightarrow> natStr (nat v) @ w))
             else
               (case fmtFrac u 9 ''s'' of (w, secs) \<Rightarrow>
                  (let w1 = natStr (nat (secs mod 60)) @ w; mins = secs div 60
                   in if mins = 0 then w1
                      else (let w2 = natStr (nat (mins mod 60)) @ ''m'' @ w1; hours = mins div 60
                            in if hours = 0 then w2 else natStr (nat hours) @ ''h'' @ w2))))
      in (if d < 0 then ''-'' @ body else body))"

lemma DurationString_examples:
  "DurationString 1500000000 = ''1.5s''" "DurationString 60000000000 = ''1m0s''"
  "DurationString 0 = ''0s''" "DurationString 3723000000000 = ''1h2m3s''"
  by code_simp+

section \<open>\<open>time.Time.Format(time.RFC3339)\<close> in UTC\<close>

text \<open>The proleptic Gregorian date of a day number (days since 1970-01-01).\<close>

definition civil :: "int \<Rightarrow> int \<times> int \<times> int" where
  "civil days =
     (let z = days + 719468;
          era = z div 146097;
          doe = z mod 146097;
          yoe = (doe - doe div 1460 + doe div 36524 - doe div 146096) div 365;
          doy = doe - (365 * yoe + yoe div 4 - yoe div 100);
          mp = (5 * doy + 2) div 153;
          d = doy - (153 * mp + 2) div 5 + 1;
          m = (if mp < 10 then mp + 3 else mp - 9);
          y = yoe + era * 400 + (if m \<le> 2 then 1 else 0)
      in (y, m, d))"

definition padStr :: "nat \<Rightarrow> int \<Rightarrow> string" where
  "padStr width i =
     (let s = natStr (nat \<bar>i\<bar>)
      in (if i < 0 then ''-'' else []) @ replicate (width - length s) (CHR ''0'') @ s)"

definition FormatRFC3339 :: "time \<Rightarrow> string" where
  "FormatRFC3339 t =
     (let secs = t div 1000000000; days = secs div 86400; sod = secs mod 86400
      in (case civil days of (y, m, d) \<Rightarrow>
            padStr 4 y @ ''-'' @ padStr 2 m @ ''-'' @ padStr 2 d @ ''T'' @
            padStr 2 (sod div 3600) @ '':'' @ padStr 2 (sod div 60 mod 60) @ '':'' @
            padStr 2 (sod mod 60) @ ''Z''))"

text \<open>The example timestamp of the API documentation: 2026-06-22T10:00:00Z.\<close>

lemma FormatRFC3339_example:
  "FormatRFC3339 (1782122400 * 1000000000) = ''2026-06-22T10:00:00Z''"
  by code_simp

lemma FormatRFC3339_epoch: "FormatRFC3339 0 = ''1970-01-01T00:00:00Z''"
  by code_simp

text \<open>The layout keeps seconds only: two instants of the same second print alike.\<close>

lemma FormatRFC3339_truncates:
  "t div 1000000000 = t' div 1000000000 \<Longrightarrow> FormatRFC3339 t = FormatRFC3339 t'"
  by (simp add: FormatRFC3339_def)

end
