(* ===== verification/Domain.thy ===== *)
theory Domain
  imports GoFormat
begin

text \<open>
  Package \<open>internal/domain\<close>: the account entity, its status, the cache keys derived from
  it, the request objects of the use-case boundary, the account event and the rate-limit
  policy.  Optional pointers are \<open>ptr\<close> values, times are UTC instants.
\<close>

section \<open>Status\<close>

type_synonym AccountStatus = goint

definition AccountStatusUnknown :: AccountStatus where "AccountStatusUnknown = 0"
definition AccountStatusActive :: AccountStatus where "AccountStatusActive = 1"
definition AccountStatusInactive :: AccountStatus where "AccountStatusInactive = 2"
definition AccountStatusBlocked :: AccountStatus where "AccountStatusBlocked = 3"
definition AccountStatusDeleted :: AccountStatus where "AccountStatusDeleted = 4"

lemmas status_defs = AccountStatusUnknown_def AccountStatusActive_def AccountStatusInactive_def
  AccountStatusBlocked_def AccountStatusDeleted_def

definition Valid :: "AccountStatus \<Rightarrow> bool" where
  "Valid s = (s = AccountStatusActive \<or> s = AccountStatusInactive \<or> s = AccountStatusBlocked
                \<or> s = AccountStatusDeleted)"

definition StatusString :: "AccountStatus \<Rightarrow> string" where
  "StatusString s =
     (if s = AccountStatusActive then ''active''
      else if s = AccountStatusInactive then ''inactive''
      else if s = AccountStatusBlocked then ''blocked''
      else if s = AccountStatusDeleted then ''deleted''
      else ''unknown'')"

lemma Valid_iff: "Valid s \<longleftrightarrow> s \<in> {1, 2, 3, 4}"
  by (simp add: Valid_def status_defs)

lemma Valid_not_Unknown: "Valid s \<Longrightarrow> s \<noteq> AccountStatusUnknown"
  by (auto simp: Valid_def status_defs)

section \<open>The account entity\<close>

record account =
  ID :: string
  Email :: string
  FirstName :: string
  LastName :: string
  PasswordHash :: string
  Status :: AccountStatus
  CreatedAt :: time
  UpdatedAt :: time
  DeletedAt :: "time ptr"

definition FullName :: "account \<Rightarrow> string" where
  "FullName a = TrimSpace (FirstName a @ '' '' @ LastName a)"

definition IsActive :: "account \<Rightarrow> bool" where
  "IsActive a = (Status a = AccountStatusActive)"

section \<open>Cache keys\<close>

definition AccountCacheKeyByID :: "string \<Rightarrow> string" where
  "AccountCacheKeyByID i = ''account:id:'' @ i"

definition AccountCacheKeyByEmail :: "(string \<Rightarrow> string) \<Rightarrow> string \<Rightarrow> string" where
  "AccountCacheKeyByEmail uni email = ''account:email:'' @ ToLower uni email"

definition CacheKeys :: "(string \<Rightarrow> string) \<Rightarrow> account \<Rightarrow> string list" where
  "CacheKeys uni a =
     [AccountCacheKeyByID (ID a)]
       @ (if Email a \<noteq> '''' then [AccountCacheKeyByEmail uni (Email a)] else [])"

lemma AccountCacheKeyByID_inject [simp]: "AccountCacheKeyByID i = AccountCacheKeyByID j \<longleftrightarrow> i = j"
  by (simp add: AccountCacheKeyByID_def)

lemma AccountCacheKeyByEmail_inject [simp]:
  "AccountCacheKeyByEmail uni e = AccountCacheKeyByEmail uni f \<longleftrightarrow> ToLower uni e = ToLower uni f"
  by (simp add: AccountCacheKeyByEmail_def)

lemma cache_keys_disjoint [simp]:
  "AccountCacheKeyByID i \<noteq> AccountCacheKeyByEmail uni e"
  "AccountCacheKeyByEmail uni e \<noteq> AccountCacheKeyByID i"
  by (simp_all add: AccountCacheKeyByID_def AccountCacheKeyByEmail_def)

section \<open>Request objects\<close>

record CreateAccountRequest =
  cr_Email :: string
  cr_Password :: string
  cr_FirstName :: string
  cr_LastName :: string
  cr_Status :: AccountStatus

record UpdateAccountRequest =
  ur_ID :: string
  ur_FirstName :: "string ptr"
  ur_LastName :: "string ptr"
  ur_Status :: "AccountStatus ptr"

record UpdateAccountParams =
  up_ID :: string
  up_FirstName :: "string ptr"
  up_LastName :: "string ptr"
  up_Status :: "AccountStatus ptr"
  up_UpdatedAt :: time

record ListAccountFilter =
  lf_Status :: "AccountStatus ptr"
  lf_Limit :: goint
  lf_Offset :: goint

text \<open>
  What a partial update means for the stored entity: the specification every backend's
  \<open>Update\<close> is compared with.  \<open>nil\<close> leaves a field unchanged.
\<close>

definition patch :: "UpdateAccountParams \<Rightarrow> account \<Rightarrow> account" where
  "patch p a = a\<lparr>FirstName := (case up_FirstName p of None \<Rightarrow> FirstName a | Some v \<Rightarrow> v),
                 LastName := (case up_LastName p of None \<Rightarrow> LastName a | Some v \<Rightarrow> v),
                 Status := (case up_Status p of None \<Rightarrow> Status a | Some v \<Rightarrow> v),
                 UpdatedAt := up_UpdatedAt p\<rparr>"

lemma patch_fields [simp]:
  "ID (patch p a) = ID a" "Email (patch p a) = Email a" "PasswordHash (patch p a) = PasswordHash a"
  "CreatedAt (patch p a) = CreatedAt a" "DeletedAt (patch p a) = DeletedAt a"
  "UpdatedAt (patch p a) = up_UpdatedAt p"
  by (simp_all add: patch_def)

section \<open>Passwords, events, rate limits\<close>

definition MinPasswordLength :: nat where
  "MinPasswordLength = 8"

definition HashAlgorithmBcrypt :: string where
  "HashAlgorithmBcrypt = ''bcrypt''"

record AccountEvent =
  ev_Type :: string
  ev_AccountID :: string
  ev_OccurredAt :: time

definition AccountEventCreated :: string where "AccountEventCreated = ''account.created''"
definition AccountEventUpdated :: string where "AccountEventUpdated = ''account.updated''"
definition AccountEventDeleted :: string where "AccountEventDeleted = ''account.deleted''"

type_synonym RateLimitAction = string

definition RateLimitActionCreateAccount :: RateLimitAction where
  "RateLimitActionCreateAccount = ''create_account''"

record RateLimitConfig =
  rl_Rate :: int
  rl_Period :: duration
  rl_Burst :: int

definition Minute :: duration where
  "Minute = 60 * 1000000000"

definition RateLimitDefaults :: "(RateLimitAction \<times> RateLimitConfig) list" where
  "RateLimitDefaults = [(RateLimitActionCreateAccount, \<lparr>rl_Rate = 5, rl_Period = Minute, rl_Burst = 5\<rparr>)]"

record LimitRequest =
  lq_Action :: RateLimitAction
  lq_Key :: string

record LimitResponse =
  lr_Allowed :: bool
  lr_Remaining :: int
  lr_RetryAfter :: duration

section \<open>Properties\<close>

text \<open>
  The status enumeration is told apart by its rendering: a status is valid exactly
  when it does not print as "unknown", and two valid statuses with the same name are equal.
\<close>

lemma StatusString_spec:
  "(Valid s \<longleftrightarrow> StatusString s \<noteq> ''unknown'') \<and>
   (StatusString s = StatusString t \<longleftrightarrow> s = t \<or> (\<not> Valid s \<and> \<not> Valid t))"
  by (auto simp: Valid_def StatusString_def status_defs)

text \<open>
  The full name is a contiguous part of first name, blank, last name; it neither starts
  nor ends with a white-space code point.
\<close>

lemma FullName_trimmed:
  "(\<exists>u v. FirstName a @ '' '' @ LastName a = u @ FullName a @ v) \<and>
   (\<nexists>p w. p \<in> set spaceRunes \<and> p \<noteq> [] \<and> (FullName a = p @ w \<or> FullName a = w @ p))"
  using TrimSpace_infix [of "FirstName a @ '' '' @ LastName a"]
    TrimSpace_no_leading [of _ "FirstName a @ '' '' @ LastName a"]
    TrimSpace_no_trailing [of _ "FirstName a @ '' '' @ LastName a"]
  unfolding FullName_def by blast

definition sampleAccount :: account where
  "sampleAccount = \<lparr>ID = ''a1'', Email = ''jane@x.io'', FirstName = ''Jane'', LastName = ''Doe'',
     PasswordHash = ''h'', Status = AccountStatusActive, CreatedAt = 0, UpdatedAt = 0, DeletedAt = None\<rparr>"

text \<open>
  Two accounts share a cache key exactly when they have the same id, or both have an
  email and the emails agree once lower-cased; an id key never equals an email key.
\<close>

lemma CacheKeys_overlap:
  "set (CacheKeys uni a) \<inter> set (CacheKeys uni b) \<noteq> {} \<longleftrightarrow>
     ID a = ID b \<or> (Email a \<noteq> [] \<and> Email b \<noteq> [] \<and> ToLower uni (Email a) = ToLower uni (Email b))"
  by (cases "Email a = []"; cases "Email b = []"; simp add: CacheKeys_def eq_commute [of "ID b"] eq_commute [of "ToLower uni (Email b)"])

end
