(* ===== verification/Apperr.thy ===== *)
theory Apperr
  imports GoStrings
begin

text \<open>
  Package \<open>internal/infra/apperr\<close>: the application error with its code, public message,
  transport mappings, cause and metadata, the catalogue of sentinels, and the parts of
  package \<open>errors\<close> (\<open>Is\<close>, \<open>As\<close>) the program relies on.  Errors are values here; that
  the methods never write to an error that existed before the call is shown on an explicit
  store in theory ApperrHeap.
\<close>

section \<open>Error values\<close>

text \<open>The gRPC status codes the catalogue, the interceptors and the generated stubs name.\<close>

datatype grpc_code = InvalidArgument | Unauthenticated | PermissionDenied | NotFound
  | AlreadyExists | Aborted | ResourceExhausted | Internal | Unimplemented

text \<open>
  A Go error is an \<open>AppError\<close>; a package-level \<open>errors.New\<close> value, identified by its text
  (the texts of the sentinels in use are distinct); a value of \<open>fmt.Errorf\<close> with one
  \<open>%w\<close>, kept as format, arguments and wrapped error; a PostgreSQL error with its SQLSTATE;
  a gRPC status error; or any other error of a third-party package (\<open>DriverErr\<close>), which is
  none of the sentinels.  The metadata map may be nil.
\<close>

datatype app_error = AppError
    (e_code: string) (e_message: string) (e_httpStatus: nat) (e_grpcCode: grpc_code)
    (e_cause: "go_error option") (e_meta: "(string \<times> string) list option")
  and go_error =
    App app_error
  | ErrorString string
  | Wrapf string "string list" go_error
  | PgError string
  | GrpcStatus grpc_code string
  | DriverErr string

definition New :: "string \<Rightarrow> string \<Rightarrow> nat \<Rightarrow> grpc_code \<Rightarrow> app_error" where
  "New code message httpStatus grpcCode = AppError code message httpStatus grpcCode None None"

section \<open>Accessors and the copying methods\<close>

definition Unwrap :: "app_error \<Rightarrow> go_error option" where "Unwrap e = e_cause e"
definition Code :: "app_error \<Rightarrow> string" where "Code e = e_code e"
definition Message :: "app_error \<Rightarrow> string" where "Message e = e_message e"
definition HTTPStatus :: "app_error \<Rightarrow> nat" where "HTTPStatus e = e_httpStatus e"
definition GRPCCode :: "app_error \<Rightarrow> grpc_code" where "GRPCCode e = e_grpcCode e"

text \<open>The loop \<open>for k, v := range m { out[k] = v }\<close> into a fresh map.\<close>

definition copyMap :: "(string \<times> string) list \<Rightarrow> (string \<times> string) list" where
  "copyMap m = foldr (\<lambda>(k, v) out. put k v out) m []"

definition Metadata :: "app_error \<Rightarrow> (string \<times> string) list" where
  "Metadata e = copyMap (case e_meta e of None \<Rightarrow> [] | Some m \<Rightarrow> m)"

definition clone :: "app_error \<Rightarrow> app_error" where
  "clone e = AppError (e_code e) (e_message e) (e_httpStatus e) (e_grpcCode e) (e_cause e)
               (Some (Metadata e))"

fun setCause :: "go_error option \<Rightarrow> app_error \<Rightarrow> app_error" where
  "setCause c' (AppError co ms h g c m) = AppError co ms h g c' m"

fun setMessage :: "string \<Rightarrow> app_error \<Rightarrow> app_error" where
  "setMessage ms' (AppError co ms h g c m) = AppError co ms' h g c m"

fun setMeta :: "(string \<times> string) list option \<Rightarrow> app_error \<Rightarrow> app_error" where
  "setMeta m' (AppError co ms h g c m) = AppError co ms h g c m'"

definition Cause :: "app_error \<Rightarrow> go_error \<Rightarrow> app_error" where
  "Cause e err = setCause (Some err) (clone e)"

definition WithMessage :: "app_error \<Rightarrow> string \<Rightarrow> app_error" where
  "WithMessage e msg = setMessage msg (clone e)"

definition WithMetadata :: "app_error \<Rightarrow> string \<Rightarrow> string \<Rightarrow> app_error" where
  "WithMetadata e key val =
     (let c = clone e;
          c = (if e_meta c = None then setMeta (Some []) c else c)
      in setMeta (map_option (put key val) (e_meta c)) c)"

text \<open>
  The \<open>Error()\<close> text; \<open>foreign\<close> renders errors whose text is made elsewhere.
\<close>

fun ErrorText :: "(go_error \<Rightarrow> string) \<Rightarrow> go_error \<Rightarrow> string" where
  "ErrorText foreign (App (AppError co ms h g (Some c) m)) = co @ '': '' @ ms @ '': '' @ ErrorText foreign c"
| "ErrorText foreign (App (AppError co ms h g None m)) = co @ '': '' @ ms"
| "ErrorText foreign (ErrorString s) = s"
| "ErrorText foreign e = foreign e"

section \<open>\<open>errors.As\<close> and \<open>errors.Is\<close>\<close>

text \<open>The first \<open>*AppError\<close> of the chain: \<open>var ae *AppError; errors.As(err, &ae)\<close>.\<close>

fun asApp :: "go_error \<Rightarrow> app_error option" where
  "asApp (App e) = Some e"
| "asApp (Wrapf f as e) = asApp e"
| "asApp _ = None"

text \<open>The first \<open>*pgconn.PgError\<close> of the chain.\<close>

fun asPg :: "go_error \<Rightarrow> string option" where
  "asPg (PgError code) = Some code"
| "asPg (Wrapf f as e) = asPg e"
| "asPg (App (AppError co ms h g (Some c) m)) = asPg c"
| "asPg _ = None"

text \<open>No AppError anywhere in the chain: the errors of drivers and of the standard library.\<close>

fun noApp :: "go_error \<Rightarrow> bool" where
  "noApp (App e) = False"
| "noApp (Wrapf f as e) = noApp e"
| "noApp _ = True"

text \<open>The method \<open>(e *AppError) Is(target error)\<close>.\<close>

definition AppIs :: "app_error \<Rightarrow> go_error \<Rightarrow> bool" where
  "AppIs e target = (case asApp target of None \<Rightarrow> False | Some t \<Rightarrow> e_code e = e_code t)"

text \<open>
  \<open>errors.Is(err, target)\<close>: equality with the target or a true \<open>Is\<close> method, then the same
  for the wrapped error.  For an AppError equality of pointers is subsumed by its method.
\<close>

fun errorsIs :: "go_error \<Rightarrow> go_error \<Rightarrow> bool" where
  "errorsIs (App (AppError co ms h g (Some c) m)) target =
     (AppIs (AppError co ms h g (Some c) m) target \<or> errorsIs c target)"
| "errorsIs (App (AppError co ms h g None m)) target = AppIs (AppError co ms h g None m) target"
| "errorsIs (Wrapf f as e) target = (target = Wrapf f as e \<or> errorsIs e target)"
| "errorsIs e target = (e = target)"

section \<open>The catalogue\<close>

text \<open>The \<open>net/http\<close> status constants.\<close>

abbreviation "StatusOK \<equiv> (200 :: nat)"
abbreviation "StatusCreated \<equiv> (201 :: nat)"
abbreviation "StatusNoContent \<equiv> (204 :: nat)"
abbreviation "StatusBadRequest \<equiv> (400 :: nat)"
abbreviation "StatusUnauthorized \<equiv> (401 :: nat)"
abbreviation "StatusForbidden \<equiv> (403 :: nat)"
abbreviation "StatusNotFound \<equiv> (404 :: nat)"
abbreviation "StatusConflict \<equiv> (409 :: nat)"
abbreviation "StatusTooManyRequests \<equiv> (429 :: nat)"
abbreviation "StatusInternalServerError \<equiv> (500 :: nat)"
abbreviation "StatusServiceUnavailable \<equiv> (503 :: nat)"

definition ErrInvalidRequest :: app_error where
  "ErrInvalidRequest = New ''invalid_request'' ''the request is invalid'' StatusBadRequest InvalidArgument"
definition ErrUnauthorized :: app_error where
  "ErrUnauthorized = New ''unauthorized'' ''authentication required'' StatusUnauthorized Unauthenticated"
definition ErrForbidden :: app_error where
  "ErrForbidden = New ''forbidden'' ''operation not permitted'' StatusForbidden PermissionDenied"
definition ErrNotFound :: app_error where
  "ErrNotFound = New ''not_found'' ''resource not found'' StatusNotFound NotFound"
definition ErrAlreadyExists :: app_error where
  "ErrAlreadyExists = New ''already_exists'' ''resource already exists'' StatusConflict AlreadyExists"
definition ErrConflict :: app_error where
  "ErrConflict = New ''conflict'' ''resource conflict'' StatusConflict Aborted"
definition ErrTooManyRequests :: app_error where
  "ErrTooManyRequests = New ''too_many_requests'' ''rate limit exceeded'' StatusTooManyRequests ResourceExhausted"
definition ErrInternal :: app_error where
  "ErrInternal = New ''internal'' ''internal server error'' StatusInternalServerError Internal"

definition ErrAccountNotFound :: app_error where
  "ErrAccountNotFound = New ''account_not_found'' ''account not found'' StatusNotFound NotFound"
definition ErrAccountAlreadyExists :: app_error where
  "ErrAccountAlreadyExists = New ''account_already_exists'' ''account already exists'' StatusConflict AlreadyExists"
definition ErrInvalidEmail :: app_error where
  "ErrInvalidEmail = New ''invalid_email'' ''invalid email'' StatusBadRequest InvalidArgument"
definition ErrInvalidStatus :: app_error where
  "ErrInvalidStatus = New ''invalid_status'' ''invalid account status'' StatusBadRequest InvalidArgument"
definition ErrWeakPassword :: app_error where
  "ErrWeakPassword = New ''weak_password'' ''password does not meet strength requirements'' StatusBadRequest InvalidArgument"
definition ErrInvalidCredentials :: app_error where
  "ErrInvalidCredentials = New ''invalid_credentials'' ''invalid credentials'' StatusUnauthorized Unauthenticated"
definition ErrAccountBlocked :: app_error where
  "ErrAccountBlocked = New ''account_blocked'' ''account is blocked'' StatusForbidden PermissionDenied"

definition catalog :: "app_error list" where
  "catalog = [ErrInvalidRequest, ErrUnauthorized, ErrForbidden, ErrNotFound, ErrAlreadyExists,
     ErrConflict, ErrTooManyRequests, ErrInternal, ErrAccountNotFound, ErrAccountAlreadyExists,
     ErrInvalidEmail, ErrInvalidStatus, ErrWeakPassword, ErrInvalidCredentials, ErrAccountBlocked]"

lemmas sentinel_defs = ErrInvalidRequest_def ErrUnauthorized_def ErrForbidden_def ErrNotFound_def
  ErrAlreadyExists_def ErrConflict_def ErrTooManyRequests_def ErrInternal_def ErrAccountNotFound_def
  ErrAccountAlreadyExists_def ErrInvalidEmail_def ErrInvalidStatus_def ErrWeakPassword_def
  ErrInvalidCredentials_def ErrAccountBlocked_def

section \<open>\<open>FromError\<close>\<close>

text \<open>
  On a non-nil error \<open>FromError\<close> returns a non-nil AppError (\<open>extractApp\<close>); the flag says
  whether the chain held one.  On nil it returns \<open>(nil, false)\<close>.
\<close>

definition extractApp :: "go_error \<Rightarrow> app_error \<times> bool" where
  "extractApp err = (case asApp err of Some ae \<Rightarrow> (ae, True) | None \<Rightarrow> (Cause ErrInternal err, False))"

definition FromError :: "go_error option \<Rightarrow> app_error option \<times> bool" where
  "FromError err =
     (case err of None \<Rightarrow> (None, False)
                | Some e \<Rightarrow> (case extractApp e of (ae, found) \<Rightarrow> (Some ae, found)))"

section \<open>Lemmas\<close>

lemma map_of_copyMap [simp]: "map_of (copyMap m) = map_of m"
  by (induction m) (auto simp: copyMap_def)

lemma distinct_copyMap: "distinct (map fst (copyMap m))"
  by (induction m) (auto simp: copyMap_def distinct_put)

lemma copyMap_Nil_iff [simp]: "copyMap m = [] \<longleftrightarrow> m = []"
  by (cases m) (auto simp: copyMap_def)

lemma set_fields [simp]:
  "e_code (setCause c e) = e_code e" "e_message (setCause c e) = e_message e"
  "e_httpStatus (setCause c e) = e_httpStatus e" "e_grpcCode (setCause c e) = e_grpcCode e"
  "e_cause (setCause c e) = c" "e_meta (setCause c e) = e_meta e"
  "e_code (setMessage ms e) = e_code e" "e_message (setMessage ms e) = ms"
  "e_httpStatus (setMessage ms e) = e_httpStatus e" "e_grpcCode (setMessage ms e) = e_grpcCode e"
  "e_cause (setMessage ms e) = e_cause e" "e_meta (setMessage ms e) = e_meta e"
  "e_code (setMeta mt e) = e_code e" "e_message (setMeta mt e) = e_message e"
  "e_httpStatus (setMeta mt e) = e_httpStatus e" "e_grpcCode (setMeta mt e) = e_grpcCode e"
  "e_cause (setMeta mt e) = e_cause e" "e_meta (setMeta mt e) = mt"
  by (cases e; simp)+

lemma clone_fields [simp]:
  "e_code (clone e) = e_code e" "e_message (clone e) = e_message e"
  "e_httpStatus (clone e) = e_httpStatus e" "e_grpcCode (clone e) = e_grpcCode e"
  "e_cause (clone e) = e_cause e" "e_meta (clone e) = Some (Metadata e)"
  by (simp_all add: clone_def)

lemma Cause_fields [simp]:
  "e_code (Cause e err) = e_code e" "e_message (Cause e err) = e_message e"
  "e_httpStatus (Cause e err) = e_httpStatus e" "e_grpcCode (Cause e err) = e_grpcCode e"
  "e_cause (Cause e err) = Some err" "e_meta (Cause e err) = Some (Metadata e)"
  by (simp_all add: Cause_def)

lemma WithMessage_fields [simp]:
  "e_code (WithMessage e ms) = e_code e" "e_message (WithMessage e ms) = ms"
  "e_httpStatus (WithMessage e ms) = e_httpStatus e" "e_grpcCode (WithMessage e ms) = e_grpcCode e"
  "e_cause (WithMessage e ms) = e_cause e" "e_meta (WithMessage e ms) = Some (Metadata e)"
  by (simp_all add: WithMessage_def)

lemma WithMetadata_fields [simp]:
  "e_code (WithMetadata e k v) = e_code e" "e_message (WithMetadata e k v) = e_message e"
  "e_httpStatus (WithMetadata e k v) = e_httpStatus e" "e_grpcCode (WithMetadata e k v) = e_grpcCode e"
  "e_cause (WithMetadata e k v) = e_cause e"
  "e_meta (WithMetadata e k v) = Some (put k v (Metadata e))"
  by (simp_all add: WithMetadata_def)

lemma New_fields [simp]:
  "e_code (New co ms h g) = co" "e_message (New co ms h g) = ms" "e_httpStatus (New co ms h g) = h"
  "e_grpcCode (New co ms h g) = g" "e_cause (New co ms h g) = None" "e_meta (New co ms h g) = None"
  by (simp_all add: New_def)

lemma map_of_Metadata:
  "map_of (Metadata e) = (case e_meta e of None \<Rightarrow> Map.empty | Some m \<Rightarrow> map_of m)"
  by (simp add: Metadata_def split: option.split)

lemma Metadata_Nil_iff: "Metadata e = [] \<longleftrightarrow> e_meta e = None \<or> e_meta e = Some []"
  by (auto simp: Metadata_def split: option.split)

text \<open>\<open>errors.Is\<close> by fields of the head of the chain.\<close>

lemma errorsIs_App:
  "errorsIs (App e) target \<longleftrightarrow>
     AppIs e target \<or> (\<exists>c. e_cause e = Some c \<and> errorsIs c target)"
proof (cases e)
  case (AppError co ms h g c m)
  then show ?thesis by (cases c) auto
qed

lemma AppIs_App [simp]: "AppIs e (App t) \<longleftrightarrow> e_code e = e_code t"
  by (simp add: AppIs_def)

lemma AppIs_foreign [simp]: "asApp t = None \<Longrightarrow> \<not> AppIs e t"
  by (simp add: AppIs_def)

lemma errorsIs_refl_App [simp]: "errorsIs (App e) (App e)"
  by (simp add: errorsIs_App)

lemma noApp_asApp: "noApp e \<longleftrightarrow> asApp e = None"
  by (induction e rule: noApp.induct) auto

lemma noApp_errorsIs [simp]: "noApp e \<Longrightarrow> \<not> errorsIs e (App t)"
  by (induction e rule: noApp.induct) auto

lemma errorsIs_sentinel_Cause [simp]:
  "errorsIs (App (Cause e c)) (App t) \<longleftrightarrow> e_code e = e_code t \<or> errorsIs c (App t)"
  by (auto simp: errorsIs_App)

lemma catalog_codes_distinct: "distinct (map e_code catalog)"
  by (simp add: catalog_def sentinel_defs)

lemma catalog_code_inject:
  "e \<in> set catalog \<Longrightarrow> t \<in> set catalog \<Longrightarrow> e_code e = e_code t \<Longrightarrow> e = t"
  using catalog_codes_distinct by (metis distinct_map inj_onD)

lemma catalog_no_cause: "e \<in> set catalog \<Longrightarrow> e_cause e = None"
  by (auto simp: catalog_def sentinel_defs)

lemma sentinel_codes [simp]:
  "e_code ErrInvalidRequest = ''invalid_request''" "e_code ErrInternal = ''internal''"
  "e_code ErrTooManyRequests = ''too_many_requests''"
  "e_code ErrAccountNotFound = ''account_not_found''"
  "e_code ErrAccountAlreadyExists = ''account_already_exists''"
  "e_code ErrInvalidEmail = ''invalid_email''" "e_code ErrInvalidStatus = ''invalid_status''"
  "e_code ErrWeakPassword = ''weak_password''"
  by (simp_all add: sentinel_defs)

lemma sentinel_status [simp]:
  "e_httpStatus ErrInvalidRequest = 400" "e_httpStatus ErrInternal = 500"
  "e_httpStatus ErrTooManyRequests = 429" "e_httpStatus ErrAccountNotFound = 404"
  "e_httpStatus ErrAccountAlreadyExists = 409" "e_httpStatus ErrInvalidEmail = 400"
  "e_httpStatus ErrInvalidStatus = 400" "e_httpStatus ErrWeakPassword = 400"
  by (simp_all add: sentinel_defs)

lemma sentinel_grpc [simp]:
  "e_grpcCode ErrInvalidRequest = InvalidArgument" "e_grpcCode ErrInternal = Internal"
  "e_grpcCode ErrTooManyRequests = ResourceExhausted" "e_grpcCode ErrAccountNotFound = NotFound"
  "e_grpcCode ErrAccountAlreadyExists = AlreadyExists" "e_grpcCode ErrInvalidEmail = InvalidArgument"
  "e_grpcCode ErrInvalidStatus = InvalidArgument" "e_grpcCode ErrWeakPassword = InvalidArgument"
  by (simp_all add: sentinel_defs)

lemma sentinel_cause [simp]:
  "e_cause ErrInvalidRequest = None" "e_cause ErrInternal = None" "e_cause ErrTooManyRequests = None"
  "e_cause ErrAccountNotFound = None" "e_cause ErrAccountAlreadyExists = None"
  "e_cause ErrInvalidEmail = None" "e_cause ErrInvalidStatus = None" "e_cause ErrWeakPassword = None"
  by (simp_all add: sentinel_defs)

lemma sentinel_message [simp]: "e_message ErrInternal = ''internal server error''"
  by (simp add: sentinel_defs)

lemma sentinel_meta [simp]:
  "e_meta ErrInvalidRequest = None" "e_meta ErrInternal = None" "e_meta ErrTooManyRequests = None"
  "e_meta ErrAccountNotFound = None" "e_meta ErrAccountAlreadyExists = None"
  "e_meta ErrInvalidEmail = None" "e_meta ErrInvalidStatus = None" "e_meta ErrWeakPassword = None"
  by (simp_all add: sentinel_defs)

text \<open>Chains of derivations from a sentinel, as the callers write them.\<close>

datatype derivation = DCause go_error | DMessage string | DMeta string string

fun derive :: "app_error \<Rightarrow> derivation list \<Rightarrow> app_error" where
  "derive e [] = e"
| "derive e (DCause err # ds) = derive (Cause e err) ds"
| "derive e (DMessage ms # ds) = derive (WithMessage e ms) ds"
| "derive e (DMeta k v # ds) = derive (WithMetadata e k v) ds"

lemma derive_fields [simp]:
  "e_code (derive e ds) = e_code e \<and> e_httpStatus (derive e ds) = e_httpStatus e
     \<and> e_grpcCode (derive e ds) = e_grpcCode e"
  by (induction e ds rule: derive.induct) auto

lemma derive_cause:
  "(\<forall>d \<in> set ds. \<not> (\<exists>c. d = DCause c)) \<Longrightarrow> e_cause (derive e ds) = e_cause e"
  by (induction e ds rule: derive.induct) auto

section \<open>Properties\<close>

text \<open>
  An error derived from a catalogue sentinel by any sequence of Cause, WithMessage and
  WithMetadata still matches that sentinel under errors.Is and keeps its code and both
  transport mappings; as long as no cause was attached it matches no other catalogue entry.
\<close>

lemma derived_matches_sentinel:
  "errorsIs (App (derive s ds)) (App s) \<and> Code (derive s ds) = Code s
     \<and> HTTPStatus (derive s ds) = HTTPStatus s \<and> GRPCCode (derive s ds) = GRPCCode s
     \<and> (s \<in> set catalog \<longrightarrow> t \<in> set catalog \<longrightarrow> (\<forall>d \<in> set ds. \<not> (\<exists>c. d = DCause c)) \<longrightarrow>
          errorsIs (App (derive s ds)) (App t) \<longrightarrow> t = s)"
  by (auto simp: errorsIs_App Code_def HTTPStatus_def GRPCCode_def derive_cause catalog_no_cause
           dest: catalog_code_inject)

lemma derived_matches_sentinel_witness:
  "errorsIs (App (derive ErrInvalidEmail [DMeta ''email'' ''x'', DMessage ''m''])) (App ErrInvalidEmail)
   \<and> \<not> errorsIs (App (derive ErrInvalidEmail [DMeta ''email'' ''x'', DMessage ''m''])) (App ErrInternal)"
proof -
  have "ErrInvalidEmail \<in> set catalog" "ErrInternal \<in> set catalog"
    and "ErrInternal \<noteq> ErrInvalidEmail"
    by (simp_all add: catalog_def sentinel_defs New_def)
  then show ?thesis
    using derived_matches_sentinel
      [of ErrInvalidEmail "[DMeta ''email'' ''x'', DMessage ''m'']" ErrInternal] by auto
qed

text \<open>
  Wrapping a cause makes the result match exactly what it matched by its own code and
  whatever the cause matches.
\<close>

lemma Cause_matches:
  "errorsIs (App (Cause s err)) target \<longleftrightarrow>
     (\<exists>t. asApp target = Some t \<and> Code s = Code t) \<or> errorsIs err target"
  by (auto simp: errorsIs_App AppIs_def Code_def split: option.split)

text \<open>
  Metadata written by WithMetadata is read back, all other metadata is kept, and the
  copy never holds a nil map.
\<close>

lemma WithMetadata_lookup:
  "map_of (Metadata (WithMetadata e k v)) = (map_of (Metadata e))(k \<mapsto> v)
     \<and> e_meta (WithMetadata e k v) \<noteq> None \<and> distinct (map fst (Metadata (WithMetadata e k v)))"
  by (simp add: map_of_Metadata [of "WithMetadata e k v"]) (simp add: Metadata_def distinct_copyMap)

lemma asApp_errorsIs: "asApp err = Some ae \<Longrightarrow> errorsIs err (App ae)"
  by (induction err rule: asApp.induct) auto

text \<open>
  FromError always yields something renderable for a non-nil error.  If the chain holds
  an AppError it is that one, and the error matches it; otherwise it is an internal error
  with the original as its cause.
\<close>

lemma FromError_total:
  "\<exists>ae. fst (FromError (Some err)) = Some ae
     \<and> (snd (FromError (Some err)) \<longrightarrow> errorsIs err (App ae))
     \<and> (\<not> snd (FromError (Some err)) \<longrightarrow>
          asApp err = None \<and> Code ae = ''internal'' \<and> HTTPStatus ae = 500 \<and> GRPCCode ae = Internal
          \<and> Unwrap ae = Some err)"
  by (auto simp: FromError_def extractApp_def Code_def HTTPStatus_def GRPCCode_def Unwrap_def
           intro: asApp_errorsIs split: option.split)

lemma FromError_total_witness:
  "FromError (Some (ErrorString ''boom'')) = (Some (Cause ErrInternal (ErrorString ''boom'')), False)
   \<and> Unwrap (Cause ErrInternal (ErrorString ''boom'')) = Some (ErrorString ''boom'')"
proof -
  have h: "FromError (Some (ErrorString ''boom'')) = (Some (Cause ErrInternal (ErrorString ''boom'')), False)"
    by (simp add: FromError_def extractApp_def)
  with FromError_total [of "ErrorString ''boom''"] show ?thesis by auto
qed

end
