(* ===== verification/Ports.thy ===== *)
theory Ports
  imports Domain Apperr
begin

text \<open>
  Packages \<open>internal/ports/inbound\<close> and \<open>internal/ports/outbound\<close>: the interfaces between
  the layers.  A Go interface value is a record of its methods over a state \<open>'s\<close>; what its
  implementations promise is a locale over such a record.
\<close>

section \<open>Interfaces\<close>

record 's AccountRepository =
  repo_Create :: "account \<Rightarrow> ('s, go_error, string) op"
  repo_GetByID :: "string \<Rightarrow> ('s, go_error, account ptr) op"
  repo_GetByEmail :: "string \<Rightarrow> ('s, go_error, account ptr) op"
  repo_Update :: "UpdateAccountParams \<Rightarrow> ('s, go_error, unit) op"
  repo_Delete :: "string \<Rightarrow> ('s, go_error, unit) op"
  repo_List :: "ListAccountFilter \<Rightarrow> ('s, go_error, account list \<times> goint) op"

record ('s, 'v) CacheManager =
  cm_Get :: "string \<Rightarrow> ('s, go_error, 'v) op"
  cm_GetOnce :: "string \<Rightarrow> ('s, go_error, 'v) op \<Rightarrow> duration \<Rightarrow> ('s, go_error, 'v) op"
  cm_Set :: "string \<Rightarrow> 'v \<Rightarrow> duration \<Rightarrow> ('s, go_error, unit) op"
  cm_SetMulti :: "string list \<Rightarrow> 'v list \<Rightarrow> duration \<Rightarrow> ('s, go_error, unit) op"
  cm_Delete :: "string \<Rightarrow> ('s, go_error, unit) op"

type_synonym 's RateLimiter = "LimitRequest \<Rightarrow> ('s, go_error, LimitResponse) op"

text \<open>
  \<open>WithTx(ctx, fn)\<close>.  The closures the use case passes assign one captured variable
  (\<open>account.ID\<close> in Create, \<open>updated\<close> in Update, none in Delete); the variable is only read
  when \<open>WithTx\<close> returned nil, so it travels in the closure's successful result.
\<close>

type_synonym 's TxManager = "('s, go_error, account ptr) op \<Rightarrow> ('s, go_error, account ptr) op"

record PasswordService =
  pw_IsValidPassword :: "string \<Rightarrow> go_error + bool"
  pw_Hash :: "string \<Rightarrow> go_error + string"

record 's AccountUseCase =
  uc_Create :: "CreateAccountRequest \<Rightarrow> ('s, go_error, account ptr) op"
  uc_Get :: "string \<Rightarrow> ('s, go_error, account ptr) op"
  uc_List :: "ListAccountFilter \<Rightarrow> ('s, go_error, account list \<times> goint) op"
  uc_Update :: "UpdateAccountRequest \<Rightarrow> ('s, go_error, account ptr) op"
  uc_Delete :: "string \<Rightarrow> ('s, go_error, unit) op"

definition ErrLockNotAcquired :: go_error where
  "ErrLockNotAcquired = ErrorString ''lock: not acquired''"

section \<open>Stores of accounts\<close>

text \<open>
  The abstract store: the durable accounts by id.  The schema (primary key and unique email)
  makes it well-formed.
\<close>

type_synonym accounts = "string \<rightharpoonup> account"

definition wf_accounts :: "accounts \<Rightarrow> bool" where
  "wf_accounts v \<longleftrightarrow> (\<forall>i a. v i = Some a \<longrightarrow> ID a = i)
     \<and> (\<forall>i j a b. v i = Some a \<longrightarrow> v j = Some b \<longrightarrow> Email a = Email b \<longrightarrow> i = j)"

definition emailTaken :: "accounts \<Rightarrow> string \<Rightarrow> bool" where
  "emailTaken v email \<longleftrightarrow> (\<exists>a \<in> ran v. Email a = email)"

lemma wf_accounts_empty [simp]: "wf_accounts Map.empty"
  by (simp add: wf_accounts_def)

lemma wf_accounts_insert:
  "wf_accounts v \<Longrightarrow> \<not> emailTaken v (Email a) \<Longrightarrow> wf_accounts (v(ID a \<mapsto> a))"
  unfolding wf_accounts_def emailTaken_def by (simp add: ran_def) metis

lemma wf_accounts_update:
  "wf_accounts v \<Longrightarrow> v i = Some a \<Longrightarrow> ID b = ID a \<Longrightarrow> Email b = Email a \<Longrightarrow> wf_accounts (v(i \<mapsto> b))"
  unfolding wf_accounts_def by (simp, metis)

lemma wf_accounts_delete: "wf_accounts v \<Longrightarrow> wf_accounts (v(i := None))"
  unfolding wf_accounts_def by (auto split: if_splits)

section \<open>The repository contract\<close>

text \<open>
  The write half of the port: what Create, Update and Delete do to the durable accounts, and
  that reads do not change them.  \<open>enc\<close> and \<open>encp\<close> say what a backend stores of an entity
  and of a patch (precision of timestamps, width of the status column).  The cache decorator
  keeps this half of the contract.
\<close>

locale account_writes =
  fixes r :: "'s AccountRepository"
    and view :: "'s \<Rightarrow> accounts"
    and enc :: "account \<Rightarrow> account"
    and encp :: "UpdateAccountParams \<Rightarrow> UpdateAccountParams"
  assumes enc_keys: "ID (enc a) = ID a" "Email (enc a) = Email a"
    and encp_id: "up_ID (encp p) = up_ID p"
    and create_ok: "repo_Create r a s = (Inr i, s') \<Longrightarrow>
        i = ID a \<and> view s (ID a) = None \<and> \<not> emailTaken (view s) (Email a)
        \<and> view s' = (view s)(ID a \<mapsto> enc a)"
    and create_err: "repo_Create r a s = (Inl e, s') \<Longrightarrow> view s' = view s"
    and create_dup: "repo_Create r a s = (Inl e, s') \<Longrightarrow> errorsIs e (App ErrAccountAlreadyExists) \<Longrightarrow>
        view s (ID a) \<noteq> None \<or> emailTaken (view s) (Email a)"
    and update_ok: "repo_Update r p s = (Inr u, s') \<Longrightarrow>
        \<exists>a. view s (up_ID p) = Some a \<and> view s' = (view s)(up_ID p \<mapsto> patch (encp p) a)"
    and update_err: "repo_Update r p s = (Inl e, s') \<Longrightarrow> view s' = view s"
    and update_missing: "repo_Update r p s = (Inl e, s') \<Longrightarrow> errorsIs e (App ErrAccountNotFound) \<Longrightarrow>
        view s (up_ID p) = None"
    and delete_ok: "repo_Delete r i s = (Inr u, s') \<Longrightarrow>
        view s i \<noteq> None \<and> view s' = (view s)(i := None)"
    and delete_err: "repo_Delete r i s = (Inl e, s') \<Longrightarrow> view s' = view s"
    and delete_missing: "repo_Delete r i s = (Inl e, s') \<Longrightarrow> errorsIs e (App ErrAccountNotFound) \<Longrightarrow>
        view s i = None"
    and reads_keep: "keeps view (repo_GetByID r i)" "keeps view (repo_GetByEmail r i)"
      "keeps view (repo_List r f)"
begin

lemma create_wf: "repo_Create r a s = (x, s') \<Longrightarrow> wf_accounts (view s) \<Longrightarrow> wf_accounts (view s')"
  using wf_accounts_insert [of "view s" "enc a"]
  by (cases x) (auto dest: create_ok create_err simp: enc_keys)

lemma update_wf: "repo_Update r p s = (x, s') \<Longrightarrow> wf_accounts (view s) \<Longrightarrow> wf_accounts (view s')"
  by (cases x) (auto dest!: update_ok dest: update_err intro!: wf_accounts_update)

lemma delete_wf: "repo_Delete r i s = (x, s') \<Longrightarrow> wf_accounts (view s) \<Longrightarrow> wf_accounts (view s')"
  by (cases x) (auto dest!: delete_ok dest: delete_err intro: wf_accounts_delete)

text \<open>A failed write changes nothing, whichever write it is.\<close>

lemma failed_writes_keep:
  "repo_Create r a s = (Inl e, s') \<or> repo_Update r p s = (Inl e, s') \<or> repo_Delete r i s = (Inl e, s')
     \<Longrightarrow> view s' = view s"
  using create_err update_err delete_err by blast

end

text \<open>
  The read half: a backend's reads return the durable account, and report absence exactly by
  \<open>ErrAccountNotFound\<close>.  A cache in front of a backend does not keep this half.
\<close>

locale account_repository = account_writes +
  assumes get_ok: "repo_GetByID r i s = (Inr p, s') \<Longrightarrow> \<exists>a. p = Some a \<and> view s i = Some a"
    and get_notfound: "repo_GetByID r i s = (Inl e, s') \<Longrightarrow>
        errorsIs e (App ErrAccountNotFound) \<Longrightarrow> view s i = None"
    and email_ok: "repo_GetByEmail r m s = (Inr p, s') \<Longrightarrow>
        \<exists>a. p = Some a \<and> a \<in> ran (view s) \<and> Email a = m"
    and email_notfound: "repo_GetByEmail r m s = (Inl e, s') \<Longrightarrow>
        errorsIs e (App ErrAccountNotFound) \<Longrightarrow> \<not> emailTaken (view s) m"
    and email_no_conflict: "repo_GetByEmail r m s = (Inl e, s') \<Longrightarrow> \<not> errorsIs e (App ErrAccountAlreadyExists)"
    and list_sound: "repo_List r f s = (Inr (as, n), s') \<Longrightarrow>
        set as \<subseteq> ran (view s) \<and> (\<forall>a \<in> set as. \<forall>st. lf_Status f = Some st \<longrightarrow> scast (Status a) = (scast st :: goint32))"
begin

text \<open>Reading back what was written.\<close>

lemma create_then_get:
  assumes "repo_Create r a s = (Inr i, s1)" "repo_GetByID r i s1 = (Inr p, s2)"
  shows "p = Some (enc a)"
  using create_ok [OF assms(1)] get_ok [OF assms(2)] by auto

lemma create_then_email:
  assumes "repo_Create r a s = (Inr i, s1)" "repo_GetByEmail r (Email a) s1 = (Inr p, s2)"
    and "wf_accounts (view s)"
  shows "p = Some (enc a)"
proof -
  have v: "view s1 = (view s)(ID a \<mapsto> enc a)" and "\<not> emailTaken (view s) (Email a)"
    using create_ok [OF assms(1)] by auto
  moreover obtain b where b: "p = Some b" "b \<in> ran (view s1)" "Email b = Email a"
    using email_ok [OF assms(2)] by auto
  ultimately show ?thesis
    by (auto simp: ran_def emailTaken_def split: if_splits)
qed

lemma delete_then_get:
  assumes "repo_Delete r i s = (Inr u, s1)"
  shows "repo_GetByID r i s1 \<noteq> (Inr p, s2)"
  using delete_ok [OF assms] by (auto dest: get_ok)

lemma update_then_get:
  assumes "repo_Update r p s = (Inr u, s1)" "repo_GetByID r (up_ID p) s1 = (Inr q, s2)"
  shows "\<exists>a. view s (up_ID p) = Some a \<and> q = Some (patch (encp p) a)"
  using update_ok [OF assms(1)] get_ok [OF assms(2)] by auto

end

section \<open>A repository on a part of the state\<close>

definition repoOn :: "('s \<Rightarrow> 'd) \<Rightarrow> ('d \<Rightarrow> 's \<Rightarrow> 's) \<Rightarrow> 'd AccountRepository \<Rightarrow> 's AccountRepository" where
  "repoOn get upd r = \<lparr>repo_Create = (\<lambda>a. onPart get upd (repo_Create r a)),
     repo_GetByID = (\<lambda>i. onPart get upd (repo_GetByID r i)),
     repo_GetByEmail = (\<lambda>m. onPart get upd (repo_GetByEmail r m)),
     repo_Update = (\<lambda>p. onPart get upd (repo_Update r p)),
     repo_Delete = (\<lambda>i. onPart get upd (repo_Delete r i)),
     repo_List = (\<lambda>f. onPart get upd (repo_List r f))\<rparr>"

lemma repoOn_simps [simp]:
  "repo_Create (repoOn get upd r) a = onPart get upd (repo_Create r a)"
  "repo_GetByID (repoOn get upd r) i = onPart get upd (repo_GetByID r i)"
  "repo_GetByEmail (repoOn get upd r) m = onPart get upd (repo_GetByEmail r m)"
  "repo_Update (repoOn get upd r) p = onPart get upd (repo_Update r p)"
  "repo_Delete (repoOn get upd r) i = onPart get upd (repo_Delete r i)"
  "repo_List (repoOn get upd r) f = onPart get upd (repo_List r f)"
  by (simp_all add: repoOn_def)

context account_repository
begin

lemma on_part:
  assumes "store_part get upd"
  shows "account_repository (repoOn get upd r) (view \<circ> get) enc encp"
proof -
  note cases = store_part.onPart_cases [OF assms]
  show ?thesis
  proof unfold_locales
    show "keeps (view \<circ> get) (repo_GetByID (repoOn get upd r) i)" "keeps (view \<circ> get) (repo_GetByEmail (repoOn get upd r) i)"
      "keeps (view \<circ> get) (repo_List (repoOn get upd r) f)" for i f
      using reads_keep by (simp_all add: store_part.keeps_onPart [OF assms])
    fix m s p s' assume "repo_GetByEmail (repoOn get upd r) m s = (Inr p, s')"
    then show "\<exists>a. p = Some a \<and> a \<in> ran ((view \<circ> get) s) \<and> Email a = m" by (auto dest!: cases email_ok)
  next
    fix f s as n s' assume "repo_List (repoOn get upd r) f s = (Inr (as, n), s')"
    then have "repo_List r f (get s) = (Inr (as, n), get s')" by (auto dest: cases)
    from list_sound [OF this]
    show "set as \<subseteq> ran ((view \<circ> get) s) \<and> (\<forall>a \<in> set as. \<forall>st. lf_Status f = Some st \<longrightarrow> scast (Status a) = (scast st :: goint32))"
      by simp
  qed (auto simp: enc_keys encp_id create_err update_err delete_err get_notfound email_notfound
         update_missing delete_missing
         dest!: cases dest: create_ok create_dup email_no_conflict update_ok delete_ok get_ok)
qed

end

section \<open>The transaction manager's contract\<close>

text \<open>
  What the code relies on of \<open>manager.Do\<close> (go-transaction-manager): when \<open>WithTx\<close> returns an
  error, the durable accounts are as they were before it, whether the transaction could not
  be opened, the function failed or the commit failed; when it returns nil, the function ran
  to its end without error and its durable effects are kept.  Nothing is promised about
  state outside the database.  An error of the function is returned as it is unless the
  rollback itself fails with a driver error.
\<close>

locale tx_manager =
  fixes withTx :: "'s TxManager" and view :: "'s \<Rightarrow> accounts"
  assumes tx_error: "withTx body s = (Inl e, s') \<Longrightarrow> view s' = view s"
    and tx_done: "withTx body s = (Inr v, s') \<Longrightarrow>
        \<exists>s0 s1. view s0 = view s \<and> body s0 = (Inr v, s1) \<and> view s' = view s1"
    and tx_reason: "withTx body s = (Inl e, s') \<Longrightarrow>
        noApp e \<or> (\<exists>s0 s1. view s0 = view s \<and> body s0 = (Inl e, s1))"

end
