(* ===== verification/Cache.thy ===== *)
theory Cache
  imports Ports
begin

text \<open>
  The cache adapter (\<open>internal/adapter/cache\<close>): \<open>Manager[T]\<close> over an eko/gocache typed cache.
  The library cache behind it (Redis or process-local) is a parameter; the locale \<open>kv_cache\<close>
  says what the code relies on of it.
\<close>

section \<open>The manager\<close>

record ('s, 'v) LibCache =
  lc_Get :: "string \<Rightarrow> ('s, go_error, 'v) op"
  lc_Set :: "string \<Rightarrow> 'v \<Rightarrow> duration \<Rightarrow> ('s, go_error, unit) op"
  lc_Delete :: "string \<Rightarrow> ('s, go_error, unit) op"

definition managerGet :: "('s, 'v) LibCache \<Rightarrow> string \<Rightarrow> ('s, go_error, 'v) op" where
  "managerGet c key = lc_Get c key"

text \<open>Any failure of the lookup counts as a miss; a failed store fails the call.\<close>

definition GetOnce ::
    "('s, 'v) LibCache \<Rightarrow> string \<Rightarrow> ('s, go_error, 'v) op \<Rightarrow> duration \<Rightarrow> ('s, go_error, 'v) op" where
  "GetOnce c key loader ttl = (\<lambda>s.
     case lc_Get c key s of
       (Inr val, s1) \<Rightarrow> (Inr val, s1)
     | (Inl _, s1) \<Rightarrow>
         andThen loader (\<lambda>val. andThen (lc_Set c key val ttl) (\<lambda>_. ret val)) s1)"

definition managerSet :: "('s, 'v) LibCache \<Rightarrow> string \<Rightarrow> 'v \<Rightarrow> duration \<Rightarrow> ('s, go_error, unit) op" where
  "managerSet c key val ttl = lc_Set c key val ttl"

text \<open>
  \<open>values[i]\<close> panics when there are fewer values than keys; the panic is kept as an error value
  of its own.
\<close>

definition indexPanic :: go_error where
  "indexPanic = DriverErr ''panic: index out of range''"

fun SetMulti :: "('s, 'v) LibCache \<Rightarrow> string list \<Rightarrow> 'v list \<Rightarrow> duration \<Rightarrow> ('s, go_error, unit) op" where
  "SetMulti c [] vals ttl = ret ()"
| "SetMulti c (key # keys) [] ttl = throw indexPanic"
| "SetMulti c (key # keys) (val # vals) ttl =
     andThen (lc_Set c key val ttl) (\<lambda>_. SetMulti c keys vals ttl)"

definition managerDelete :: "('s, 'v) LibCache \<Rightarrow> string \<Rightarrow> ('s, go_error, unit) op" where
  "managerDelete c key = lc_Delete c key"

definition cacheManager :: "('s, 'v) LibCache \<Rightarrow> ('s, 'v) CacheManager" where
  "cacheManager c = \<lparr>cm_Get = managerGet c, cm_GetOnce = GetOnce c, cm_Set = managerSet c,
     cm_SetMulti = SetMulti c, cm_Delete = managerDelete c\<rparr>"

lemma cacheManager_simps [simp]:
  "cm_Get (cacheManager c) = lc_Get c" "cm_GetOnce (cacheManager c) = GetOnce c"
  "cm_Set (cacheManager c) = lc_Set c" "cm_SetMulti (cacheManager c) = SetMulti c"
  "cm_Delete (cacheManager c) = lc_Delete c"
  by (simp_all add: cacheManager_def fun_eq_iff managerGet_def managerSet_def managerDelete_def)

section \<open>What the code relies on of the library cache\<close>

text \<open>
  \<open>entries s\<close> are the values a lookup can return.  They may disappear at any operation
  (expiration, eviction), hence \<open>\<subseteq>\<^sub>m\<close>.  A store that reports a failure may or may not have
  happened; a successful delete has.  No cache operation touches the rest of the world.
\<close>

locale kv_cache =
  fixes c :: "('s, 'v) LibCache" and entries :: "'s \<Rightarrow> string \<rightharpoonup> 'v" and rest :: "'s \<Rightarrow> 'r"
  assumes get_hit: "lc_Get c k s = (Inr v, s') \<Longrightarrow> entries s k = Some v"
    and get_keeps: "lc_Get c k s = (r, s') \<Longrightarrow> entries s' \<subseteq>\<^sub>m entries s"
    and set_keeps: "lc_Set c k v t s = (r', s') \<Longrightarrow>
        entries s' \<subseteq>\<^sub>m entries s \<or> entries s' \<subseteq>\<^sub>m (entries s)(k \<mapsto> v)"
    and evict_ok: "lc_Delete c k s = (Inr u, s') \<Longrightarrow> entries s' \<subseteq>\<^sub>m (entries s)(k := None)"
    and evict_err: "lc_Delete c k s = (Inl e, s') \<Longrightarrow> entries s' \<subseteq>\<^sub>m entries s"
    and rest_keeps: "keeps rest (lc_Get c k)" "keeps rest (lc_Set c k v t)" "keeps rest (lc_Delete c k)"
begin

lemma set_upd:
  assumes "lc_Set c k v t s = (r, s')" "entries s' j = Some w"
  shows "entries s j = Some w \<or> (j = k \<and> w = v)"
  using set_keeps [OF assms(1)]
proof
  assume "entries s' \<subseteq>\<^sub>m entries s"
  with assms(2) show ?thesis by (auto simp: map_le_def dom_def)
next
  assume "entries s' \<subseteq>\<^sub>m (entries s)(k \<mapsto> v)"
  with assms(2) have "((entries s)(k \<mapsto> v)) j = Some w" by (metis domI map_le_def)
  then show ?thesis by (auto split: if_splits)
qed

text \<open>
  Cache-aside.  A successful read returns a cached value or the loader's, and what the cache
  holds afterwards it held before, or the loader left it there, or it is the returned value
  under the key.
\<close>

lemma GetOnce_ok:
  assumes "GetOnce c key loader ttl s = (Inr v, s')"
  obtains (hit) "entries s key = Some v" "entries s' \<subseteq>\<^sub>m entries s" "rest s' = rest s"
    | (load) s1 s2 where "entries s1 \<subseteq>\<^sub>m entries s" "rest s1 = rest s"
        "loader s1 = (Inr v, s2)" "rest s' = rest s2"
        "\<And>j w. entries s' j = Some w \<Longrightarrow> entries s2 j = Some w \<or> (j = key \<and> w = v)"
proof (cases "lc_Get c key s")
  case (Pair r s1)
  have le: "entries s1 \<subseteq>\<^sub>m entries s" and rst: "rest s1 = rest s"
    using get_keeps [OF Pair] keepsD [OF rest_keeps(1) Pair] by auto
  show thesis
  proof (cases r)
    case (Inr w)
    with Pair assms have "w = v" "s' = s1" by (auto simp: GetOnce_def)
    with Pair Inr le rst show thesis by (intro hit) (auto dest: get_hit)
  next
    case (Inl e)
    with Pair assms obtain s2 u where l: "loader s1 = (Inr v, s2)" and st: "lc_Set c key v ttl s2 = (Inr u, s')"
      by (auto simp: GetOnce_def elim!: andThen_InrE)
    show thesis
      by (rule load [OF le rst l]) (use keepsD [OF rest_keeps(2) st] set_upd [OF st] in auto)
  qed
qed

lemma GetOnce_err:
  assumes "GetOnce c key loader ttl s = (Inl e, s')"
  obtains (loader) s1 where "entries s1 \<subseteq>\<^sub>m entries s" "rest s1 = rest s" "loader s1 = (Inl e, s')"
    | (store) s1 s2 v where "entries s1 \<subseteq>\<^sub>m entries s" "rest s1 = rest s"
        "loader s1 = (Inr v, s2)" "rest s' = rest s2"
        "\<And>j w. entries s' j = Some w \<Longrightarrow> entries s2 j = Some w \<or> (j = key \<and> w = v)"
proof (cases "lc_Get c key s")
  case (Pair r s1)
  have le: "entries s1 \<subseteq>\<^sub>m entries s" and rst: "rest s1 = rest s"
    using get_keeps [OF Pair] keepsD [OF rest_keeps(1) Pair] by auto
  from Pair assms obtain e0 where r: "r = Inl e0" by (cases r) (auto simp: GetOnce_def)
  with Pair assms have "andThen loader (\<lambda>val. andThen (lc_Set c key val ttl) (\<lambda>_. ret val)) s1 = (Inl e, s')"
    by (simp add: GetOnce_def)
  then show thesis
  proof (cases rule: andThen_InlE)
    case first
    with le rst show thesis by (rule loader)
  next
    case (second v s2)
    then have st: "lc_Set c key v ttl s2 = (Inl e, s')" by (auto elim!: andThen_InlE)
    show thesis
      by (rule store [OF le rst second(1)]) (use keepsD [OF rest_keeps(2) st] set_upd [OF st] in auto)
  qed
qed

lemma GetOnce_keeps:
  assumes "\<And>s. f (rest (snd (loader s))) = f (rest s)"
  shows "keeps (f \<circ> rest) (GetOnce c key loader ttl)"
proof (rule keepsI)
  have l: "loader s1 = (x, s2) \<Longrightarrow> f (rest s2) = f (rest s1)" for x s1 s2
    using assms [of s1] by simp
  fix s r s' assume *: "GetOnce c key loader ttl s = (r, s')"
  show "(f \<circ> rest) s' = (f \<circ> rest) s"
  proof (cases r)
    case (Inl e)
    from * [unfolded Inl] show ?thesis by (cases rule: GetOnce_err) (auto dest: l)
  next
    case (Inr v)
    from * [unfolded Inr] show ?thesis by (cases rule: GetOnce_ok) (auto dest: l)
  qed
qed

text \<open>SetMulti writes a prefix of the pairs, never another key.\<close>

lemma SetMulti_entries:
  assumes "SetMulti c keys vals t s = (r, s')" "entries s' j = Some w"
  shows "entries s j = Some w \<or> (j, w) \<in> set (zip keys vals)"
  using assms
proof (induction keys arbitrary: vals s)
  case (Cons key keys)
  show ?case
  proof (cases vals)
    case (Cons val vals')
    obtain r1 s1 where st: "lc_Set c key val t s = (r1, s1)" by fastforce
    show ?thesis
    proof (cases r1)
      case (Inl e)
      with st Cons Cons.prems have "s' = s1" by simp
      with set_upd [OF st] Cons Cons.prems show ?thesis by auto
    next
      case (Inr u)
      with st Cons Cons.prems have "SetMulti c keys vals' t s1 = (r, s')" by simp
      from Cons.IH [OF this Cons.prems(2)] show ?thesis using set_upd [OF st, of j w] Cons by auto
    qed
  qed (use Cons.prems in auto)
qed auto

end

section \<open>A process-local store\<close>

text \<open>
  A concrete cache for the interpretation, with deadlines, a clock and a switch for outages;
  the shape of the in-memory store that \<open>NewMemoryManager\<close> selects.
\<close>

record 'v memstore =
  ms_entries :: "(string \<times> 'v \<times> time) list"
  ms_now :: time
  ms_down :: bool

definition live :: "'v memstore \<Rightarrow> string \<rightharpoonup> 'v" where
  "live m k = (case map_of (ms_entries m) k of
     None \<Rightarrow> None | Some (v, deadline) \<Rightarrow> if ms_now m < deadline then Some v else None)"

definition memGet :: "string \<Rightarrow> ('v memstore, go_error, 'v) op" where
  "memGet k = (\<lambda>m. if ms_down m then (Inl (DriverErr ''connection refused''), m)
     else case live m k of None \<Rightarrow> (Inl (ErrorString ''value not found in store''), m) | Some v \<Rightarrow> (Inr v, m))"

definition memSet :: "string \<Rightarrow> 'v \<Rightarrow> duration \<Rightarrow> ('v memstore, go_error, unit) op" where
  "memSet k v ttl = (\<lambda>m. if ms_down m then (Inl (DriverErr ''connection refused''), m)
     else (Inr (), m\<lparr>ms_entries := put k (v, ms_now m + ttl) (ms_entries m)\<rparr>))"

definition memDelete :: "string \<Rightarrow> ('v memstore, go_error, unit) op" where
  "memDelete k = (\<lambda>m. if ms_down m then (Inl (DriverErr ''connection refused''), m)
     else (Inr (), m\<lparr>ms_entries := drop_key k (ms_entries m)\<rparr>))"

lemma live_put: "live (m\<lparr>ms_entries := put k (v, d) (ms_entries m)\<rparr>) j =
    (if j = k then (if ms_now m < d then Some v else None) else live m j)"
  by (auto simp: live_def split: option.split)

lemma live_drop: "live (m\<lparr>ms_entries := drop_key k (ms_entries m)\<rparr>) = (live m)(k := None)"
  by (auto simp: live_def fun_eq_iff split: option.split)

text \<open>The store as a part of a larger state.\<close>

definition memCache :: "('s \<Rightarrow> 'v memstore) \<Rightarrow> ('v memstore \<Rightarrow> 's \<Rightarrow> 's) \<Rightarrow> ('s, 'v) LibCache" where
  "memCache getp putp = \<lparr>lc_Get = (\<lambda>k. onPart getp putp (memGet k)),
     lc_Set = (\<lambda>k v t. onPart getp putp (memSet k v t)), lc_Delete = (\<lambda>k. onPart getp putp (memDelete k))\<rparr>"

lemma memCache_kv:
  assumes gp: "\<And>p s. getp (putp p s) = p" and rp: "\<And>p s. rest (putp p s) = rest s"
  shows "kv_cache (memCache getp putp) (live \<circ> getp) rest"
proof unfold_locales
  fix k v t s r' s' assume "lc_Set (memCache getp putp) k v t s = (r', s')"
  then consider "getp s' = getp s"
    | "getp s' = (getp s)\<lparr>ms_entries := put k (v, ms_now (getp s) + t) (ms_entries (getp s))\<rparr>"
    by (auto simp: memCache_def onPart_def memSet_def gp split: if_splits)
  then show "(live \<circ> getp) s' \<subseteq>\<^sub>m (live \<circ> getp) s \<or> (live \<circ> getp) s' \<subseteq>\<^sub>m ((live \<circ> getp) s)(k \<mapsto> v)"
    by cases (auto simp: map_le_def live_put dom_def split: if_splits)
qed (auto simp: memCache_def onPart_def memGet_def memSet_def memDelete_def gp rp keeps_def live_drop
       split: if_splits option.splits prod.splits)

end
