(* ===== verification/CachedRepo.thy ===== *)
theory CachedRepo
  imports Cache
begin

text \<open>
  The cache-aside decorator (\<open>internal/adapter/repo/cached/account.go\<close>).  It keeps the write
  half of the repository contract over every backend and every cache; its reads agree with
  the backend as long as the entries under id keys are coherent, and every operation keeps
  them coherent unless it logs a failed eviction.
\<close>

section \<open>The decorator\<close>

record 's cachedDeps =
  cd_inner :: "'s AccountRepository"
  cd_cache :: "('s, account ptr) CacheManager"
  cd_ttl :: duration
  cd_log :: "string \<Rightarrow> go_error \<Rightarrow> 's \<Rightarrow> 's"  \<comment> \<open>\<open>log.WarnContext\<close>, with key and error\<close>

definition cachedGetByID :: "'s cachedDeps \<Rightarrow> string \<Rightarrow> ('s, go_error, account ptr) op" where
  "cachedGetByID r i =
     cm_GetOnce (cd_cache r) (AccountCacheKeyByID i) (repo_GetByID (cd_inner r) i) (cd_ttl r)"

definition cachedGetByEmail :: "(string \<Rightarrow> string) \<Rightarrow> 's cachedDeps \<Rightarrow> string \<Rightarrow> ('s, go_error, account ptr) op" where
  "cachedGetByEmail uni r email =
     cm_GetOnce (cd_cache r) (AccountCacheKeyByEmail uni email) (repo_GetByEmail (cd_inner r) email) (cd_ttl r)"

definition cachedCreate :: "'s cachedDeps \<Rightarrow> account \<Rightarrow> ('s, go_error, string) op" where
  "cachedCreate r e = repo_Create (cd_inner r) e"

text \<open>A failed eviction is logged and otherwise ignored.\<close>

definition invalidate :: "'s cachedDeps \<Rightarrow> string \<Rightarrow> ('s, go_error, unit) op" where
  "invalidate r key = (\<lambda>s.
     case cm_Delete (cd_cache r) key s of
       (Inl err, s') \<Rightarrow> (Inr (), cd_log r key err s')
     | (Inr _, s') \<Rightarrow> (Inr (), s'))"

definition cachedUpdate :: "'s cachedDeps \<Rightarrow> UpdateAccountParams \<Rightarrow> ('s, go_error, unit) op" where
  "cachedUpdate r p =
     andThen (repo_Update (cd_inner r) p)
       (\<lambda>_. andThen (invalidate r (AccountCacheKeyByID (up_ID p))) (\<lambda>_. ret ()))"

definition cachedDelete :: "'s cachedDeps \<Rightarrow> string \<Rightarrow> ('s, go_error, unit) op" where
  "cachedDelete r i =
     andThen (repo_Delete (cd_inner r) i)
       (\<lambda>_. andThen (invalidate r (AccountCacheKeyByID i)) (\<lambda>_. ret ()))"

definition cachedList :: "'s cachedDeps \<Rightarrow> ListAccountFilter \<Rightarrow> ('s, go_error, account list \<times> goint) op" where
  "cachedList r f = repo_List (cd_inner r) f"

definition cachedRepository :: "(string \<Rightarrow> string) \<Rightarrow> 's cachedDeps \<Rightarrow> 's AccountRepository" where
  "cachedRepository uni r =
     \<lparr>repo_Create = cachedCreate r, repo_GetByID = cachedGetByID r, repo_GetByEmail = cachedGetByEmail uni r,
      repo_Update = cachedUpdate r, repo_Delete = cachedDelete r, repo_List = cachedList r\<rparr>"

lemma cachedRepository_simps [simp]:
  "repo_Create (cachedRepository uni r) = cachedCreate r"
  "repo_GetByID (cachedRepository uni r) = cachedGetByID r"
  "repo_GetByEmail (cachedRepository uni r) = cachedGetByEmail uni r"
  "repo_Update (cachedRepository uni r) = cachedUpdate r"
  "repo_Delete (cachedRepository uni r) = cachedDelete r"
  "repo_List (cachedRepository uni r) = cachedList r"
  by (simp_all add: cachedRepository_def)

section \<open>The write contract survives the decorator\<close>

locale cached_backend = account_writes inner view enc encp + kv_cache lc entries view
  for inner :: "'s AccountRepository" and view enc encp
    and lc :: "('s, account ptr) LibCache" and entries +
  fixes uni :: "string \<Rightarrow> string" and d :: "'s cachedDeps"
  assumes inner_is: "cd_inner d = inner" and cache_is: "cd_cache d = cacheManager lc"
    and inner_entries: "keeps entries (repo_Create inner a)" "keeps entries (repo_GetByID inner i)"
      "keeps entries (repo_GetByEmail inner m)" "keeps entries (repo_Update inner p)"
      "keeps entries (repo_Delete inner i)" "keeps entries (repo_List inner f)"
    and log_keeps: "entries (cd_log d k e s) = entries s" "view (cd_log d k e s) = view s"
begin

lemma invalidate_spec:
  assumes "invalidate d key s = (r, s')"
  shows "r = Inr () \<and> view s' = view s \<and> entries s' \<subseteq>\<^sub>m entries s
    \<and> (entries s' \<subseteq>\<^sub>m (entries s)(key := None) \<or> (\<exists>e s1. lc_Delete lc key s = (Inl e, s1) \<and> s' = cd_log d key e s1))"
proof (cases "lc_Delete lc key s")
  case (Pair x s1)
  have v: "view s1 = view s" using rest_keeps(3) Pair by (rule keepsD)
  show ?thesis
  proof (cases x)
    case (Inl e)
    with Pair assms have "r = Inr ()" "s' = cd_log d key e s1" by (auto simp: invalidate_def cache_is)
    with v evict_err [of key s e s1] Pair Inl show ?thesis by (auto simp: log_keeps)
  next
    case (Inr u)
    with Pair assms have "r = Inr ()" "s' = s1" by (auto simp: invalidate_def cache_is)
    moreover have "entries s1 \<subseteq>\<^sub>m (entries s)(key := None)"
      using Pair Inr by (auto intro: evict_ok)
    moreover from this have "entries s1 \<subseteq>\<^sub>m entries s" by (rule map_le_deleteD)
    ultimately show ?thesis using v by blast
  qed
qed

lemma cachedUpdate_ok:
  assumes "cachedUpdate d p s = (Inr u, s')"
  obtains s1 where "repo_Update inner p s = (Inr (), s1)"
    "invalidate d (AccountCacheKeyByID (up_ID p)) s1 = (Inr (), s')"
  using assms by (auto simp: cachedUpdate_def inner_is elim!: andThen_InrE)

lemma cachedUpdate_err: "cachedUpdate d p s = (Inl e, s') \<Longrightarrow> repo_Update inner p s = (Inl e, s')"
  by (auto simp: cachedUpdate_def inner_is elim!: andThen_InlE dest: invalidate_spec)

lemma cachedDelete_ok:
  assumes "cachedDelete d i s = (Inr u, s')"
  obtains s1 where "repo_Delete inner i s = (Inr (), s1)"
    "invalidate d (AccountCacheKeyByID i) s1 = (Inr (), s')"
  using assms by (auto simp: cachedDelete_def inner_is elim!: andThen_InrE)

lemma cachedDelete_err: "cachedDelete d i s = (Inl e, s') \<Longrightarrow> repo_Delete inner i s = (Inl e, s')"
  by (auto simp: cachedDelete_def inner_is elim!: andThen_InlE dest: invalidate_spec)

lemma cachedGet_keeps: "keeps view (cachedGetByID d i)" "keeps view (cachedGetByEmail uni d m)"
  unfolding cachedGetByID_def cachedGetByEmail_def cache_is inner_is cacheManager_simps
  using GetOnce_keeps [of id] reads_keep by (simp_all add: keeps_def)

lemma cached_writes: "account_writes (cachedRepository uni d) view enc encp"
proof unfold_locales
  fix p s u s' assume "repo_Update (cachedRepository uni d) p s = (Inr u, s')"
  then have "cachedUpdate d p s = (Inr u, s')" by simp
  then obtain s1 where u: "repo_Update inner p s = (Inr (), s1)" and i: "view s' = view s1"
    by (rule cachedUpdate_ok) (auto dest: invalidate_spec)
  from update_ok [OF u] i
  show "\<exists>a. view s (up_ID p) = Some a \<and> view s' = (view s)(up_ID p \<mapsto> patch (encp p) a)" by simp
next
  fix i s u s' assume "repo_Delete (cachedRepository uni d) i s = (Inr u, s')"
  then have "cachedDelete d i s = (Inr u, s')" by simp
  then obtain s1 where u: "repo_Delete inner i s = (Inr (), s1)" and i: "view s' = view s1"
    by (rule cachedDelete_ok) (auto dest: invalidate_spec)
  from delete_ok [OF u] i
  show "view s i \<noteq> None \<and> view s' = (view s)(i := None)" by simp
next
  show "keeps view (repo_List (cachedRepository uni d) f)" for f
    using reads_keep(3) by (simp add: cachedList_def inner_is)
qed (use enc_keys encp_id update_err update_missing cachedGet_keeps delete_err delete_missing
     in \<open>auto simp: cachedCreate_def inner_is dest: cachedUpdate_err cachedDelete_err create_err create_dup dest!: create_ok\<close>)

end

sublocale cached_backend \<subseteq> cached: account_writes "cachedRepository uni d" view enc encp
  by (rule cached_writes)

section \<open>Coherence of the entries under id keys\<close>

definition idCoherent :: "(string \<rightharpoonup> account ptr) \<Rightarrow> accounts \<Rightarrow> bool" where
  "idCoherent c v \<longleftrightarrow> (\<forall>i p. c (AccountCacheKeyByID i) = Some p \<longrightarrow> p \<noteq> None \<and> v i = p)"

lemma idCoherentD: "idCoherent c v \<Longrightarrow> c (AccountCacheKeyByID i) = Some p \<Longrightarrow> \<exists>a. p = Some a \<and> v i = Some a"
  by (auto simp: idCoherent_def)

lemma idCoherent_mono: "idCoherent c v \<Longrightarrow> c' \<subseteq>\<^sub>m c \<Longrightarrow> idCoherent c' v"
  unfolding idCoherent_def by (metis domI map_le_def)

locale coherent_backend = cached_backend inner view enc encp lc entries uni d +
    account_repository inner view enc encp
  for inner :: "'s AccountRepository" and view enc encp
    and lc :: "('s, account ptr) LibCache" and entries uni d
begin

abbreviation coherent :: "'s \<Rightarrow> bool" where
  "coherent s \<equiv> idCoherent (entries s) (view s)"

text \<open>The two ways a read-through by id or email can end that store a value.\<close>

lemma stored_coherent:
  assumes "coherent s" "entries s1 \<subseteq>\<^sub>m entries s" "entries s2 = entries s1" "view s' = view s"
    and new: "\<And>j u. entries s' j = Some u \<Longrightarrow> entries s2 j = Some u \<or> (j = key \<and> u = w)"
    and ok: "\<And>i. key = AccountCacheKeyByID i \<Longrightarrow> w \<noteq> None \<and> view s i = w"
  shows "coherent s'"
  unfolding idCoherent_def assms(4)
proof (intro allI impI)
  fix i p assume "entries s' (AccountCacheKeyByID i) = Some p"
  from new [OF this] show "p \<noteq> None \<and> view s i = p"
    using assms(1-3) ok by (auto dest!: map_le_SomeD idCoherentD)
qed

lemma readThrough_coherent:
  assumes go: "GetOnce lc key loader ttl s = (r, s')" and coh: "coherent s"
    and loader: "keeps view loader" "keeps entries loader"
    and ok: "\<And>i s1 w s2. key = AccountCacheKeyByID i \<Longrightarrow> loader s1 = (Inr w, s2) \<Longrightarrow>
               w \<noteq> None \<and> view s1 i = w"
  shows "coherent s' \<and> view s' = view s"
proof (cases r)
  case (Inl e)
  from go [unfolded Inl] show ?thesis
  proof (cases rule: GetOnce_err)
    case (loader s1)
    with assms(3,4) have "entries s' = entries s1" "view s' = view s" by (auto dest: keepsD)
    with loader(1) coh show ?thesis by (auto intro: idCoherent_mono)
  next
    case (store s1 s2 w)
    with assms(3,4) have *: "entries s2 = entries s1" "view s' = view s" by (auto dest: keepsD)
    show ?thesis
      using stored_coherent [OF coh store(1) * store(5)] ok [OF _ store(3)] store(2) *(2) by auto
  qed
next
  case (Inr v)
  from go [unfolded Inr] show ?thesis
  proof (cases rule: GetOnce_ok)
    case hit
    with coh show ?thesis by (auto intro: idCoherent_mono)
  next
    case (load s1 s2)
    with assms(3,4) have *: "entries s2 = entries s1" "view s' = view s" by (auto dest: keepsD)
    show ?thesis
      using stored_coherent [OF coh load(1) * load(5)] ok [OF _ load(3)] load(2) *(2) by auto
  qed
qed

lemma cachedGetByID_coherent:
  assumes "cachedGetByID d i s = (r, s')" "coherent s"
  shows "coherent s'"
  using readThrough_coherent [OF assms(1) [unfolded cachedGetByID_def cache_is inner_is cacheManager_simps]
      assms(2) reads_keep(1) inner_entries(2)]
  by (auto dest: get_ok)

lemma cachedGetByEmail_coherent:
  assumes "cachedGetByEmail uni d m s = (r, s')" "coherent s"
  shows "coherent s'"
  using readThrough_coherent [OF assms(1) [unfolded cachedGetByEmail_def cache_is inner_is cacheManager_simps]
      assms(2) reads_keep(2) inner_entries(3)]
  by auto

text \<open>While the id entries are coherent, a read by id returns the durable account.\<close>

lemma cachedGetByID_fresh:
  assumes "cachedGetByID d i s = (Inr p, s')" "coherent s"
  shows "\<exists>a. p = Some a \<and> view s i = Some a"
  using assms(1) [unfolded cachedGetByID_def cache_is inner_is cacheManager_simps]
proof (cases rule: GetOnce_ok)
  case hit
  with assms(2) show ?thesis by (auto dest: idCoherentD)
next
  case (load s1 s2)
  with get_ok [OF load(3)] show ?thesis by simp
qed

lemma cachedCreate_coherent:
  assumes "cachedCreate d a s = (r, s')" "coherent s"
  shows "coherent s'"
proof -
  from assms(1) have c: "repo_Create inner a s = (r, s')" by (simp add: cachedCreate_def inner_is)
  then have e: "entries s' = entries s" using inner_entries(1) by (rule keepsD [rotated])
  show ?thesis
  proof (cases r)
    case (Inl err)
    with c e assms(2) show ?thesis by (simp add: create_err)
  next
    case (Inr i)
    with create_ok [of a s i s'] c have "view s (ID a) = None" "view s' = (view s)(ID a \<mapsto> enc a)" by auto
    moreover from this assms(2) have "entries s (AccountCacheKeyByID (ID a)) = None"
      by (cases "entries s (AccountCacheKeyByID (ID a))") (auto dest: idCoherentD)
    ultimately show ?thesis using e assms(2) by (auto simp: idCoherent_def)
  qed
qed

text \<open>After a successful write that changes at most one id, evicting that id's key restores coherence.\<close>

lemma evicted_coherent:
  assumes "coherent s" "entries s1 = entries s" "\<And>j. j \<noteq> i \<Longrightarrow> view s1 j = view s j"
    and inv: "invalidate d (AccountCacheKeyByID i) s1 = (r, s')"
  shows "coherent s' \<or> (\<exists>e s2. lc_Delete lc (AccountCacheKeyByID i) s1 = (Inl e, s2) \<and> s' = cd_log d (AccountCacheKeyByID i) e s2)"
proof -
  from invalidate_spec [OF inv] have v: "view s' = view s1"
    and c: "entries s' \<subseteq>\<^sub>m (entries s1)(AccountCacheKeyByID i := None)
      \<or> (\<exists>e s2. lc_Delete lc (AccountCacheKeyByID i) s1 = (Inl e, s2) \<and> s' = cd_log d (AccountCacheKeyByID i) e s2)" by auto
  moreover have "idCoherent ((entries s1)(AccountCacheKeyByID i := None)) (view s1)"
    using assms(1-3) by (auto simp: idCoherent_def)
  ultimately show ?thesis by (auto intro: idCoherent_mono)
qed

lemma cachedUpdate_coherent:
  assumes "cachedUpdate d p s = (r, s')" "coherent s"
  shows "coherent s' \<or> (\<exists>e s1 s2. repo_Update inner p s = (Inr (), s1)
    \<and> lc_Delete lc (AccountCacheKeyByID (up_ID p)) s1 = (Inl e, s2)
    \<and> s' = cd_log d (AccountCacheKeyByID (up_ID p)) e s2)"
proof (cases r)
  case (Inl e)
  with assms(1) have u: "repo_Update inner p s = (Inl e, s')" by (auto dest: cachedUpdate_err)
  with keepsD [OF inner_entries(4) u] assms(2) show ?thesis by (simp add: update_err)
next
  case (Inr u)
  from assms(1) [unfolded Inr] obtain s1 where u: "repo_Update inner p s = (Inr (), s1)"
    and i: "invalidate d (AccountCacheKeyByID (up_ID p)) s1 = (Inr (), s')"
    by (rule cachedUpdate_ok)
  show ?thesis using u
    evicted_coherent [OF assms(2) keepsD [OF inner_entries(4) u] _ i] update_ok [OF u] by auto
qed

lemma cachedDelete_coherent:
  assumes "cachedDelete d i s = (r, s')" "coherent s"
  shows "coherent s' \<or> (\<exists>e s1 s2. repo_Delete inner i s = (Inr (), s1) \<and> lc_Delete lc (AccountCacheKeyByID i) s1 = (Inl e, s2) \<and> s' = cd_log d (AccountCacheKeyByID i) e s2)"
proof (cases r)
  case (Inl e)
  with assms(1) have u: "repo_Delete inner i s = (Inl e, s')" by (auto dest: cachedDelete_err)
  with keepsD [OF inner_entries(5) u] assms(2) show ?thesis
    by (simp add: delete_err)
next
  case (Inr u)
  from assms(1) [unfolded Inr] obtain s1 where u: "repo_Delete inner i s = (Inr (), s1)"
    and i: "invalidate d (AccountCacheKeyByID i) s1 = (Inr (), s')"
    by (rule cachedDelete_ok)
  show ?thesis using u
    evicted_coherent [OF assms(2) keepsD [OF inner_entries(5) u] _ i] delete_ok [OF u] by auto
qed

end

end
