(* ===== verification/Rows.thy ===== *)
theory Rows
  imports Ports
begin

text \<open>
  Collections of persisted records as stores of accounts.  Both kinds of records, the rows of
  the \<open>accounts\<close> table and the documents of the \<open>accounts\<close> collection, have an id, an email and
  a reading as an entity; what inserting, patching and removing them does to the abstract
  store is proved once, in a locale that PgTable and MongoRepo interpret.
\<close>

definition rowsView :: "('r \<Rightarrow> string) \<Rightarrow> ('r \<Rightarrow> account) \<Rightarrow> 'r list \<Rightarrow> accounts" where
  "rowsView rid acc t = map_of (map (\<lambda>r. (rid r, acc r)) t)"

text \<open>The constraints: ids are distinct (primary key) and emails are (unique index).\<close>

definition rowsWf :: "('r \<Rightarrow> string) \<Rightarrow> ('r \<Rightarrow> string) \<Rightarrow> 'r list \<Rightarrow> bool" where
  "rowsWf rid rem t \<longleftrightarrow> distinct (map rid t) \<and> distinct (map rem t)"

definition rowsConflict :: "('r \<Rightarrow> string) \<Rightarrow> ('r \<Rightarrow> string) \<Rightarrow> 'r \<Rightarrow> 'r list \<Rightarrow> bool" where
  "rowsConflict rid rem r t = list_ex (\<lambda>r'. rid r' = rid r \<or> rem r' = rem r) t"

text \<open>A page of a result: an optional offset, then an optional limit.\<close>

definition page :: "goint option \<Rightarrow> goint option \<Rightarrow> 'a list \<Rightarrow> 'a list" where
  "page limit offset xs =
     (case limit of None \<Rightarrow> id | Some n \<Rightarrow> take (nat (sint n)))
       ((case offset of None \<Rightarrow> id | Some n \<Rightarrow> drop (nat (sint n))) xs)"

lemma page_subset: "set (page lim off xs) \<subseteq> set xs"
  by (auto simp: page_def split: option.splits dest!: in_set_takeD in_set_dropD)

lemma rowsWf_Nil [simp]: "rowsWf rid rem []"
  by (simp add: rowsWf_def)

lemma rowsWf_one [simp]: "rowsWf rid rem [r]"
  by (simp add: rowsWf_def)

lemma filter_key_distinct:
  "distinct (map f t) \<Longrightarrow> r \<in> set t \<Longrightarrow> filter (\<lambda>r'. f r' = f r) t = [r]"
proof (induction t)
  case (Cons x t)
  show ?case
  proof (cases "x = r")
    case True
    with Cons.prems have "filter (\<lambda>r'. f r' = f r) t = []" by (auto simp: filter_empty_conv image_iff)
    with True show ?thesis by simp
  next
    case False
    with Cons have "f x \<noteq> f r" by (auto simp: image_iff)
    with False Cons show ?thesis by simp
  qed
qed simp

locale account_rows =
  fixes rid :: "'r \<Rightarrow> string" and rem :: "'r \<Rightarrow> string" and acc :: "'r \<Rightarrow> account"
  assumes acc_ID [simp]: "ID (acc r) = rid r" and acc_Email [simp]: "Email (acc r) = rem r"
begin

lemma view_None: "rowsView rid acc t i = None \<longleftrightarrow> i \<notin> rid ` set t"
  by (force simp: rowsView_def map_of_eq_None_iff image_image)

text \<open>Distinct ids are enough to read the records off the store.\<close>

lemma view_Some_ids:
  assumes "distinct (map rid t)"
  shows "rowsView rid acc t i = Some a \<longleftrightarrow> (\<exists>r \<in> set t. rid r = i \<and> a = acc r)"
proof -
  have "distinct (map fst (map (\<lambda>r. (rid r, acc r)) t))"
    using assms by (simp add: comp_def)
  then show ?thesis by (auto simp: rowsView_def map_of_eq_Some_iff)
qed

lemma emailTaken_ids: "distinct (map rid t) \<Longrightarrow> emailTaken (rowsView rid acc t) m \<longleftrightarrow> m \<in> rem ` set t"
  unfolding emailTaken_def ran_def view_Some_ids image_iff by force

lemma wf_view_ids:
  assumes "distinct (map rid t)" "wf_accounts (rowsView rid acc t)"
  shows "distinct (map rem t)"
proof -
  have "distinct t" "inj_on rid (set t)" using assms(1) by (simp_all add: distinct_map)
  moreover have "inj_on rem (set t)"
  proof (rule inj_onI)
    fix x y assume xy: "x \<in> set t" "y \<in> set t" and e: "rem x = rem y"
    with view_Some_ids [OF assms(1)] have "rowsView rid acc t (rid x) = Some (acc x)" "rowsView rid acc t (rid y) = Some (acc y)"
      by blast+
    with assms(2) e have "rid x = rid y" unfolding wf_accounts_def by (metis acc_Email)
    with \<open>inj_on rid (set t)\<close> xy show "x = y" by (auto dest: inj_onD)
  qed
  ultimately show ?thesis by (simp add: distinct_map)
qed

lemma view_Some:
  "rowsWf rid rem t \<Longrightarrow> rowsView rid acc t i = Some a \<longleftrightarrow> (\<exists>r \<in> set t. rid r = i \<and> a = acc r)"
  by (simp add: rowsWf_def view_Some_ids)

lemma ran_view: "rowsWf rid rem t \<Longrightarrow> ran (rowsView rid acc t) = acc ` set t"
  by (auto simp: ran_def view_Some)

lemma emailTaken_view: "rowsWf rid rem t \<Longrightarrow> emailTaken (rowsView rid acc t) m \<longleftrightarrow> m \<in> rem ` set t"
  by (auto simp: emailTaken_def ran_view)

lemma view_wf: "rowsWf rid rem t \<Longrightarrow> wf_accounts (rowsView rid acc t)"
  by (auto simp: wf_accounts_def view_Some rowsWf_def distinct_map dest: inj_onD)

lemma conflict_iff: "rowsConflict rid rem r t \<longleftrightarrow> rid r \<in> rid ` set t \<or> rem r \<in> rem ` set t"
  unfolding rowsConflict_def list_ex_iff image_iff by metis

lemma wf_append: "rowsWf rid rem t \<Longrightarrow> \<not> rowsConflict rid rem r t \<Longrightarrow> rowsWf rid rem (t @ [r])"
  by (auto simp: rowsWf_def conflict_iff)

lemma view_append: "rid r \<notin> rid ` set t \<Longrightarrow> rowsView rid acc (t @ [r]) = (rowsView rid acc t)(rid r \<mapsto> acc r)"
proof -
  assume "rid r \<notin> rid ` set t"
  then have "rid r \<notin> dom (map_of (map (\<lambda>r. (rid r, acc r)) t))"
    by (auto simp: dom_map_of_conv_image_fst)
  then show ?thesis by (simp add: rowsView_def map_add_upd_left)
qed

lemma view_filter: "rowsView rid acc (filter (\<lambda>r. rid r \<noteq> i) t) = (rowsView rid acc t)(i := None)"
  by (induction t) (auto simp: rowsView_def fun_eq_iff)

lemma wf_filter: "rowsWf rid rem t \<Longrightarrow> rowsWf rid rem (filter P t)"
  by (simp add: rowsWf_def distinct_map_filter)

lemma view_find: "rowsView rid acc t i = Some a \<Longrightarrow> acc (the (find (\<lambda>r. rid r = i) t)) = a"
  by (induction t) (auto simp: rowsView_def split: if_splits)

lemma view_map:
  assumes "\<And>r. rid (f r) = rid r" "\<And>r. acc (f r) = upd (acc r)"
  shows "rowsView rid acc (map (\<lambda>r. if rid r = i then f r else r) t) =
    (case rowsView rid acc t i of None \<Rightarrow> rowsView rid acc t
       | Some a \<Rightarrow> (rowsView rid acc t)(i \<mapsto> upd a))"
  by (induction t) (auto simp: rowsView_def fun_eq_iff assms split: option.splits)

lemma wf_map:
  assumes "\<And>r. rid (f r) = rid r" "\<And>r. rem (f r) = rem r" "rowsWf rid rem t"
  shows "rowsWf rid rem (map (\<lambda>r. if P r then f r else r) t)"
proof -
  have "map rid (map (\<lambda>r. if P r then f r else r) t) = map rid t"
    "map rem (map (\<lambda>r. if P r then f r else r) t) = map rem t"
    using assms by auto
  with assms(3) show ?thesis unfolding rowsWf_def by metis
qed

lemma filter_rid: "rowsWf rid rem t \<Longrightarrow> r \<in> set t \<Longrightarrow> filter (\<lambda>r'. rid r' = rid r) t = [r]"
  and filter_rem: "rowsWf rid rem t \<Longrightarrow> r \<in> set t \<Longrightarrow> filter (\<lambda>r'. rem r' = rem r) t = [r]"
  by (auto simp: rowsWf_def intro: filter_key_distinct)

text \<open>The count of affected records, as the drivers return it, is 0 exactly for an absent id.\<close>

lemma count_rid:
  assumes "rowsWf rid rem t"
  shows "(word_of_nat (length (filter (\<lambda>r. rid r = i) t)) :: goint) = 0 \<longleftrightarrow> rowsView rid acc t i = None"
proof (cases "rowsView rid acc t i")
  case None
  then have "filter (\<lambda>r. rid r = i) t = []" by (auto simp: view_None filter_empty_conv)
  with None show ?thesis by simp
next
  case (Some a)
  then obtain r where "r \<in> set t" "rid r = i" using view_Some [OF assms] by blast
  with filter_rid [OF assms] have "filter (\<lambda>r. rid r = i) t = [r]" by blast
  with Some show ?thesis by simp
qed

end

end
