(* ===== verification/PgTable.thy ===== *)
theory PgTable
  imports Rows "HOL-Library.Multiset"
begin

text \<open>
  The PostgreSQL side of the repositories: the \<open>accounts\<close> table of the migration and the
  statements of \<open>internal/adapter/repo/sqlc/query/account.sql\<close> (repeated in the generated
  \<open>account.sql.go\<close>), each translated to a function on the table's rows.  The statements are
  run by a driver, which is an argument of the definitions that use it.
\<close>

section \<open>Rows and values\<close>

record pgrow =
  c_id :: string
  c_email :: string
  c_first_name :: string
  c_last_name :: string
  c_password_hash :: string
  c_status :: goint32  \<comment> \<open>INT\<close>
  c_created_at :: time
  c_updated_at :: time
  c_deleted_at :: "time option"  \<comment> \<open>nullable\<close>

text \<open>Parameters and column values on the wire.\<close>

datatype sqlval = SText string | SInt4 goint32 | SInt8 goint | STime time | SNull

definition rowVals :: "pgrow \<Rightarrow> sqlval list" where
  "rowVals r = [SText (c_id r), SText (c_email r), SText (c_first_name r), SText (c_last_name r),
     SText (c_password_hash r), SInt4 (c_status r), STime (c_created_at r), STime (c_updated_at r),
     (case c_deleted_at r of None \<Rightarrow> SNull | Some t \<Rightarrow> STime t)]"

text \<open>TIMESTAMPTZ keeps microseconds.\<close>

definition micros :: "time \<Rightarrow> time" where
  "micros t = t div 1000 * 1000"

lemma micros_idem [simp]: "micros (micros t) = micros t"
  by (simp add: micros_def)

section \<open>Statements\<close>

text \<open>The statement texts, by the name of their constant in \<open>account.sql.go\<close>.\<close>

datatype query = QcountAccounts | QcreateAccount | QdeleteAccount | QgetAccountByEmail
  | QgetAccountByID | QlistAccounts | QupdateAccount

text \<open>
  Parameters of a given type; a value of another type is a type error.  The nullable ones
  also accept NULL.
\<close>

definition textArg :: "sqlval \<Rightarrow> string option" where
  "textArg v = (case v of SText s \<Rightarrow> Some s | _ \<Rightarrow> None)"

definition intArg :: "sqlval \<Rightarrow> goint32 option" where
  "intArg v = (case v of SInt4 n \<Rightarrow> Some n | _ \<Rightarrow> None)"

definition timeArg :: "sqlval \<Rightarrow> time option" where
  "timeArg v = (case v of STime t \<Rightarrow> Some t | _ \<Rightarrow> None)"

definition nullable :: "(sqlval \<Rightarrow> 'a option) \<Rightarrow> sqlval \<Rightarrow> 'a option option" where
  "nullable f v = (if v = SNull then Some None else map_option Some (f v))"

definition coalesce :: "'a option \<Rightarrow> 'a \<Rightarrow> 'a" where
  "coalesce new old = (case new of None \<Rightarrow> old | Some v \<Rightarrow> v)"

text \<open>\<open>$1::int IS NULL OR status = $1::int\<close>\<close>

definition statusMatches :: "goint32 option \<Rightarrow> pgrow \<Rightarrow> bool" where
  "statusMatches st r = (case st of None \<Rightarrow> True | Some v \<Rightarrow> c_status r = v)"

definition uniqueViolation :: string where "uniqueViolation = ''23505''"
definition typeError :: string where "typeError = ''42804''"

text \<open>The constraints of the migration: primary key on id, unique email.\<close>

definition conflicts :: "pgrow \<Rightarrow> pgrow list \<Rightarrow> bool" where
  "conflicts r t = rowsConflict c_id c_email r t"

text \<open>
  Statements that write: an SQLSTATE, or the number of rows affected; and the table after.
\<close>

definition createRow :: "sqlval list \<Rightarrow> pgrow option" where
  "createRow args =
     (case args of
        [a1, a2, a3, a4, a5, a6, a7, a8] \<Rightarrow>
          Option.bind (textArg a1) (\<lambda>i. Option.bind (textArg a2) (\<lambda>email.
          Option.bind (textArg a3) (\<lambda>fn. Option.bind (textArg a4) (\<lambda>ln.
          Option.bind (textArg a5) (\<lambda>ph. Option.bind (intArg a6) (\<lambda>st.
          Option.bind (timeArg a7) (\<lambda>c. Option.bind (timeArg a8) (\<lambda>u.
            Some \<lparr>c_id = i, c_email = email, c_first_name = fn, c_last_name = ln,
                  c_password_hash = ph, c_status = st, c_created_at = micros c,
                  c_updated_at = micros u, c_deleted_at = None\<rparr>))))))))
      | _ \<Rightarrow> None)"

definition execCreate :: "sqlval list \<Rightarrow> pgrow list \<Rightarrow> (string + nat) \<times> pgrow list" where
  "execCreate args t =
     (case createRow args of
        None \<Rightarrow> (Inl typeError, t)
      | Some r \<Rightarrow> if conflicts r t then (Inl uniqueViolation, t) else (Inr 1, t @ [r]))"

text \<open>\<open>SET first_name = COALESCE($1, first_name), ..., updated_at = $4\<close>\<close>

definition setColumns ::
    "string option \<Rightarrow> string option \<Rightarrow> goint32 option \<Rightarrow> time \<Rightarrow> pgrow \<Rightarrow> pgrow" where
  "setColumns fn ln st u r = r\<lparr>c_first_name := coalesce fn (c_first_name r),
     c_last_name := coalesce ln (c_last_name r), c_status := coalesce st (c_status r),
     c_updated_at := micros u\<rparr>"

definition updateRows :: "string \<Rightarrow> (pgrow \<Rightarrow> pgrow) \<Rightarrow> pgrow list \<Rightarrow> (string + nat) \<times> pgrow list" where
  "updateRows i f t = (Inr (length (filter (\<lambda>r. c_id r = i) t)),
                       map (\<lambda>r. if c_id r = i then f r else r) t)"

definition execUpdate :: "sqlval list \<Rightarrow> pgrow list \<Rightarrow> (string + nat) \<times> pgrow list" where
  "execUpdate args t =
     (case args of
        [a1, a2, a3, a4, a5] \<Rightarrow>
          (case (nullable textArg a1, nullable textArg a2, nullable intArg a3, timeArg a4, textArg a5) of
             (Some fn, Some ln, Some st, Some u, Some i) \<Rightarrow> updateRows i (setColumns fn ln st u) t
           | _ \<Rightarrow> (Inl typeError, t))
      | _ \<Rightarrow> (Inl typeError, t))"

definition deleteRows :: "string \<Rightarrow> pgrow list \<Rightarrow> (string + nat) \<times> pgrow list" where
  "deleteRows i t = (Inr (length (filter (\<lambda>r. c_id r = i) t)), filter (\<lambda>r. c_id r \<noteq> i) t)"

definition execDelete :: "sqlval list \<Rightarrow> pgrow list \<Rightarrow> (string + nat) \<times> pgrow list" where
  "execDelete args t =
     (case args of
        [a1] \<Rightarrow> (case textArg a1 of Some i \<Rightarrow> deleteRows i t | None \<Rightarrow> (Inl typeError, t))
      | _ \<Rightarrow> (Inl typeError, t))"

definition sqlExec :: "query \<Rightarrow> sqlval list \<Rightarrow> pgrow list \<Rightarrow> (string + nat) \<times> pgrow list" where
  "sqlExec q args t =
     (case q of
        QcreateAccount \<Rightarrow> execCreate args t
      | QupdateAccount \<Rightarrow> execUpdate args t
      | QdeleteAccount \<Rightarrow> execDelete args t
      | _ \<Rightarrow> (Inl typeError, t))"

text \<open>
  Statements that read.  \<open>ORDER BY created_at DESC\<close> leaves the order of equal timestamps
  open: the statement is evaluated with an argument \<open>order\<close>, the order the rows came in, and all
  that is known of it is \<open>newestFirst\<close>.
\<close>

definition newestFirst :: "pgrow list \<Rightarrow> pgrow list \<Rightarrow> bool" where
  "newestFirst t u \<longleftrightarrow> mset u = mset t \<and> sorted_wrt (\<lambda>x y. c_created_at y \<le> c_created_at x) u"

definition byCreation :: "(pgrow list \<Rightarrow> pgrow list) \<Rightarrow> bool" where
  "byCreation order \<longleftrightarrow> (\<forall>t. newestFirst t (order t))"

definition queryWhere :: "(string \<Rightarrow> pgrow \<Rightarrow> bool) \<Rightarrow> sqlval list \<Rightarrow> pgrow list \<Rightarrow> string + sqlval list list" where
  "queryWhere P args t =
     (case args of
        [a1] \<Rightarrow> (case textArg a1 of Some v \<Rightarrow> Inr (map rowVals (filter (P v) t)) | None \<Rightarrow> Inl typeError)
      | _ \<Rightarrow> Inl typeError)"

text \<open>\<open>WHERE ... ORDER BY created_at DESC LIMIT $3 OFFSET $2\<close>\<close>

definition queryList :: "(pgrow list \<Rightarrow> pgrow list) \<Rightarrow> sqlval list \<Rightarrow> pgrow list \<Rightarrow> string + sqlval list list" where
  "queryList order args t =
     (case args of
        [a1, a2, a3] \<Rightarrow>
          (case (nullable intArg a1, intArg a2, intArg a3) of
             (Some st, Some off, Some lim) \<Rightarrow>
               if sint lim < 0 then Inl ''2201W''
               else if sint off < 0 then Inl ''2201X''
               else Inr (map rowVals
                      (take (nat (sint lim)) (drop (nat (sint off)) (order (filter (statusMatches st) t)))))
           | _ \<Rightarrow> Inl typeError)
      | _ \<Rightarrow> Inl typeError)"

definition queryCount :: "sqlval list \<Rightarrow> pgrow list \<Rightarrow> string + sqlval list list" where
  "queryCount args t =
     (case args of
        [a1] \<Rightarrow>
          (case nullable intArg a1 of
             Some st \<Rightarrow> Inr [[SInt8 (word_of_nat (length (filter (statusMatches st) t)))]]
           | None \<Rightarrow> Inl typeError)
      | _ \<Rightarrow> Inl typeError)"

definition sqlQuery :: "(pgrow list \<Rightarrow> pgrow list) \<Rightarrow> query \<Rightarrow> sqlval list \<Rightarrow> pgrow list \<Rightarrow> string + sqlval list list" where
  "sqlQuery order q args t =
     (case q of
        QgetAccountByID \<Rightarrow> queryWhere (\<lambda>v r. c_id r = v) args t
      | QgetAccountByEmail \<Rightarrow> queryWhere (\<lambda>v r. c_email r = v) args t
      | QlistAccounts \<Rightarrow> queryList order args t
      | QcountAccounts \<Rightarrow> queryCount args t
      | _ \<Rightarrow> Inl typeError)"

lemma arg_simps [simp]:
  "textArg (SText s) = Some s" "intArg (SInt4 n) = Some n" "timeArg (STime u) = Some u"
  "nullable f SNull = Some None"
  "nullable textArg (SText s) = Some (Some s)" "nullable intArg (SInt4 n) = Some (Some n)"
  by (simp_all add: textArg_def intArg_def timeArg_def nullable_def)

section \<open>The table as a store of accounts\<close>

definition rowAccount :: "pgrow \<Rightarrow> account" where
  "rowAccount r = \<lparr>ID = c_id r, Email = c_email r, FirstName = c_first_name r, LastName = c_last_name r,
     PasswordHash = c_password_hash r, Status = scast (c_status r), CreatedAt = c_created_at r,
     UpdatedAt = c_updated_at r, DeletedAt = c_deleted_at r\<rparr>"

abbreviation tableView :: "pgrow list \<Rightarrow> accounts" where
  "tableView \<equiv> rowsView c_id rowAccount"

text \<open>The constraints hold of a table.\<close>

abbreviation wf_table :: "pgrow list \<Rightarrow> bool" where
  "wf_table \<equiv> rowsWf c_id c_email"

lemma rowAccount_fields [simp]:
  "ID (rowAccount r) = c_id r" "Email (rowAccount r) = c_email r"
  "Status (rowAccount r) = scast (c_status r)"
  by (simp_all add: rowAccount_def)

interpretation pgt: account_rows c_id c_email rowAccount
  by unfold_locales simp_all

lemmas tableView_None = pgt.view_None
lemmas tableView_Some = pgt.view_Some
lemmas ran_tableView = pgt.ran_view
lemmas emailTaken_tableView = pgt.emailTaken_view
lemmas conflicts_iff = pgt.conflict_iff [folded conflicts_def]
lemmas wf_table_append = pgt.wf_append [folded conflicts_def]
lemmas tableView_append = pgt.view_append
lemmas tableView_filter = pgt.view_filter
lemmas wf_table_filter = pgt.wf_filter
lemmas tableView_map = pgt.view_map
lemmas wf_table_map = pgt.wf_map
lemmas count_id_wf = pgt.count_rid

lemma newestFirst_set: "newestFirst t u \<Longrightarrow> set u = set t"
  unfolding newestFirst_def by (metis mset_eq_setD)

text \<open>Every statement keeps the constraints.\<close>

lemma setColumns_keys [simp]:
  "c_id (setColumns fn ln st u r) = c_id r" "c_email (setColumns fn ln st u r) = c_email r"
  by (simp_all add: setColumns_def)

lemma sqlExec_wf: "wf_table t \<Longrightarrow> wf_table (snd (sqlExec q args t))"
  by (auto simp: sqlExec_def execCreate_def execUpdate_def execDelete_def updateRows_def deleteRows_def
        wf_table_append wf_table_filter wf_table_map split: query.split option.split list.split)

lemma sqlExec_error_keeps: "sqlExec q args t = (Inl c, t') \<Longrightarrow> t' = t"
  by (auto simp: sqlExec_def execCreate_def execUpdate_def execDelete_def updateRows_def deleteRows_def
        split: query.splits option.splits list.splits if_splits)

end
