(* ===== verification/SqlcRepo.thy ===== *)
theory SqlcRepo
  imports PgTable
begin

text \<open>
  The pgx + sqlc backend: the generated queries (\<open>internal/adapter/repo/sqlc/gen\<close>), the
  mappers and the repository of \<open>internal/adapter/repo/sqlc\<close>.  The driver behind the
  generated \<open>DBTX\<close> interface is a parameter; what the code relies on of it is the locale
  \<open>pg_driver\<close>: it runs the statement text on the table.
\<close>

section \<open>Generated code\<close>

record 'd DBTX =
  tx_Exec :: "query \<Rightarrow> sqlval list \<Rightarrow> ('d, go_error, goint) op"
  tx_Query :: "query \<Rightarrow> sqlval list \<Rightarrow> ('d, go_error, sqlval list list) op"
  tx_QueryRow :: "query \<Rightarrow> sqlval list \<Rightarrow> ('d, go_error, sqlval list) op"

definition ErrNoRows :: go_error where
  "ErrNoRows = ErrorString ''no rows in result set''"

text \<open>\<open>pgtype.Timestamptz\<close>; a zero \<open>time.Time\<close> is the first of January of year 1.\<close>

record Timestamptz =
  ts_Time :: time
  ts_Valid :: bool

definition zeroTime :: time where
  "zeroTime = - 62135596800 * 1000000000"

record genAccount =
  ga_ID :: string
  ga_Email :: string
  ga_FirstName :: string
  ga_LastName :: string
  ga_PasswordHash :: string
  ga_Status :: goint32
  ga_CreatedAt :: Timestamptz
  ga_UpdatedAt :: Timestamptz
  ga_DeletedAt :: Timestamptz

record CreateAccountParams =
  ca_ID :: string
  ca_Email :: string
  ca_FirstName :: string
  ca_LastName :: string
  ca_PasswordHash :: string
  ca_Status :: goint32
  ca_CreatedAt :: Timestamptz
  ca_UpdatedAt :: Timestamptz

record genUpdateParams =
  gu_FirstName :: "string ptr"
  gu_LastName :: "string ptr"
  gu_Status :: "goint32 ptr"
  gu_UpdatedAt :: Timestamptz
  gu_ID :: string

record ListAccountsParams =
  la_Status :: "goint32 ptr"
  la_RowOffset :: goint32
  la_RowLimit :: goint32

text \<open>Encoding of arguments and scanning of columns.\<close>

definition tsArg :: "Timestamptz \<Rightarrow> sqlval" where
  "tsArg t = (if ts_Valid t then STime (ts_Time t) else SNull)"

definition textPtrArg :: "string ptr \<Rightarrow> sqlval" where
  "textPtrArg p = (case p of None \<Rightarrow> SNull | Some v \<Rightarrow> SText v)"

definition intPtrArg :: "goint32 ptr \<Rightarrow> sqlval" where
  "intPtrArg p = (case p of None \<Rightarrow> SNull | Some v \<Rightarrow> SInt4 v)"

definition scanTs :: "sqlval \<Rightarrow> Timestamptz option" where
  "scanTs v = (case v of STime t \<Rightarrow> Some \<lparr>ts_Time = t, ts_Valid = True\<rparr>
                       | SNull \<Rightarrow> Some \<lparr>ts_Time = zeroTime, ts_Valid = False\<rparr>
                       | _ \<Rightarrow> None)"

definition scanError :: go_error where
  "scanError = DriverErr ''can't scan into dest''"

definition scanAccount :: "sqlval list \<Rightarrow> go_error + genAccount" where
  "scanAccount vals =
     (case vals of
        [v1, v2, v3, v4, v5, v6, v7, v8, v9] \<Rightarrow>
          (case Option.bind (textArg v1) (\<lambda>i. Option.bind (textArg v2) (\<lambda>email.
                Option.bind (textArg v3) (\<lambda>fn. Option.bind (textArg v4) (\<lambda>ln.
                Option.bind (textArg v5) (\<lambda>ph. Option.bind (intArg v6) (\<lambda>st.
                Option.bind (scanTs v7) (\<lambda>c. Option.bind (scanTs v8) (\<lambda>u.
                Option.bind (scanTs v9) (\<lambda>d.
                  Some \<lparr>ga_ID = i, ga_Email = email, ga_FirstName = fn, ga_LastName = ln,
                        ga_PasswordHash = ph, ga_Status = st, ga_CreatedAt = c, ga_UpdatedAt = u,
                        ga_DeletedAt = d\<rparr>)))))))))
           of None \<Rightarrow> Inl scanError | Some a \<Rightarrow> Inr a)
      | _ \<Rightarrow> Inl scanError)"

text \<open>\<open>for rows.Next() { var i Account; rows.Scan(...); items = append(items, i) }\<close>\<close>

fun scanAll :: "sqlval list list \<Rightarrow> genAccount list \<Rightarrow> go_error + genAccount list" where
  "scanAll [] items = Inr items"
| "scanAll (row # rows) items =
     (case scanAccount row of Inl e \<Rightarrow> Inl e | Inr i \<Rightarrow> scanAll rows (items @ [i]))"

definition scanCount :: "sqlval list \<Rightarrow> go_error + goint" where
  "scanCount vals = (case vals of [v] \<Rightarrow> (case v of SInt8 n \<Rightarrow> Inr n | _ \<Rightarrow> Inl scanError) | _ \<Rightarrow> Inl scanError)"

definition genCountAccounts :: "'d DBTX \<Rightarrow> goint32 ptr \<Rightarrow> ('d, go_error, goint) op" where
  "genCountAccounts d status =
     andThen (tx_QueryRow d QcountAccounts [intPtrArg status]) (\<lambda>row. liftR (scanCount row))"

definition genCreateAccount :: "'d DBTX \<Rightarrow> CreateAccountParams \<Rightarrow> ('d, go_error, unit) op" where
  "genCreateAccount d arg =
     andThen (tx_Exec d QcreateAccount
       [SText (ca_ID arg), SText (ca_Email arg), SText (ca_FirstName arg), SText (ca_LastName arg),
        SText (ca_PasswordHash arg), SInt4 (ca_Status arg), tsArg (ca_CreatedAt arg),
        tsArg (ca_UpdatedAt arg)])
     (\<lambda>_. ret ())"

definition genDeleteAccount :: "'d DBTX \<Rightarrow> string \<Rightarrow> ('d, go_error, goint) op" where
  "genDeleteAccount d i = tx_Exec d QdeleteAccount [SText i]"

definition genGetAccountByEmail :: "'d DBTX \<Rightarrow> string \<Rightarrow> ('d, go_error, genAccount) op" where
  "genGetAccountByEmail d email =
     andThen (tx_QueryRow d QgetAccountByEmail [SText email]) (\<lambda>row. liftR (scanAccount row))"

definition genGetAccountByID :: "'d DBTX \<Rightarrow> string \<Rightarrow> ('d, go_error, genAccount) op" where
  "genGetAccountByID d i =
     andThen (tx_QueryRow d QgetAccountByID [SText i]) (\<lambda>row. liftR (scanAccount row))"

definition genListAccounts :: "'d DBTX \<Rightarrow> ListAccountsParams \<Rightarrow> ('d, go_error, genAccount list) op" where
  "genListAccounts d arg =
     andThen (tx_Query d QlistAccounts
       [intPtrArg (la_Status arg), SInt4 (la_RowOffset arg), SInt4 (la_RowLimit arg)])
     (\<lambda>rows. liftR (scanAll rows []))"

definition genUpdateAccount :: "'d DBTX \<Rightarrow> genUpdateParams \<Rightarrow> ('d, go_error, goint) op" where
  "genUpdateAccount d arg =
     tx_Exec d QupdateAccount
       [textPtrArg (gu_FirstName arg), textPtrArg (gu_LastName arg), intPtrArg (gu_Status arg),
        tsArg (gu_UpdatedAt arg), SText (gu_ID arg)]"

section \<open>Mappers\<close>

definition sqlcToDomain :: "genAccount \<Rightarrow> account" where
  "sqlcToDomain row =
     \<lparr>ID = ga_ID row, Email = ga_Email row, FirstName = ga_FirstName row, LastName = ga_LastName row,
      PasswordHash = ga_PasswordHash row, Status = scast (ga_Status row),
      CreatedAt = ts_Time (ga_CreatedAt row), UpdatedAt = ts_Time (ga_UpdatedAt row),
      DeletedAt = (if ts_Valid (ga_DeletedAt row) then Some (ts_Time (ga_DeletedAt row)) else None)\<rparr>"

definition toCreateParams :: "account \<Rightarrow> CreateAccountParams" where
  "toCreateParams e =
     \<lparr>ca_ID = ID e, ca_Email = Email e, ca_FirstName = FirstName e, ca_LastName = LastName e,
      ca_PasswordHash = PasswordHash e, ca_Status = scast (Status e),
      ca_CreatedAt = \<lparr>ts_Time = CreatedAt e, ts_Valid = True\<rparr>,
      ca_UpdatedAt = \<lparr>ts_Time = UpdatedAt e, ts_Valid = True\<rparr>\<rparr>"

definition toUpdateParams :: "UpdateAccountParams \<Rightarrow> genUpdateParams" where
  "toUpdateParams p =
     \<lparr>gu_FirstName = up_FirstName p, gu_LastName = up_LastName p,
      gu_Status = (case up_Status p of None \<Rightarrow> None | Some st \<Rightarrow> Some (scast st)),
      gu_UpdatedAt = \<lparr>ts_Time = up_UpdatedAt p, ts_Valid = True\<rparr>, gu_ID = up_ID p\<rparr>"

definition statusFilter :: "AccountStatus ptr \<Rightarrow> goint32 ptr" where
  "statusFilter s = (case s of None \<Rightarrow> None | Some v \<Rightarrow> Some (scast v))"

section \<open>Repository\<close>

definition uniqueViolationCode :: string where
  "uniqueViolationCode = ''23505''"

definition mapReadErr :: "go_error \<Rightarrow> go_error" where
  "mapReadErr err =
     (if errorsIs err ErrNoRows then App (Cause ErrAccountNotFound err) else App (Cause ErrInternal err))"

definition mapWriteErr :: "go_error \<Rightarrow> go_error" where
  "mapWriteErr err =
     (case asPg err of
        Some code \<Rightarrow> if code = uniqueViolationCode then App (Cause ErrAccountAlreadyExists err)
                     else App (Cause ErrInternal err)
      | None \<Rightarrow> App (Cause ErrInternal err))"

definition sqlcCreate :: "'d DBTX \<Rightarrow> account \<Rightarrow> ('d, go_error, string) op" where
  "sqlcCreate d e =
     andThen (mapErr mapWriteErr (genCreateAccount d (toCreateParams e))) (\<lambda>_. ret (ID e))"

definition sqlcGetByID :: "'d DBTX \<Rightarrow> string \<Rightarrow> ('d, go_error, account ptr) op" where
  "sqlcGetByID d i =
     andThen (mapErr mapReadErr (genGetAccountByID d i)) (\<lambda>row. ret (Some (sqlcToDomain row)))"

definition sqlcGetByEmail :: "'d DBTX \<Rightarrow> string \<Rightarrow> ('d, go_error, account ptr) op" where
  "sqlcGetByEmail d email =
     andThen (mapErr mapReadErr (genGetAccountByEmail d email)) (\<lambda>row. ret (Some (sqlcToDomain row)))"

definition sqlcUpdate :: "'d DBTX \<Rightarrow> UpdateAccountParams \<Rightarrow> ('d, go_error, unit) op" where
  "sqlcUpdate d p =
     andThen (mapErr mapWriteErr (genUpdateAccount d (toUpdateParams p)))
       (\<lambda>rows. if rows = 0 then throw (App ErrAccountNotFound) else ret ())"

definition sqlcDelete :: "'d DBTX \<Rightarrow> string \<Rightarrow> ('d, go_error, unit) op" where
  "sqlcDelete d i =
     andThen (mapErr (\<lambda>err. App (Cause ErrInternal (Wrapf ''delete account: %w'' [] err)))
                (genDeleteAccount d i))
       (\<lambda>rows. if rows = 0 then throw (App ErrAccountNotFound) else ret ())"

definition sqlcList :: "'d DBTX \<Rightarrow> ListAccountFilter \<Rightarrow> ('d, go_error, account list \<times> goint) op" where
  "sqlcList d f =
     (let status = statusFilter (lf_Status f) in
      andThen (mapErr (\<lambda>err. App (Cause ErrInternal (Wrapf ''list accounts: %w'' [] err)))
                 (genListAccounts d \<lparr>la_Status = status, la_RowOffset = scast (lf_Offset f),
                                     la_RowLimit = scast (lf_Limit f)\<rparr>))
        (\<lambda>rows. andThen (mapErr (\<lambda>err. App (Cause ErrInternal (Wrapf ''count accounts: %w'' [] err)))
                           (genCountAccounts d status))
          (\<lambda>total. ret (append_all sqlcToDomain rows, total))))"

definition sqlcRepository :: "'d DBTX \<Rightarrow> 'd AccountRepository" where
  "sqlcRepository d =
     \<lparr>repo_Create = sqlcCreate d, repo_GetByID = sqlcGetByID d, repo_GetByEmail = sqlcGetByEmail d,
      repo_Update = sqlcUpdate d, repo_Delete = sqlcDelete d, repo_List = sqlcList d\<rparr>"


section \<open>What the code relies on of the driver\<close>

text \<open>
  The database enforces the table's constraints; a statement that the driver reports as done
  had its SQL effect, and one that failed had none; the driver's errors are not AppErrors,
  \<open>ErrNoRows\<close> is only reported for an empty result, and SQLSTATE 23505 only for a violated
  constraint.
\<close>

locale pg_driver =
  fixes d :: "'d DBTX" and tbl :: "'d \<Rightarrow> pgrow list"
  assumes constraints: "wf_table (tbl s)"
    and exec_ok: "tx_Exec d q args s = (Inr n, s') \<Longrightarrow>
        \<exists>k. sqlExec q args (tbl s) = (Inr k, tbl s') \<and> n = word_of_nat k"
    and exec_err: "tx_Exec d q args s = (Inl e, s') \<Longrightarrow>
        tbl s' = tbl s \<and> noApp e
        \<and> (asPg e = Some uniqueViolation \<longrightarrow> fst (sqlExec q args (tbl s)) = Inl uniqueViolation)"
    and query_ok: "tx_Query d q args s = (Inr rs, s') \<Longrightarrow> 
        tbl s' = tbl s \<and> (\<exists>order. byCreation order \<and> sqlQuery order q args (tbl s) = Inr rs)"
    and query_err: "tx_Query d q args s = (Inl e, s') \<Longrightarrow> tbl s' = tbl s \<and> noApp e"
    and row_ok: "tx_QueryRow d q args s = (Inr row, s') \<Longrightarrow>
        tbl s' = tbl s \<and> (\<exists>order rest. byCreation order \<and> sqlQuery order q args (tbl s) = Inr (row # rest))"
    and row_err: "tx_QueryRow d q args s = (Inl e, s') \<Longrightarrow>
        tbl s' = tbl s \<and> noApp e \<and> (errorsIs e ErrNoRows \<longrightarrow> (\<exists>order. byCreation order \<and> sqlQuery order q args (tbl s) = Inr []))"

text \<open>What the backend stores of an entity and of a patch.\<close>

definition sqlcEnc :: "account \<Rightarrow> account" where
  "sqlcEnc a = a\<lparr>Status := scast (scast (Status a) :: goint32), CreatedAt := micros (CreatedAt a),
                 UpdatedAt := micros (UpdatedAt a), DeletedAt := None\<rparr>"

definition sqlcEncp :: "UpdateAccountParams \<Rightarrow> UpdateAccountParams" where
  "sqlcEncp p = p\<lparr>up_Status := map_option (\<lambda>st. scast (scast st :: goint32)) (up_Status p),
                  up_UpdatedAt := micros (up_UpdatedAt p)\<rparr>"

section \<open>Lemmas\<close>

lemma scast_up_down [simp]: "(scast (scast (x :: goint32) :: goint) :: goint32) = x"
  by (simp add: scast_down_scast_id is_down)

text \<open>Scanning a row of the table and mapping it to the entity is the table's abstraction.\<close>

lemma scanAccount_rowVals: "scanAccount (rowVals r) = Inr
   \<lparr>ga_ID = c_id r, ga_Email = c_email r, ga_FirstName = c_first_name r, ga_LastName = c_last_name r,
    ga_PasswordHash = c_password_hash r, ga_Status = c_status r,
    ga_CreatedAt = \<lparr>ts_Time = c_created_at r, ts_Valid = True\<rparr>,
    ga_UpdatedAt = \<lparr>ts_Time = c_updated_at r, ts_Valid = True\<rparr>,
    ga_DeletedAt = (case c_deleted_at r of None \<Rightarrow> \<lparr>ts_Time = zeroTime, ts_Valid = False\<rparr>
                                        | Some t \<Rightarrow> \<lparr>ts_Time = t, ts_Valid = True\<rparr>)\<rparr>"
  by (simp add: scanAccount_def rowVals_def scanTs_def split: option.split)

lemma toDomain_scan: "scanAccount (rowVals r) = Inr g \<Longrightarrow> sqlcToDomain g = rowAccount r"
  by (auto simp: scanAccount_rowVals sqlcToDomain_def rowAccount_def split: option.splits)

lemma scanAll_append: "scanAll (map rowVals rs) items = Inr gs \<Longrightarrow>
   map sqlcToDomain gs = map sqlcToDomain items @ map rowAccount rs"
proof (induction rs arbitrary: items)
  case (Cons r rs)
  then obtain g where "scanAccount (rowVals r) = Inr g" and "scanAll (map rowVals rs) (items @ [g]) = Inr gs"
    by (auto split: sum.splits)
  then show ?case using Cons.IH toDomain_scan by fastforce
qed simp

lemma mapReadErr_notfound: "noApp e \<Longrightarrow>
   errorsIs (mapReadErr e) (App ErrAccountNotFound) \<longleftrightarrow> errorsIs e ErrNoRows"
  by (auto simp: mapReadErr_def)

lemma mapWriteErr_exists: "noApp e \<Longrightarrow>
   errorsIs (mapWriteErr e) (App ErrAccountAlreadyExists) \<longleftrightarrow> asPg e = Some uniqueViolationCode"
  by (auto simp: mapWriteErr_def split: option.splits)

lemma createRow_toCreateParams:
  "createRow [SText (ca_ID arg), SText (ca_Email arg), SText (ca_FirstName arg), SText (ca_LastName arg),
     SText (ca_PasswordHash arg), SInt4 (ca_Status arg), tsArg (ca_CreatedAt arg), tsArg (ca_UpdatedAt arg)]
   = Some \<lparr>c_id = ID a, c_email = Email a, c_first_name = FirstName a, c_last_name = LastName a,
       c_password_hash = PasswordHash a, c_status = scast (Status a), c_created_at = micros (CreatedAt a),
       c_updated_at = micros (UpdatedAt a), c_deleted_at = None\<rparr>"
  if "arg = toCreateParams a"
  using that by (simp add: createRow_def toCreateParams_def tsArg_def)

lemma rowAccount_created:
  "rowAccount \<lparr>c_id = ID a, c_email = Email a, c_first_name = FirstName a, c_last_name = LastName a,
       c_password_hash = PasswordHash a, c_status = scast (Status a), c_created_at = micros (CreatedAt a),
       c_updated_at = micros (UpdatedAt a), c_deleted_at = None\<rparr> = sqlcEnc a"
  by (simp add: rowAccount_def sqlcEnc_def)

definition patchRow :: "UpdateAccountParams \<Rightarrow> pgrow \<Rightarrow> pgrow" where
  "patchRow p = setColumns (up_FirstName p) (up_LastName p) (map_option scast (up_Status p)) (up_UpdatedAt p)"

lemma execUpdate_toUpdateParams:
  "execUpdate [textPtrArg (gu_FirstName arg), textPtrArg (gu_LastName arg), intPtrArg (gu_Status arg),
     tsArg (gu_UpdatedAt arg), SText (gu_ID arg)] t = updateRows (up_ID p) (patchRow p) t"
  if "arg = toUpdateParams p"
proof -
  have "nullable textArg (textPtrArg q) = Some q" "nullable intArg (intPtrArg n) = Some n" for q n
    by (simp_all add: textPtrArg_def intPtrArg_def split: option.split)
  with that show ?thesis
    by (simp add: execUpdate_def toUpdateParams_def tsArg_def patchRow_def split: option.split)
qed

lemma rowAccount_patchRow: "rowAccount (patchRow p r) = patch (sqlcEncp p) (rowAccount r)"
  by (simp add: patchRow_def setColumns_def rowAccount_def patch_def sqlcEncp_def coalesce_def
        split: option.split)

lemma patchRow_id [simp]: "c_id (patchRow p r) = c_id r"
  by (simp add: patchRow_def)

lemma tableView_updateRows:
  "tableView (snd (updateRows i (patchRow p) t)) =
     (case tableView t i of None \<Rightarrow> tableView t | Some a \<Rightarrow> (tableView t)(i \<mapsto> patch (sqlcEncp p) a))"
  unfolding updateRows_def snd_conv
  by (rule tableView_map) (simp_all add: rowAccount_patchRow)

end
