(* ===== verification/SqlcContract.thy ===== *)
theory SqlcContract
  imports SqlcRepo
begin

text \<open>
  The pgx + sqlc repository implements the repository contract of theory Ports over any
  driver that satisfies \<open>pg_driver\<close>; the exact result of List; and a concrete driver over
  an in-memory table, on which the locales are interpreted.
\<close>

section \<open>The contract\<close>

context pg_driver
begin

lemma sqlcCreate_ok:
  assumes "sqlcCreate d a s = (Inr i, s')"
  shows "i = ID a \<and> tableView (tbl s) (ID a) = None \<and> \<not> emailTaken (tableView (tbl s)) (Email a)
    \<and> tableView (tbl s') = (tableView (tbl s))(ID a \<mapsto> sqlcEnc a)"
proof -
  obtain n where i: "i = ID a" and ex: "tx_Exec d QcreateAccount
       [SText (ca_ID (toCreateParams a)), SText (ca_Email (toCreateParams a)),
        SText (ca_FirstName (toCreateParams a)), SText (ca_LastName (toCreateParams a)),
        SText (ca_PasswordHash (toCreateParams a)), SInt4 (ca_Status (toCreateParams a)),
        tsArg (ca_CreatedAt (toCreateParams a)), tsArg (ca_UpdatedAt (toCreateParams a))] s = (Inr n, s')"
    using assms by (auto simp: sqlcCreate_def genCreateAccount_def elim!: andThen_InrE mapErr_InrE)
  let ?r = "\<lparr>c_id = ID a, c_email = Email a, c_first_name = FirstName a, c_last_name = LastName a,
       c_password_hash = PasswordHash a, c_status = scast (Status a) :: goint32,
       c_created_at = micros (CreatedAt a), c_updated_at = micros (UpdatedAt a), c_deleted_at = None\<rparr>"
  from exec_ok [OF ex] have nc: "\<not> conflicts ?r (tbl s)" and t: "tbl s' = tbl s @ [?r]"
    by (auto simp: sqlExec_def execCreate_def createRow_toCreateParams [OF refl] split: if_splits)
  with i show ?thesis
    using constraints [of s] tableView_append [of ?r "tbl s"]
    by (simp add: rowAccount_created conflicts_iff tableView_None emailTaken_tableView)
qed

lemma sqlcCreate_err:
  assumes "sqlcCreate d a s = (Inl e, s')"
  shows "tbl s' = tbl s \<and> (errorsIs e (App ErrAccountAlreadyExists) \<longrightarrow>
    tableView (tbl s) (ID a) \<noteq> None \<or> emailTaken (tableView (tbl s)) (Email a))"
proof -
  obtain e0 where e: "e = mapWriteErr e0" and ex: "tx_Exec d QcreateAccount
       [SText (ca_ID (toCreateParams a)), SText (ca_Email (toCreateParams a)),
        SText (ca_FirstName (toCreateParams a)), SText (ca_LastName (toCreateParams a)),
        SText (ca_PasswordHash (toCreateParams a)), SInt4 (ca_Status (toCreateParams a)),
        tsArg (ca_CreatedAt (toCreateParams a)), tsArg (ca_UpdatedAt (toCreateParams a))] s = (Inl e0, s')"
    using assms by (auto simp: sqlcCreate_def genCreateAccount_def elim!: andThen_InlE mapErr_InlE)
  from exec_err [OF ex] have t: "tbl s' = tbl s" and "noApp e0"
    and u: "asPg e0 = Some uniqueViolation \<longrightarrow> fst (sqlExec QcreateAccount
       [SText (ca_ID (toCreateParams a)), SText (ca_Email (toCreateParams a)),
        SText (ca_FirstName (toCreateParams a)), SText (ca_LastName (toCreateParams a)),
        SText (ca_PasswordHash (toCreateParams a)), SInt4 (ca_Status (toCreateParams a)),
        tsArg (ca_CreatedAt (toCreateParams a)), tsArg (ca_UpdatedAt (toCreateParams a))] (tbl s))
      = Inl uniqueViolation"
    by auto
  then show ?thesis
    using constraints [of s]
    by (auto simp: e mapWriteErr_exists uniqueViolationCode_def uniqueViolation_def typeError_def
        sqlExec_def execCreate_def createRow_toCreateParams [OF refl] conflicts_iff tableView_None
        emailTaken_tableView split: if_splits)
qed

lemma getRow_ok:
  assumes "andThen (mapErr mapReadErr (andThen (tx_QueryRow d q [SText v]) (\<lambda>row. liftR (scanAccount row))))
             (\<lambda>row. ret (Some (sqlcToDomain row))) s = (Inr p, s')"
    and "\<And>order t. sqlQuery order q [SText v] t = Inr (map rowVals (filter (P v) t))"
  shows "tbl s' = tbl s \<and> (\<exists>r \<in> set (tbl s). P v r \<and> p = Some (rowAccount r))"
proof -
  from assms(1) obtain row g where r: "tx_QueryRow d q [SText v] s = (Inr row, s')"
    and g: "scanAccount row = Inr g" and p: "p = Some (sqlcToDomain g)"
    by (auto elim!: andThen_InrE mapErr_InrE)
  from row_ok [OF r] assms(2) obtain x xs where "filter (P v) (tbl s) = x # xs" "row = rowVals x" "tbl s' = tbl s"
    by auto
  moreover from this(1) have "x \<in> {y \<in> set (tbl s). P v y}" by (metis list.set_intros(1) set_filter)
  ultimately have x: "x \<in> set (tbl s)" "P v x" "row = rowVals x" "tbl s' = tbl s" by auto
  with g p show ?thesis by (auto simp: toDomain_scan)
qed

lemma getRow_err:
  assumes "andThen (mapErr mapReadErr (andThen (tx_QueryRow d q [SText v]) (\<lambda>row. liftR (scanAccount row))))
             (\<lambda>row. ret (Some (sqlcToDomain row))) s = (Inl e, s')"
    and "\<And>order t. sqlQuery order q [SText v] t = Inr (map rowVals (filter (P v) t))"
  shows "tbl s' = tbl s
     \<and> (errorsIs e (App ErrAccountNotFound) \<longrightarrow> (\<forall>r \<in> set (tbl s). \<not> P v r))"
proof -
  from assms(1) obtain e0 where e: "e = mapReadErr e0"
    and "tx_QueryRow d q [SText v] s = (Inl e0, s')
       \<or> (\<exists>row. tx_QueryRow d q [SText v] s = (Inr row, s') \<and> scanAccount row = Inl e0)"
    by (auto elim!: andThen_InlE mapErr_InlE)
  then consider (driver) "tx_QueryRow d q [SText v] s = (Inl e0, s')"
    | (scan) row where "tx_QueryRow d q [SText v] s = (Inr row, s')" "scanAccount row = Inl e0"
    by blast
  then show ?thesis
  proof cases
    case driver
    from row_err [OF driver] show ?thesis
      by (auto simp: e mapReadErr_notfound assms(2) filter_empty_conv)
  next
    case scan
    from row_ok [OF scan(1)] assms(2) obtain x where "row = rowVals x"
      by (auto simp: Cons_eq_map_conv)
    with scan(2) show ?thesis by (simp add: scanAccount_rowVals)
  qed
qed

lemma sqlQuery_get:
  "sqlQuery order QgetAccountByID [SText v] t = Inr (map rowVals (filter (\<lambda>r. c_id r = v) t))"
  "sqlQuery order QgetAccountByEmail [SText v] t = Inr (map rowVals (filter (\<lambda>r. c_email r = v) t))"
  by (simp_all add: sqlQuery_def queryWhere_def)

lemmas get_by_id_ok = getRow_ok [where P = "\<lambda>v r. c_id r = v", OF _ sqlQuery_get(1),
    folded genGetAccountByID_def sqlcGetByID_def]
lemmas get_by_id_err = getRow_err [where P = "\<lambda>v r. c_id r = v", OF _ sqlQuery_get(1),
    folded genGetAccountByID_def sqlcGetByID_def]
lemmas get_by_email_ok = getRow_ok [where P = "\<lambda>v r. c_email r = v", OF _ sqlQuery_get(2),
    folded genGetAccountByEmail_def sqlcGetByEmail_def]
lemmas get_by_email_err = getRow_err [where P = "\<lambda>v r. c_email r = v", OF _ sqlQuery_get(2),
    folded genGetAccountByEmail_def sqlcGetByEmail_def]

text \<open>The two reads in terms of the view.\<close>

lemma sqlcGetByID_ok:
  "sqlcGetByID d i s = (Inr p, s') \<Longrightarrow> \<exists>a. p = Some a \<and> tableView (tbl s) i = Some a"
  using get_by_id_ok [of i s p s'] tableView_Some [OF constraints, of s i] by blast

lemma sqlcGetByID_notfound:
  "sqlcGetByID d i s = (Inl e, s') \<Longrightarrow> errorsIs e (App ErrAccountNotFound) \<Longrightarrow> tableView (tbl s) i = None"
  using get_by_id_err [of i s e s'] by (auto simp: tableView_None)

lemma sqlcGetByEmail_ok:
  "sqlcGetByEmail d m s = (Inr p, s') \<Longrightarrow> \<exists>a. p = Some a \<and> a \<in> ran (tableView (tbl s)) \<and> Email a = m"
  using get_by_email_ok [of m s p s'] ran_tableView [OF constraints, of s] by auto

lemma sqlcGetByEmail_notfound:
  "sqlcGetByEmail d m s = (Inl e, s') \<Longrightarrow> errorsIs e (App ErrAccountNotFound) \<Longrightarrow>
     \<not> emailTaken (tableView (tbl s)) m"
  using get_by_email_err [of m s e s'] emailTaken_tableView [OF constraints, of s] by auto

lemma genGetAccountByEmail_err: "genGetAccountByEmail d m s = (Inl e, s') \<Longrightarrow> noApp e"
  by (auto simp: genGetAccountByEmail_def scanAccount_def scanError_def elim!: andThen_InlE
      dest!: row_err split: list.splits option.splits)

lemma sqlcGetByEmail_no_conflict:
  "sqlcGetByEmail d m s = (Inl e, s') \<Longrightarrow> \<not> errorsIs e (App ErrAccountAlreadyExists)"
  by (auto simp: sqlcGetByEmail_def mapReadErr_def elim!: andThen_InlE mapErr_InlE
      dest!: genGetAccountByEmail_err split: if_splits)

lemma sqlcGet_keeps: "keeps tbl (sqlcGetByID d i)" "keeps tbl (sqlcGetByEmail d m)"
  by (rule keepsI, metis get_by_id_ok get_by_id_err sum.exhaust,
      rule keepsI, metis get_by_email_ok get_by_email_err sum.exhaust)

lemma sqlcUpdate_exec:
  assumes "genUpdateAccount d (toUpdateParams p) s = (Inr n, s')"
  shows "n = word_of_nat (length (filter (\<lambda>r. c_id r = up_ID p) (tbl s)))
    \<and> tbl s' = snd (updateRows (up_ID p) (patchRow p) (tbl s))"
  using exec_ok [OF assms [unfolded genUpdateAccount_def]]
  by (auto simp: sqlExec_def execUpdate_toUpdateParams [OF refl] updateRows_def)

lemma sqlcUpdate_ok:
  assumes "sqlcUpdate d p s = (Inr u, s')"
  shows "\<exists>a. tableView (tbl s) (up_ID p) = Some a
    \<and> tableView (tbl s') = (tableView (tbl s))(up_ID p \<mapsto> patch (sqlcEncp p) a)"
proof -
  from assms obtain n where "genUpdateAccount d (toUpdateParams p) s = (Inr n, s')" "n \<noteq> 0"
    by (auto simp: sqlcUpdate_def elim!: andThen_InrE mapErr_InrE split: if_splits)
  with sqlcUpdate_exec count_id_wf [OF constraints] obtain a
    where "tableView (tbl s) (up_ID p) = Some a" "tbl s' = snd (updateRows (up_ID p) (patchRow p) (tbl s))"
    by fastforce
  then show ?thesis by (simp add: tableView_updateRows)
qed

lemma sqlcUpdate_err:
  assumes "sqlcUpdate d p s = (Inl e, s')"
  shows "tableView (tbl s') = tableView (tbl s)
    \<and> (errorsIs e (App ErrAccountNotFound) \<longrightarrow> tableView (tbl s) (up_ID p) = None)"
proof -
  from assms consider (driver) e0 where "genUpdateAccount d (toUpdateParams p) s = (Inl e0, s')" "e = mapWriteErr e0"
    | (none) "genUpdateAccount d (toUpdateParams p) s = (Inr 0, s')"
    by (auto simp: sqlcUpdate_def elim!: andThen_InlE mapErr_InlE mapErr_InrE split: if_splits)
  then show ?thesis
  proof cases
    case driver
    from exec_err [OF this(1) [unfolded genUpdateAccount_def]] this(2) show ?thesis
      by (auto simp: mapWriteErr_def split: option.splits if_splits)
  next
    case none
    have "tableView (tbl s) (up_ID p) = None" "tbl s' = snd (updateRows (up_ID p) (patchRow p) (tbl s))"
      using sqlcUpdate_exec [OF none] count_id_wf [OF constraints] by metis+
    then show ?thesis by (simp add: tableView_updateRows)
  qed
qed

lemma sqlcDelete_exec:
  assumes "genDeleteAccount d i s = (Inr n, s')"
  shows "n = word_of_nat (length (filter (\<lambda>r. c_id r = i) (tbl s)))
    \<and> tbl s' = filter (\<lambda>r. c_id r \<noteq> i) (tbl s)"
  using exec_ok [OF assms [unfolded genDeleteAccount_def]]
  by (auto simp: sqlExec_def execDelete_def deleteRows_def)

lemma sqlcDelete_ok:
  assumes "sqlcDelete d i s = (Inr u, s')"
  shows "tableView (tbl s) i \<noteq> None \<and> tableView (tbl s') = (tableView (tbl s))(i := None)"
proof -
  from assms obtain n where "genDeleteAccount d i s = (Inr n, s')" "n \<noteq> 0"
    by (auto simp: sqlcDelete_def elim!: andThen_InrE mapErr_InrE split: if_splits)
  then show ?thesis
    using sqlcDelete_exec count_id_wf [OF constraints] by (metis tableView_filter)
qed

lemma sqlcDelete_err:
  assumes "sqlcDelete d i s = (Inl e, s')"
  shows "tableView (tbl s') = tableView (tbl s)
    \<and> (errorsIs e (App ErrAccountNotFound) \<longrightarrow> tableView (tbl s) i = None)"
proof -
  from assms consider (driver) e0 where "genDeleteAccount d i s = (Inl e0, s')" "e = App (Cause ErrInternal (Wrapf ''delete account: %w'' [] e0))"
    | (none) "genDeleteAccount d i s = (Inr 0, s')"
    by (auto simp: sqlcDelete_def elim!: andThen_InlE mapErr_InlE mapErr_InrE split: if_splits)
  then show ?thesis
  proof cases
    case driver
    from exec_err [OF this(1) [unfolded genDeleteAccount_def]] this(2) show ?thesis
      by (auto simp: mapWriteErr_def split: option.splits if_splits)
  next
    case none
    have "tableView (tbl s) i = None" "tbl s' = filter (\<lambda>r. c_id r \<noteq> i) (tbl s)"
      using sqlcDelete_exec [OF none] count_id_wf [OF constraints] by metis+
    then show ?thesis by (simp add: tableView_filter fun_upd_idem_iff)
  qed
qed

text \<open>The exact page and total.\<close>

lemma intPtrArg_nullable [simp]: "nullable intArg (intPtrArg n) = Some n"
  by (simp add: intPtrArg_def split: option.split)

lemma sqlcList_exact:
  assumes "sqlcList d f s = (Inr (as, n), s')"
  shows "tbl s' = tbl s
    \<and> (\<exists>u. newestFirst (filter (statusMatches (statusFilter (lf_Status f))) (tbl s)) u
        \<and> as = map rowAccount (take (nat (sint (scast (lf_Limit f) :: goint32)))
            (drop (nat (sint (scast (lf_Offset f) :: goint32))) u)))
    \<and> n = word_of_nat (length (filter (statusMatches (statusFilter (lf_Status f))) (tbl s)))"
proof -
  from assms obtain s1 rs gs row where
      q: "tx_Query d QlistAccounts [intPtrArg (statusFilter (lf_Status f)), SInt4 (scast (lf_Offset f)),
           SInt4 (scast (lf_Limit f))] s = (Inr rs, s1)"
    and g: "scanAll rs [] = Inr gs" "as = map sqlcToDomain gs"
    and c: "tx_QueryRow d QcountAccounts [intPtrArg (statusFilter (lf_Status f))] s1 = (Inr row, s')"
    and r: "scanCount row = Inr n"
    by (auto simp: sqlcList_def genListAccounts_def genCountAccounts_def Let_def elim!: andThen_InrE mapErr_InrE)
  let ?t = "filter (statusMatches (statusFilter (lf_Status f))) (tbl s)"
  let ?page = "\<lambda>u. take (nat (sint (scast (lf_Limit f) :: goint32))) (drop (nat (sint (scast (lf_Offset f) :: goint32))) u)"
  from query_ok [OF q] obtain order where o: "byCreation order" "rs = map rowVals (?page (order ?t))" and t: "tbl s1 = tbl s"
    by (auto simp: sqlQuery_def queryList_def split: if_splits)
  with g have "as = map rowAccount (?page (order ?t))" using scanAll_append [of "?page (order ?t)" "[]" gs] by simp
  moreover have "newestFirst ?t (order ?t)" using o(1) by (simp add: byCreation_def)
  moreover from row_ok [OF c] t r have "tbl s' = tbl s" "n = word_of_nat (length ?t)"
    by (auto simp: sqlQuery_def queryCount_def scanCount_def)
  ultimately show ?thesis by blast
qed

lemma sqlcList_keeps: "keeps tbl (sqlcList d f)"
proof -
  have "keeps tbl (tx_Query d q args)" "keeps tbl (tx_QueryRow d q args)" for q args
    by (auto intro!: keepsI simp: query_err row_err split: sum.splits)
      (metis query_ok query_err sum.exhaust, metis row_ok row_err sum.exhaust)
  then show ?thesis
    by (auto simp: sqlcList_def genListAccounts_def genCountAccounts_def Let_def intro!: keeps_intros)
qed

lemma sqlcList_sound:
  assumes "sqlcList d f s = (Inr (as, n), s')" "a \<in> set as"
  shows "a \<in> ran (tableView (tbl s)) \<and> (\<forall>st. lf_Status f = Some st \<longrightarrow> scast (Status a) = (scast st :: goint32))"
proof -
  from sqlcList_exact [OF assms(1)] assms(2) obtain r where
    "r \<in> set (filter (statusMatches (statusFilter (lf_Status f))) (tbl s))" "a = rowAccount r"
    by (auto dest!: in_set_takeD in_set_dropD newestFirst_set)
  then show ?thesis
    using ran_tableView [OF constraints] by (auto simp: statusMatches_def statusFilter_def)
qed

end

sublocale pg_driver \<subseteq> sqlc: account_repository "sqlcRepository d" "tableView \<circ> tbl" sqlcEnc sqlcEncp
proof unfold_locales
  show "keeps (tableView \<circ> tbl) (repo_GetByID (sqlcRepository d) i)"
    "keeps (tableView \<circ> tbl) (repo_GetByEmail (sqlcRepository d) i)"
    "keeps (tableView \<circ> tbl) (repo_List (sqlcRepository d) f)" for i f
    using sqlcGet_keeps sqlcList_keeps by (simp_all add: keeps_def sqlcRepository_def)
qed (simp_all add: sqlcRepository_def sqlcUpdate_ok sqlcUpdate_err sqlcDelete_err sqlcGetByID_ok
       sqlcGetByEmail_ok sqlcGetByEmail_no_conflict sqlcGetByID_notfound sqlcGetByEmail_notfound sqlcCreate_ok sqlcCreate_err
       sqlcDelete_ok,
     auto simp: sqlcEnc_def sqlcEncp_def dest: sqlcCreate_ok sqlcDelete_ok sqlcList_sound sqlcCreate_err
       sqlcUpdate_err sqlcDelete_err)

context pg_driver
begin

lemma implements_port: "account_repository (sqlcRepository d) (tableView \<circ> tbl) sqlcEnc sqlcEncp"
  by unfold_locales

end

end
