(* ===== verification/PgServer.thy ===== *)
theory PgServer
  imports SqlcContract
begin

text \<open>
  A concrete PostgreSQL for the drivers: a table that satisfies the constraints of the
  migration by its type, and a script of driver faults (lost connections, timeouts) that
  statements run into.  The pgx driver over it satisfies \<open>pg_driver\<close>; the properties of the
  pgx + sqlc backend hold over every such driver and are witnessed on this one.
\<close>

section \<open>Tables with constraints\<close>

typedef pgtable = "{t. wf_table t}"
  morphisms tableRows mkTable
proof
  show "[] \<in> {t. wf_table t}" by simp
qed

setup_lifting type_definition_pgtable

lemma wf_tableRows [simp]: "wf_table (tableRows t)"
  using tableRows [of t] by simp

lemma tableRows_mkTable [simp]: "wf_table t \<Longrightarrow> tableRows (mkTable t) = t"
  by (simp add: mkTable_inverse)

lift_definition emptyTable :: pgtable is "[]"
  by simp

lemma tableRows_empty [simp]: "tableRows emptyTable = []"
  by (rule emptyTable.rep_eq)

record pg =
  pg_table :: pgtable
  pg_faults :: "string option list"  \<comment> \<open>one entry per statement to come; exhausted means none\<close>

definition pgEmpty :: pg where
  "pgEmpty = \<lparr>pg_table = emptyTable, pg_faults = []\<rparr>"

text \<open>Run a statement unless the script has a fault for it.\<close>

definition orFault :: "(pg, go_error, 'a) op \<Rightarrow> (pg, go_error, 'a) op" where
  "orFault m = (\<lambda>s. case pg_faults s of
       [] \<Rightarrow> m s
     | Some f # fs \<Rightarrow> (Inl (DriverErr f), s\<lparr>pg_faults := fs\<rparr>)
     | None # fs \<Rightarrow> m (s\<lparr>pg_faults := fs\<rparr>))"

lemma orFault_cases:
  assumes "orFault m s = (x, s')"
  obtains (fault) f fs where "x = Inl (DriverErr f)" "s' = s\<lparr>pg_faults := fs\<rparr>"
    | (run) fs where "m (s\<lparr>pg_faults := fs\<rparr>) = (x, s')"
proof (cases "pg_faults s")
  case Nil
  then have "s\<lparr>pg_faults := []\<rparr> = s" by (cases s) simp
  then have "m (s\<lparr>pg_faults := []\<rparr>) = m s" by (rule arg_cong)
  also have "m s = (x, s')" using Nil assms by (simp add: orFault_def)
  finally show thesis by (rule run)
next
  case (Cons a fs)
  with assms that show thesis by (cases a) (auto simp: orFault_def)
qed

section \<open>The pgx driver\<close>

text \<open>One order of the rows: those created at the same time stay as they are in the table.\<close>

definition stableOrder :: "pgrow list \<Rightarrow> pgrow list" where
  "stableOrder t = sort_key (\<lambda>r. - c_created_at r) t"

lemma byCreation_stableOrder [simp]: "byCreation stableOrder"
proof -
  have "sorted_wrt (\<lambda>x y. c_created_at y \<le> c_created_at x) (stableOrder t)" for t
    using sorted_sort_key [of "\<lambda>r. - c_created_at r" t] by (simp add: stableOrder_def sorted_map)
  then show ?thesis by (simp add: byCreation_def newestFirst_def) (simp add: stableOrder_def)
qed

definition pgExec :: "query \<Rightarrow> sqlval list \<Rightarrow> (pg, go_error, goint) op" where
  "pgExec q args = orFault (\<lambda>s.
     case sqlExec q args (tableRows (pg_table s)) of
       (Inl c, t) \<Rightarrow> (Inl (PgError c), s)
     | (Inr n, t) \<Rightarrow> (Inr (word_of_nat n), s\<lparr>pg_table := mkTable t\<rparr>))"

definition pgQuery :: "query \<Rightarrow> sqlval list \<Rightarrow> (pg, go_error, sqlval list list) op" where
  "pgQuery q args = orFault (\<lambda>s.
     case sqlQuery stableOrder q args (tableRows (pg_table s)) of
       Inl c \<Rightarrow> (Inl (PgError c), s)
     | Inr rs \<Rightarrow> (Inr rs, s))"

definition pgQueryRow :: "query \<Rightarrow> sqlval list \<Rightarrow> (pg, go_error, sqlval list) op" where
  "pgQueryRow q args = orFault (\<lambda>s.
     case sqlQuery stableOrder q args (tableRows (pg_table s)) of
       Inl c \<Rightarrow> (Inl (PgError c), s)
     | Inr [] \<Rightarrow> (Inl ErrNoRows, s)
     | Inr (r # rs) \<Rightarrow> (Inr r, s))"

definition pgDB :: "pg DBTX" where
  "pgDB = \<lparr>tx_Exec = pgExec, tx_Query = pgQuery, tx_QueryRow = pgQueryRow\<rparr>"

definition pgRows :: "pg \<Rightarrow> pgrow list" where
  "pgRows s = tableRows (pg_table s)"

lemma wf_pgRows [simp]: "wf_table (pgRows s)"
  by (simp add: pgRows_def)

interpretation pgx: pg_driver pgDB pgRows
proof unfold_locales
  fix q args s n s' assume "tx_Exec pgDB q args s = (Inr n, s')"
  then have "pgExec q args s = (Inr n, s')" by (simp add: pgDB_def)
  then show "\<exists>k. sqlExec q args (pgRows s) = (Inr k, pgRows s') \<and> n = word_of_nat k"
    unfolding pgExec_def
  proof (cases rule: orFault_cases)
    case (run fs)
    have "wf_table (snd (sqlExec q args (tableRows (pg_table s))))" by (simp add: sqlExec_wf)
    with run show ?thesis by (auto simp: pgRows_def split: prod.splits sum.splits)
  qed simp
next
  fix q args s e s' assume "tx_Exec pgDB q args s = (Inl e, s')"
  then have "pgExec q args s = (Inl e, s')" by (simp add: pgDB_def)
  then show "pgRows s' = pgRows s \<and> noApp e
      \<and> (asPg e = Some uniqueViolation \<longrightarrow> fst (sqlExec q args (pgRows s)) = Inl uniqueViolation)"
    unfolding pgExec_def
    by (cases rule: orFault_cases) (auto simp: pgRows_def split: prod.splits sum.splits)
next
  fix q args s rs s' assume "tx_Query pgDB q args s = (Inr rs, s')"
  then have "pgQuery q args s = (Inr rs, s')" by (simp add: pgDB_def)
  then show "pgRows s' = pgRows s \<and> (\<exists>order. byCreation order \<and> sqlQuery order q args (pgRows s) = Inr rs)"
    unfolding pgQuery_def by (cases rule: orFault_cases) (auto simp: pgRows_def split: sum.splits intro: byCreation_stableOrder)
next
  fix q args s e s' assume "tx_Query pgDB q args s = (Inl e, s')"
  then have "pgQuery q args s = (Inl e, s')" by (simp add: pgDB_def)
  then show "pgRows s' = pgRows s \<and> noApp e"
    unfolding pgQuery_def by (cases rule: orFault_cases) (auto simp: pgRows_def split: sum.splits)
next
  fix q args s row s' assume "tx_QueryRow pgDB q args s = (Inr row, s')"
  then have "pgQueryRow q args s = (Inr row, s')" by (simp add: pgDB_def)
  then show "pgRows s' = pgRows s \<and> (\<exists>order rest. byCreation order \<and> sqlQuery order q args (pgRows s) = Inr (row # rest))"
    unfolding pgQueryRow_def by (cases rule: orFault_cases) (auto simp: pgRows_def split: sum.splits list.splits intro!: exI [of _ stableOrder])
next
  fix q args s e s' assume "tx_QueryRow pgDB q args s = (Inl e, s')"
  then have "pgQueryRow q args s = (Inl e, s')" by (simp add: pgDB_def)
  then show "pgRows s' = pgRows s \<and> noApp e \<and> (errorsIs e ErrNoRows \<longrightarrow> (\<exists>order. byCreation order \<and> sqlQuery order q args (pgRows s) = Inr []))"
    unfolding pgQueryRow_def
    by (cases rule: orFault_cases) (auto simp: pgRows_def ErrNoRows_def split: sum.splits list.splits intro: byCreation_stableOrder)
qed simp

section \<open>Properties of the pgx + sqlc backend\<close>

text \<open>
  C17: over every driver that runs the statements, the pgx + sqlc repository implements the
  repository port: writes do exactly what the contract says to the durable accounts or, on
  error, nothing; reads return the durable account; absence and only absence is reported as
  ErrAccountNotFound.  What is stored is the entity with the status cut to 32 bits, times
  cut to microseconds and no deletion time.
\<close>

theorem sqlc_implements_port:
  "pg_driver d tbl \<Longrightarrow> account_repository (sqlcRepository d) (tableView \<circ> tbl) sqlcEnc sqlcEncp"
  by (rule pg_driver.implements_port)

theorem sqlc_implements_port_witness:
  "account_repository (sqlcRepository pgDB) (tableView \<circ> pgRows) sqlcEnc sqlcEncp"
  by (rule sqlc_implements_port) (rule pgx.pg_driver_axioms)

text \<open>
  C35: what List of the pgx + sqlc backend returns: of the rows with the requested status in some
  order from newest to oldest, the page from the offset on with at most limit of them (both cut
  to 32 bits), and the number of all rows with that status.  Rows created at the same time come in
  any order.  The limit is taken literally: limit 0, which the domain's filter documents as "no
  constraint", yields an empty page whatever the table holds.
\<close>

theorem sqlc_list_page:
  assumes "pg_driver d tbl" "sqlcList d f s = (Inr (as, n), s')"
  shows "(\<exists>u. mset u = mset (filter (statusMatches (statusFilter (lf_Status f))) (tbl s))
        \<and> sorted_wrt (\<lambda>x y. c_created_at y \<le> c_created_at x) u
        \<and> as = map rowAccount (take (nat (sint (scast (lf_Limit f) :: goint32)))
            (drop (nat (sint (scast (lf_Offset f) :: goint32))) u)))
    \<and> n = word_of_nat (length (filter (statusMatches (statusFilter (lf_Status f))) (tbl s)))
    \<and> (lf_Limit f = 0 \<longrightarrow> as = [])"
  using pg_driver.sqlcList_exact [OF assms] by (auto simp: newestFirst_def)

definition sampleRow :: pgrow where
  "sampleRow = \<lparr>c_id = ''a1'', c_email = ''jane@x.io'', c_first_name = ''Jane'', c_last_name = ''Doe'',
     c_password_hash = ''h'', c_status = 1, c_created_at = 0, c_updated_at = 0, c_deleted_at = None\<rparr>"

definition samplePg :: pg where
  "samplePg = \<lparr>pg_table = mkTable [sampleRow], pg_faults = []\<rparr>"

lemma samplePg_rows [simp]: "tableRows (pg_table samplePg) = [sampleRow]" "pgRows samplePg = [sampleRow]"
  by (simp_all add: samplePg_def pgRows_def)

lemma samplePg_faults [simp]: "pg_faults samplePg = []"
  by (simp add: samplePg_def)

theorem sqlc_list_page_witness:
  "fst (sqlcList pgDB \<lparr>lf_Status = None, lf_Limit = 0, lf_Offset = 0\<rparr> samplePg) = Inr ([], 1)"
proof -
  let ?f = "\<lparr>lf_Status = None, lf_Limit = 0, lf_Offset = 0\<rparr>"
  have "\<exists>as n s'. sqlcList pgDB ?f samplePg = (Inr (as, n), s')"
    by (simp add: sqlcList_def genListAccounts_def genCountAccounts_def statusFilter_def intPtrArg_def
        pgDB_def pgQuery_def pgQueryRow_def orFault_def sqlQuery_def queryList_def queryCount_def
        andThen_def mapErr_def scanCount_def)
  then obtain as n s' where r: "sqlcList pgDB ?f samplePg = (Inr (as, n), s')" by blast
  from sqlc_list_page [OF pgx.pg_driver_axioms r] r show ?thesis
    by (simp add: statusMatches_def statusFilter_def)
qed

end
