(* ===== verification/GormRepo.thy ===== *)
theory GormRepo
  imports PgServer "HOL-Library.Multiset"
begin

text \<open>
  The GORM backend (\<open>internal/adapter/repo/gorm\<close>), the one the composition root wires.  GORM
  itself is a parameter: a record of the calls the repository chains on \<open>*gorm.DB\<close>.  The
  locale \<open>gorm_driver\<close> states what the code relies on of them, over the same table.
\<close>

section \<open>Model and calls\<close>

record AccountModel =
  m_ID :: string
  m_Email :: string
  m_FirstName :: string
  m_LastName :: string
  m_PasswordHash :: string
  m_Status :: goint
  m_CreatedAt :: time
  m_UpdatedAt :: time
  m_DeletedAt :: "time ptr"

definition TableName :: string where
  "TableName = ''accounts''"

datatype gormval = GTime time | GText string | GInt goint

text \<open>
  \<open>Create(m)\<close>; \<open>Where(query, arg).First(&m)\<close>; \<open>Model(..).Where("id = ?", id).Updates(map)\<close> and
  \<open>Where("id = ?", id).Delete(..)\<close>, which return \<open>RowsAffected\<close>; \<open>Count\<close> and \<open>Find\<close> on the
  base query with an optional status constraint, Find with optional limit and offset.
\<close>

record 'd GormDB =
  g_Create :: "AccountModel \<Rightarrow> ('d, go_error, unit) op"
  g_First :: "string \<Rightarrow> string \<Rightarrow> ('d, go_error, AccountModel) op"
  g_Updates :: "string \<Rightarrow> (string \<times> gormval) list \<Rightarrow> ('d, go_error, goint) op"
  g_Delete :: "string \<Rightarrow> ('d, go_error, goint) op"
  g_Count :: "goint option \<Rightarrow> ('d, go_error, goint) op"
  g_Find :: "goint option \<Rightarrow> goint option \<Rightarrow> goint option \<Rightarrow> ('d, go_error, AccountModel list) op"

definition ErrDuplicatedKey :: go_error where
  "ErrDuplicatedKey = ErrorString ''duplicated key not allowed''"

definition ErrRecordNotFound :: go_error where
  "ErrRecordNotFound = ErrorString ''record not found''"

section \<open>Mappers\<close>

definition toModel :: "account ptr \<Rightarrow> AccountModel ptr" where
  "toModel e = (case e of None \<Rightarrow> None | Some a \<Rightarrow> Some
     \<lparr>m_ID = ID a, m_Email = Email a, m_FirstName = FirstName a, m_LastName = LastName a,
      m_PasswordHash = PasswordHash a, m_Status = Status a, m_CreatedAt = CreatedAt a,
      m_UpdatedAt = UpdatedAt a, m_DeletedAt = DeletedAt a\<rparr>)"

definition gormToDomain :: "AccountModel \<Rightarrow> account" where
  "gormToDomain m =
     \<lparr>ID = m_ID m, Email = m_Email m, FirstName = m_FirstName m, LastName = m_LastName m,
      PasswordHash = m_PasswordHash m, Status = m_Status m, CreatedAt = m_CreatedAt m,
      UpdatedAt = m_UpdatedAt m, DeletedAt = m_DeletedAt m\<rparr>"

lemma gormToDomain_toModel: "map_option gormToDomain (toModel e) = e"
  by (cases e) (simp_all add: toModel_def gormToDomain_def)

section \<open>Repository\<close>

text \<open>\<open>Create(nil)\<close> would be a nil dereference at \<open>m.ID\<close>; the use case never passes nil.\<close>

definition gormCreate :: "'d GormDB \<Rightarrow> account \<Rightarrow> ('d, go_error, string) op" where
  "gormCreate g e =
     (case toModel (Some e) of
        None \<Rightarrow> throw (DriverErr ''nil pointer dereference'')
      | Some m \<Rightarrow>
          andThen (mapErr (\<lambda>err. if errorsIs err ErrDuplicatedKey then App (Cause ErrAccountAlreadyExists err)
                                 else App (Cause ErrInternal err))
                     (g_Create g m))
            (\<lambda>_. ret (m_ID m)))"

definition gormGetOne :: "'d GormDB \<Rightarrow> string \<Rightarrow> string \<Rightarrow> ('d, go_error, account ptr) op" where
  "gormGetOne g qry arg =
     andThen (mapErr (\<lambda>err. if errorsIs err ErrRecordNotFound then App (Cause ErrAccountNotFound err)
                            else App (Cause ErrInternal err))
                (g_First g qry arg))
       (\<lambda>m. ret (Some (gormToDomain m)))"

definition gormGetByID :: "'d GormDB \<Rightarrow> string \<Rightarrow> ('d, go_error, account ptr) op" where
  "gormGetByID g i = gormGetOne g ''id = ?'' i"

definition gormGetByEmail :: "'d GormDB \<Rightarrow> string \<Rightarrow> ('d, go_error, account ptr) op" where
  "gormGetByEmail g email = gormGetOne g ''email = ?'' email"

text \<open>The map \<open>updates\<close>: \<open>updated_at\<close> always, every other column if its pointer is not nil.\<close>

definition gormUpdates :: "UpdateAccountParams \<Rightarrow> (string \<times> gormval) list" where
  "gormUpdates p =
     (let updates = [(''updated_at'', GTime (up_UpdatedAt p))];
          updates = (case up_FirstName p of None \<Rightarrow> updates | Some v \<Rightarrow> put ''first_name'' (GText v) updates);
          updates = (case up_LastName p of None \<Rightarrow> updates | Some v \<Rightarrow> put ''last_name'' (GText v) updates);
          updates = (case up_Status p of None \<Rightarrow> updates | Some v \<Rightarrow> put ''status'' (GInt v) updates)
      in updates)"

definition gormUpdate :: "'d GormDB \<Rightarrow> UpdateAccountParams \<Rightarrow> ('d, go_error, unit) op" where
  "gormUpdate g p =
     andThen (mapErr (\<lambda>err. if errorsIs err ErrDuplicatedKey then App (Cause ErrAccountAlreadyExists err)
                            else App (Cause ErrInternal err))
                (g_Updates g (up_ID p) (gormUpdates p)))
       (\<lambda>rowsAffected. if rowsAffected = 0 then throw (App ErrAccountNotFound) else ret ())"

definition gormDelete :: "'d GormDB \<Rightarrow> string \<Rightarrow> ('d, go_error, unit) op" where
  "gormDelete g i =
     andThen (mapErr (\<lambda>err. App (Cause ErrInternal err)) (g_Delete g i))
       (\<lambda>rowsAffected. if rowsAffected = 0 then throw (App ErrAccountNotFound) else ret ())"

definition gormList :: "'d GormDB \<Rightarrow> ListAccountFilter ptr \<Rightarrow> ('d, go_error, account list \<times> goint) op" where
  "gormList g f =
     (let base = (case f of None \<Rightarrow> None | Some flt \<Rightarrow> lf_Status flt);
          limit = (case f of None \<Rightarrow> None
                   | Some flt \<Rightarrow> if sint (lf_Limit flt) > 0 then Some (lf_Limit flt) else None);
          offset = (case f of None \<Rightarrow> None
                    | Some flt \<Rightarrow> if sint (lf_Offset flt) > 0 then Some (lf_Offset flt) else None)
      in andThen (mapErr (\<lambda>err. App (Cause ErrInternal err)) (g_Count g base))
           (\<lambda>total. andThen (mapErr (\<lambda>err. App (Cause ErrInternal err)) (g_Find g base limit offset))
              (\<lambda>rows. ret (append_all gormToDomain rows, total))))"

definition gormRepository :: "'d GormDB \<Rightarrow> 'd AccountRepository" where
  "gormRepository g =
     \<lparr>repo_Create = gormCreate g, repo_GetByID = gormGetByID g, repo_GetByEmail = gormGetByEmail g,
      repo_Update = gormUpdate g, repo_Delete = gormDelete g, repo_List = (\<lambda>f. gormList g (Some f))\<rparr>"

section \<open>What the code relies on of GORM\<close>

text \<open>An \<open>int\<close> reaches the INT column only if it fits 32 bits; the database refuses it otherwise.\<close>

definition fitsInt4 :: "goint \<Rightarrow> bool" where
  "fitsInt4 n \<longleftrightarrow> (scast (scast n :: goint32) :: goint) = n"

definition modelRow :: "AccountModel \<Rightarrow> pgrow" where
  "modelRow m = \<lparr>c_id = m_ID m, c_email = m_Email m, c_first_name = m_FirstName m,
     c_last_name = m_LastName m, c_password_hash = m_PasswordHash m, c_status = scast (m_Status m),
     c_created_at = micros (m_CreatedAt m), c_updated_at = micros (m_UpdatedAt m),
     c_deleted_at = map_option micros (m_DeletedAt m)\<rparr>"

definition rowModel :: "pgrow \<Rightarrow> AccountModel" where
  "rowModel r = \<lparr>m_ID = c_id r, m_Email = c_email r, m_FirstName = c_first_name r,
     m_LastName = c_last_name r, m_PasswordHash = c_password_hash r, m_Status = scast (c_status r),
     m_CreatedAt = c_created_at r, m_UpdatedAt = c_updated_at r, m_DeletedAt = c_deleted_at r\<rparr>"

definition whereCol :: "string \<Rightarrow> string \<Rightarrow> pgrow \<Rightarrow> bool" where
  "whereCol qry arg r = ((qry = ''id = ?'' \<and> c_id r = arg) \<or> (qry = ''email = ?'' \<and> c_email r = arg))"

text \<open>\<open>SET\<close> the columns of the map; None if a value does not fit its column.\<close>

fun setCol :: "string \<times> gormval \<Rightarrow> pgrow \<Rightarrow> pgrow option" where
  "setCol (col, GTime t) r = (if col = ''updated_at'' then Some (r\<lparr>c_updated_at := micros t\<rparr>) else None)"
| "setCol (col, GText v) r =
     (if col = ''first_name'' then Some (r\<lparr>c_first_name := v\<rparr>)
      else if col = ''last_name'' then Some (r\<lparr>c_last_name := v\<rparr>) else None)"
| "setCol (col, GInt n) r =
     (if col = ''status'' \<and> fitsInt4 n then Some (r\<lparr>c_status := scast n\<rparr>) else None)"

fun setCols :: "(string \<times> gormval) list \<Rightarrow> pgrow \<Rightarrow> pgrow option" where
  "setCols [] r = Some r"
| "setCols (c # cs) r = (case setCol c r of None \<Rightarrow> None | Some r' \<Rightarrow> setCols cs r')"

definition hasStatus :: "goint option \<Rightarrow> pgrow \<Rightarrow> bool" where
  "hasStatus st r = (case st of None \<Rightarrow> True | Some v \<Rightarrow> scast (c_status r) = v)"

text \<open>
  Find without an Order clause returns the matching rows in an order the database is free to
  choose.
\<close>

locale gorm_driver =
  fixes g :: "'d GormDB" and tbl :: "'d \<Rightarrow> pgrow list"
  assumes constraints: "wf_table (tbl s)"
    and create_ok: "g_Create g m s = (Inr u, s') \<Longrightarrow>
        fitsInt4 (m_Status m) \<and> \<not> conflicts (modelRow m) (tbl s) \<and> tbl s' = tbl s @ [modelRow m]"
    and create_err: "g_Create g m s = (Inl e, s') \<Longrightarrow>
        tbl s' = tbl s \<and> noApp e \<and> (errorsIs e ErrDuplicatedKey \<longrightarrow> conflicts (modelRow m) (tbl s))"
    and first_ok: "g_First g qry v s = (Inr m, s') \<Longrightarrow>
        tbl s' = tbl s \<and> (\<exists>r \<in> set (tbl s). whereCol qry v r \<and> m = rowModel r)"
    and first_err: "g_First g qry v s = (Inl e, s') \<Longrightarrow>
        tbl s' = tbl s \<and> noApp e
        \<and> (errorsIs e ErrRecordNotFound \<longrightarrow> (\<forall>r \<in> set (tbl s). \<not> whereCol qry v r))"
    and updates_ok: "g_Updates g i cols s = (Inr n, s') \<Longrightarrow>
        n = word_of_nat (length (filter (\<lambda>r. c_id r = i) (tbl s)))
        \<and> (\<forall>r. setCols cols r \<noteq> None)
        \<and> tbl s' = map (\<lambda>r. if c_id r = i then the (setCols cols r) else r) (tbl s)"
    and updates_err: "g_Updates g i cols s = (Inl e, s') \<Longrightarrow> tbl s' = tbl s \<and> noApp e"
    and delete_ok: "g_Delete g i s = (Inr n, s') \<Longrightarrow>
        n = word_of_nat (length (filter (\<lambda>r. c_id r = i) (tbl s)))
        \<and> tbl s' = filter (\<lambda>r. c_id r \<noteq> i) (tbl s)"
    and delete_err: "g_Delete g i s = (Inl e, s') \<Longrightarrow> tbl s' = tbl s \<and> noApp e"
    and count_ok: "g_Count g st s = (Inr n, s') \<Longrightarrow>
        tbl s' = tbl s \<and> n = word_of_nat (length (filter (hasStatus st) (tbl s)))"
    and count_err: "g_Count g st s = (Inl e, s') \<Longrightarrow> tbl s' = tbl s \<and> noApp e"
    and find_ok: "g_Find g st lim off s = (Inr ms, s') \<Longrightarrow>
        tbl s' = tbl s \<and> (\<exists>t. mset t = mset (filter (hasStatus st) (tbl s)) \<and> ms = map rowModel (page lim off t))"
    and find_err: "g_Find g st lim off s = (Inl e, s') \<Longrightarrow> tbl s' = tbl s \<and> noApp e"

definition gormEnc :: "account \<Rightarrow> account" where
  "gormEnc a = a\<lparr>CreatedAt := micros (CreatedAt a), UpdatedAt := micros (UpdatedAt a),
                 DeletedAt := map_option micros (DeletedAt a)\<rparr>"

definition gormEncp :: "UpdateAccountParams \<Rightarrow> UpdateAccountParams" where
  "gormEncp p = p\<lparr>up_UpdatedAt := micros (up_UpdatedAt p)\<rparr>"

end
