(* ===== verification/GormContract.thy ===== *)
theory GormContract
  imports GormRepo
begin

text \<open>
  The GORM repository implements the repository contract over any \<open>gorm_driver\<close>, and a
  concrete GORM over the PostgreSQL of theory PgServer on which the locales are interpreted.
\<close>

section \<open>Lemmas\<close>

lemma rowAccount_modelRow:
  "toModel (Some a) = Some m \<Longrightarrow> fitsInt4 (m_Status m) \<Longrightarrow> rowAccount (modelRow m) = gormEnc a"
  by (auto simp: toModel_def rowAccount_def modelRow_def gormEnc_def fitsInt4_def)

lemma gormToDomain_rowModel [simp]: "gormToDomain (rowModel r) = rowAccount r"
  by (simp add: gormToDomain_def rowModel_def rowAccount_def)

lemma setCols_updates:
  "setCols (gormUpdates p) r = Some r' \<Longrightarrow>
     c_id r' = c_id r \<and> c_email r' = c_email r \<and> rowAccount r' = patch (gormEncp p) (rowAccount r)"
  by (auto simp: gormUpdates_def Let_def rowAccount_def patch_def gormEncp_def fitsInt4_def
      split: option.splits if_splits)

lemma setCols_updates_fit:
  "setCols (gormUpdates p) r = Some r' \<Longrightarrow> up_Status p = Some st \<Longrightarrow> fitsInt4 st"
  by (auto simp: gormUpdates_def Let_def split: option.splits if_splits)

section \<open>The contract\<close>

context gorm_driver
begin

lemma gormCreate_ok:
  assumes "gormCreate g a s = (Inr i, s')"
  shows "i = ID a \<and> tableView (tbl s) (ID a) = None \<and> \<not> emailTaken (tableView (tbl s)) (Email a)
    \<and> tableView (tbl s') = (tableView (tbl s))(ID a \<mapsto> gormEnc a)"
proof -
  obtain m where m: "toModel (Some a) = Some m" by (simp add: toModel_def)
  then have keys: "c_id (modelRow m) = ID a" "c_email (modelRow m) = Email a" "m_ID m = ID a"
    by (auto simp: toModel_def modelRow_def)
  from assms m obtain u where i: "i = m_ID m" and c: "g_Create g m s = (Inr u, s')"
    by (auto simp: gormCreate_def elim!: andThen_InrE mapErr_InrE)
  from create_ok [OF c] have "fitsInt4 (m_Status m)" "\<not> conflicts (modelRow m) (tbl s)"
    "tbl s' = tbl s @ [modelRow m]" by auto
  then show ?thesis
    using constraints [of s] tableView_append [of "modelRow m" "tbl s"] keys i rowAccount_modelRow [OF m]
    by (simp add: conflicts_iff tableView_None emailTaken_tableView)
qed

lemma gormCreate_err:
  assumes "gormCreate g a s = (Inl e, s')"
  shows "tbl s' = tbl s \<and> (errorsIs e (App ErrAccountAlreadyExists) \<longrightarrow>
    tableView (tbl s) (ID a) \<noteq> None \<or> emailTaken (tableView (tbl s)) (Email a))"
proof -
  obtain m where m: "toModel (Some a) = Some m" by (simp add: toModel_def)
  then have keys: "c_id (modelRow m) = ID a" "c_email (modelRow m) = Email a"
    by (auto simp: toModel_def modelRow_def)
  from assms m obtain e0 where c: "g_Create g m s = (Inl e0, s')"
    and e: "e = (if errorsIs e0 ErrDuplicatedKey then App (Cause ErrAccountAlreadyExists e0)
                 else App (Cause ErrInternal e0))"
    by (auto simp: gormCreate_def elim!: andThen_InlE mapErr_InlE)
  from create_err [OF c] show ?thesis
    using constraints [of s] keys
    by (auto simp: e conflicts_iff tableView_None emailTaken_tableView)
qed

lemma gormGetOne_ok:
  assumes "gormGetOne g qry v s = (Inr p, s')"
  shows "tbl s' = tbl s \<and> (\<exists>r \<in> set (tbl s). whereCol qry v r \<and> p = Some (rowAccount r))"
  using assms by (auto simp: gormGetOne_def elim!: andThen_InrE mapErr_InrE dest!: first_ok)

lemma gormGetOne_err:
  assumes "gormGetOne g qry v s = (Inl e, s')"
  shows "tbl s' = tbl s
     \<and> (errorsIs e (App ErrAccountNotFound) \<longrightarrow> (\<forall>r \<in> set (tbl s). \<not> whereCol qry v r))"
  using assms by (auto simp: gormGetOne_def elim!: andThen_InlE mapErr_InlE dest!: first_err split: if_splits)

lemma gormGet_keeps: "keeps tbl (gormGetByID g i)" "keeps tbl (gormGetByEmail g m)"
  unfolding gormGetByID_def gormGetByEmail_def
  by (rule keepsI, metis gormGetOne_ok gormGetOne_err sum.exhaust)+

lemma gormGetByID_ok:
  "gormGetByID g i s = (Inr p, s') \<Longrightarrow> \<exists>a. p = Some a \<and> tableView (tbl s) i = Some a"
  using gormGetOne_ok [of "''id = ?''" i s p s'] tableView_Some [OF constraints, of s i]
  by (auto simp: gormGetByID_def whereCol_def)

lemma gormGetByID_notfound:
  "gormGetByID g i s = (Inl e, s') \<Longrightarrow> errorsIs e (App ErrAccountNotFound) \<Longrightarrow> tableView (tbl s) i = None"
  using gormGetOne_err [of "''id = ?''" i s e s']
  by (auto simp: gormGetByID_def whereCol_def tableView_None)

lemma gormGetByEmail_ok:
  "gormGetByEmail g m s = (Inr p, s') \<Longrightarrow> \<exists>a. p = Some a \<and> a \<in> ran (tableView (tbl s)) \<and> Email a = m"
  using gormGetOne_ok [of "''email = ?''" m s p s'] ran_tableView [OF constraints, of s]
  by (auto simp: gormGetByEmail_def whereCol_def)

lemma gormGetByEmail_notfound:
  "gormGetByEmail g m s = (Inl e, s') \<Longrightarrow> errorsIs e (App ErrAccountNotFound) \<Longrightarrow>
     \<not> emailTaken (tableView (tbl s)) m"
  using gormGetOne_err [of "''email = ?''" m s e s'] emailTaken_tableView [OF constraints, of s]
  by (auto simp: gormGetByEmail_def whereCol_def)

lemma gormGetByEmail_no_conflict:
  "gormGetByEmail g m s = (Inl e, s') \<Longrightarrow> \<not> errorsIs e (App ErrAccountAlreadyExists)"
  by (auto simp: gormGetByEmail_def gormGetOne_def elim!: andThen_InlE mapErr_InlE dest!: first_err split: if_splits)

lemma updates_view:
  assumes "g_Updates g (up_ID p) (gormUpdates p) s = (Inr n, s')"
  shows "tableView (tbl s') = (case tableView (tbl s) (up_ID p) of None \<Rightarrow> tableView (tbl s)
           | Some a \<Rightarrow> (tableView (tbl s))(up_ID p \<mapsto> patch (gormEncp p) a))"
proof -
  let ?f = "\<lambda>r. the (setCols (gormUpdates p) r)"
  from updates_ok [OF assms] have all: "\<And>r. setCols (gormUpdates p) r \<noteq> None"
    and t: "tbl s' = map (\<lambda>r. if c_id r = up_ID p then ?f r else r) (tbl s)" by auto
  then have f: "c_id (?f r) = c_id r" "rowAccount (?f r) = patch (gormEncp p) (rowAccount r)" for r
    using setCols_updates [of p r "?f r"] all [of r] by auto
  show ?thesis
    unfolding t by (rule tableView_map) (simp_all add: f)
qed

lemma gormUpdate_ok:
  assumes "gormUpdate g p s = (Inr u, s')"
  shows "\<exists>a. tableView (tbl s) (up_ID p) = Some a
    \<and> tableView (tbl s') = (tableView (tbl s))(up_ID p \<mapsto> patch (gormEncp p) a)"
proof -
  from assms obtain n where u: "g_Updates g (up_ID p) (gormUpdates p) s = (Inr n, s')" "n \<noteq> 0"
    by (auto simp: gormUpdate_def elim!: andThen_InrE mapErr_InrE split: if_splits)
  then obtain a where "tableView (tbl s) (up_ID p) = Some a"
    using updates_ok [OF u(1)] count_id_wf [OF constraints, of "up_ID p" s] by fastforce
  with updates_view [OF u(1)] show ?thesis by simp
qed

lemma gormUpdate_err:
  assumes "gormUpdate g p s = (Inl e, s')"
  shows "tableView (tbl s') = tableView (tbl s)
    \<and> (errorsIs e (App ErrAccountNotFound) \<longrightarrow> tableView (tbl s) (up_ID p) = None)"
proof -
  from assms consider (driver) e0 where "g_Updates g (up_ID p) (gormUpdates p) s = (Inl e0, s')"
        "e = App (Cause ErrAccountAlreadyExists e0) \<or> e = App (Cause ErrInternal e0)"
    | (none) "g_Updates g (up_ID p) (gormUpdates p) s = (Inr 0, s')"
    by (auto simp: gormUpdate_def elim!: andThen_InlE mapErr_InlE mapErr_InrE split: if_splits)
  then show ?thesis
  proof cases
    case driver
    from updates_err [OF this(1)] this(2) show ?thesis by auto
  next
    case none
    then have "tableView (tbl s) (up_ID p) = None"
      using updates_ok [OF none] count_id_wf [OF constraints, of "up_ID p" s] by metis
    with updates_view [OF none] show ?thesis by simp
  qed
qed

lemma gormDelete_ok:
  assumes "gormDelete g i s = (Inr u, s')"
  shows "tableView (tbl s) i \<noteq> None \<and> tableView (tbl s') = (tableView (tbl s))(i := None)"
proof -
  from assms obtain n where "g_Delete g i s = (Inr n, s')" "n \<noteq> 0"
    by (auto simp: gormDelete_def elim!: andThen_InrE mapErr_InrE split: if_splits)
  then show ?thesis
    using delete_ok count_id_wf [OF constraints] by (metis tableView_filter)
qed

lemma gormDelete_err:
  assumes "gormDelete g i s = (Inl e, s')"
  shows "tableView (tbl s') = tableView (tbl s)
    \<and> (errorsIs e (App ErrAccountNotFound) \<longrightarrow> tableView (tbl s) i = None)"
proof -
  from assms consider (driver) e0 where "g_Delete g i s = (Inl e0, s')"
        "e = App (Cause ErrAccountAlreadyExists e0) \<or> e = App (Cause ErrInternal e0)"
    | (none) "g_Delete g i s = (Inr 0, s')"
    by (auto simp: gormDelete_def elim!: andThen_InlE mapErr_InlE mapErr_InrE split: if_splits)
  then show ?thesis
  proof cases
    case driver
    from delete_err [OF this(1)] this(2) show ?thesis by auto
  next
    case none
    have "tableView (tbl s) i = None" "tbl s' = filter (\<lambda>r. c_id r \<noteq> i) (tbl s)"
      using delete_ok [OF none] count_id_wf [OF constraints] by metis+
    then show ?thesis by (simp add: tableView_filter fun_upd_idem_iff)
  qed
qed

lemma gormList_page:
  assumes "gormList g (Some f) s = (Inr (as, n), s')"
  shows "tbl s' = tbl s
    \<and> n = word_of_nat (length (filter (hasStatus (lf_Status f)) (tbl s)))
    \<and> (\<exists>t. mset t = mset (filter (hasStatus (lf_Status f)) (tbl s))
         \<and> as = map rowAccount (page (if sint (lf_Limit f) > 0 then Some (lf_Limit f) else None)
                                     (if sint (lf_Offset f) > 0 then Some (lf_Offset f) else None) t))"
proof -
  let ?lim = "if sint (lf_Limit f) > 0 then Some (lf_Limit f) else None"
  let ?off = "if sint (lf_Offset f) > 0 then Some (lf_Offset f) else None"
  from assms obtain s1 ms where c: "g_Count g (lf_Status f) s = (Inr n, s1)"
    and f: "g_Find g (lf_Status f) ?lim ?off s1 = (Inr ms, s')" and as: "as = map gormToDomain ms"
    by (auto simp: gormList_def Let_def elim!: andThen_InrE mapErr_InrE)
  from count_ok [OF c] find_ok [OF f] obtain t where
    "tbl s' = tbl s" "n = word_of_nat (length (filter (hasStatus (lf_Status f)) (tbl s)))"
    "mset t = mset (filter (hasStatus (lf_Status f)) (tbl s))" "ms = map rowModel (page ?lim ?off t)"
    by auto
  with as show ?thesis by (auto simp: comp_def)
qed

lemma gormList_keeps: "keeps tbl (gormList g f)"
proof -
  have "keeps tbl (g_Count g st)" "keeps tbl (g_Find g st l off)" for st l off
    by (rule keepsI, metis count_ok count_err sum.exhaust,
        rule keepsI, metis find_ok find_err sum.exhaust)
  then show ?thesis by (auto simp: gormList_def Let_def intro!: keeps_intros)
qed

lemma gormList_sound:
  assumes "gormList g (Some f) s = (Inr (as, n), s')" "a \<in> set as"
  shows "a \<in> ran (tableView (tbl s)) \<and> (\<forall>st. lf_Status f = Some st \<longrightarrow> scast (Status a) = (scast st :: goint32))"
proof -
  from gormList_page [OF assms(1)] assms(2) obtain t r where
    t: "mset t = mset (filter (hasStatus (lf_Status f)) (tbl s))" and r: "r \<in> set t" "a = rowAccount r"
    using page_subset by fastforce
  then have "r \<in> set (filter (hasStatus (lf_Status f)) (tbl s))" by (metis mset_eq_setD)
  with r(2) show ?thesis
    by (auto simp: ran_tableView [OF constraints] hasStatus_def)
qed

lemma gorm_implements_port_o: "account_repository (gormRepository g) (tableView \<circ> tbl) gormEnc gormEncp"
proof unfold_locales
  show "keeps (tableView \<circ> tbl) (repo_GetByID (gormRepository g) i)"
    "keeps (tableView \<circ> tbl) (repo_GetByEmail (gormRepository g) i)"
    "keeps (tableView \<circ> tbl) (repo_List (gormRepository g) f)" for i f
    using gormGet_keeps gormList_keeps by (simp_all add: keeps_def gormRepository_def)
qed (simp_all add: gormRepository_def gormUpdate_ok gormUpdate_err gormDelete_err gormGetByID_ok
       gormGetByEmail_ok gormGetByEmail_no_conflict gormGetByID_notfound gormGetByEmail_notfound gormCreate_ok gormCreate_err
       gormDelete_ok,
     auto simp: gormEnc_def gormEncp_def dest: gormCreate_ok gormDelete_ok gormList_sound gormCreate_err
       gormUpdate_err gormDelete_err)

end

sublocale gorm_driver \<subseteq> gorm: account_repository "gormRepository g" "tableView \<circ> tbl" gormEnc gormEncp
  by (rule gorm_implements_port_o)

section \<open>GORM over the concrete server\<close>

definition pgErrToGorm :: "string \<Rightarrow> go_error" where
  "pgErrToGorm c = (if c = uniqueViolation then ErrDuplicatedKey else PgError c)"  \<comment> \<open>\<open>TranslateError: true\<close>\<close>

definition outOfRange :: go_error where
  "outOfRange = PgError ''22003''"

definition pgGormCreate :: "AccountModel \<Rightarrow> (pg, go_error, unit) op" where
  "pgGormCreate m = orFault (\<lambda>s.
     if \<not> fitsInt4 (m_Status m) then (Inl outOfRange, s)
     else if conflicts (modelRow m) (tableRows (pg_table s)) then (Inl (pgErrToGorm uniqueViolation), s)
     else (Inr (), s\<lparr>pg_table := mkTable (tableRows (pg_table s) @ [modelRow m])\<rparr>))"

definition pgGormFirst :: "string \<Rightarrow> string \<Rightarrow> (pg, go_error, AccountModel) op" where
  "pgGormFirst qry v = orFault (\<lambda>s.
     case filter (whereCol qry v) (tableRows (pg_table s)) of
       [] \<Rightarrow> (Inl ErrRecordNotFound, s)
     | r # _ \<Rightarrow> (Inr (rowModel r), s))"

text \<open>The columns of a patch map are checked against the column types before the statement runs.\<close>

definition colOk :: "string \<times> gormval \<Rightarrow> bool" where
  "colOk c = (case snd c of
     GTime t \<Rightarrow> fst c = ''updated_at''
   | GText v \<Rightarrow> fst c = ''first_name'' \<or> fst c = ''last_name''
   | GInt n \<Rightarrow> fst c = ''status'' \<and> fitsInt4 n)"

definition pgGormUpdates :: "string \<Rightarrow> (string \<times> gormval) list \<Rightarrow> (pg, go_error, goint) op" where
  "pgGormUpdates i cols = orFault (\<lambda>s.
     if list_all colOk cols
     then (Inr (word_of_nat (length (filter (\<lambda>r. c_id r = i) (tableRows (pg_table s))))),
           s\<lparr>pg_table := mkTable (map (\<lambda>r. if c_id r = i then the (setCols cols r) else r)
                                     (tableRows (pg_table s)))\<rparr>)
     else (Inl outOfRange, s))"

definition pgGormDelete :: "string \<Rightarrow> (pg, go_error, goint) op" where
  "pgGormDelete i = orFault (\<lambda>s.
     (Inr (word_of_nat (length (filter (\<lambda>r. c_id r = i) (tableRows (pg_table s))))),
      s\<lparr>pg_table := mkTable (filter (\<lambda>r. c_id r \<noteq> i) (tableRows (pg_table s)))\<rparr>))"

definition pgGormCount :: "goint option \<Rightarrow> (pg, go_error, goint) op" where
  "pgGormCount st = orFault (\<lambda>s.
     (Inr (word_of_nat (length (filter (hasStatus st) (tableRows (pg_table s))))), s))"

definition pgGormFind :: "goint option \<Rightarrow> goint option \<Rightarrow> goint option \<Rightarrow> (pg, go_error, AccountModel list) op" where
  "pgGormFind st lim off = orFault (\<lambda>s.
     (Inr (map rowModel (page lim off (filter (hasStatus st) (tableRows (pg_table s))))), s))"

definition pgGorm :: "pg GormDB" where
  "pgGorm = \<lparr>g_Create = pgGormCreate, g_First = pgGormFirst, g_Updates = pgGormUpdates,
     g_Delete = pgGormDelete, g_Count = pgGormCount, g_Find = pgGormFind\<rparr>"

lemma setCol_ok: "colOk c \<longleftrightarrow> setCol c r \<noteq> None"
  by (cases c; cases "snd c") (auto simp: colOk_def)

lemma setCol_keys: "setCol c r = Some r' \<Longrightarrow> c_id r' = c_id r \<and> c_email r' = c_email r"
  by (cases c; cases "snd c") (auto split: if_splits)

lemma setCols_ok: "list_all colOk cs \<longleftrightarrow> setCols cs r \<noteq> None"
proof (induction cs arbitrary: r)
  case (Cons c cs)
  then show ?case using setCol_ok [of c r] by (cases "setCol c r") auto
qed simp

lemma setCols_keys: "setCols cs r = Some r' \<Longrightarrow> c_id r' = c_id r \<and> c_email r' = c_email r"
  by (induction cs arbitrary: r) (auto split: option.splits dest: setCol_keys)

lemma wf_setCols:
  "list_all colOk cs \<Longrightarrow> wf_table t \<Longrightarrow> wf_table (map (\<lambda>r. if c_id r = i then the (setCols cs r) else r) t)"
proof (rule wf_table_map)
  fix r assume "list_all colOk cs"
  then obtain r' where "setCols cs r = Some r'" using setCols_ok by blast
  then show "c_id (the (setCols cs r)) = c_id r" "c_email (the (setCols cs r)) = c_email r"
    by (auto dest: setCols_keys)
qed

lemma pgRows_table [simp]: "pgRows (s\<lparr>pg_table := mkTable t\<rparr>) = tableRows (mkTable t)"
  "pgRows (s\<lparr>pg_faults := fs\<rparr>) = pgRows s"
  by (simp_all add: pgRows_def)

lemma noApp_pgErrToGorm [simp]: "noApp (pgErrToGorm c)" "noApp outOfRange" "noApp ErrRecordNotFound"
  by (simp_all add: pgErrToGorm_def outOfRange_def ErrRecordNotFound_def ErrDuplicatedKey_def)

interpretation pgg: gorm_driver pgGorm pgRows
proof unfold_locales
  fix m s u s' assume "g_Create pgGorm m s = (Inr u, s')"
  then have "pgGormCreate m s = (Inr u, s')" by (simp add: pgGorm_def)
  then show "fitsInt4 (m_Status m) \<and> \<not> conflicts (modelRow m) (pgRows s) \<and> pgRows s' = pgRows s @ [modelRow m]"
    unfolding pgGormCreate_def
    by (cases rule: orFault_cases) (auto simp: pgRows_def wf_table_append split: if_splits)
next
  fix m s e s' assume "g_Create pgGorm m s = (Inl e, s')"
  then have "pgGormCreate m s = (Inl e, s')" by (simp add: pgGorm_def)
  then show "pgRows s' = pgRows s \<and> noApp e \<and> (errorsIs e ErrDuplicatedKey \<longrightarrow> conflicts (modelRow m) (pgRows s))"
    unfolding pgGormCreate_def
    by (cases rule: orFault_cases)
      (auto simp: pgRows_def outOfRange_def ErrDuplicatedKey_def split: if_splits)
next
  fix qry v s m s' assume "g_First pgGorm qry v s = (Inr m, s')"
  then have "pgGormFirst qry v s = (Inr m, s')" by (simp add: pgGorm_def)
  then show "pgRows s' = pgRows s \<and> (\<exists>r \<in> set (pgRows s). whereCol qry v r \<and> m = rowModel r)"
    unfolding pgGormFirst_def
    by (cases rule: orFault_cases) (auto simp: pgRows_def filter_eq_Cons_iff split: list.splits)
next
  fix qry v s e s' assume "g_First pgGorm qry v s = (Inl e, s')"
  then have "pgGormFirst qry v s = (Inl e, s')" by (simp add: pgGorm_def)
  then show "pgRows s' = pgRows s \<and> noApp e
      \<and> (errorsIs e ErrRecordNotFound \<longrightarrow> (\<forall>r \<in> set (pgRows s). \<not> whereCol qry v r))"
    unfolding pgGormFirst_def
    by (cases rule: orFault_cases)
      (auto simp: pgRows_def ErrRecordNotFound_def filter_empty_conv split: list.splits)
next
  fix i cols s n s' assume "g_Updates pgGorm i cols s = (Inr n, s')"
  then have "pgGormUpdates i cols s = (Inr n, s')" by (simp add: pgGorm_def)
  then show "n = word_of_nat (length (filter (\<lambda>r. c_id r = i) (pgRows s)))
      \<and> (\<forall>r. setCols cols r \<noteq> None)
      \<and> pgRows s' = map (\<lambda>r. if c_id r = i then the (setCols cols r) else r) (pgRows s)"
    unfolding pgGormUpdates_def
    by (cases rule: orFault_cases)
      (use setCols_ok [of cols] in \<open>auto simp: pgRows_def wf_setCols split: if_splits\<close>)
next
  fix i cols s e s' assume "g_Updates pgGorm i cols s = (Inl e, s')"
  then have "pgGormUpdates i cols s = (Inl e, s')" by (simp add: pgGorm_def)
  then show "pgRows s' = pgRows s \<and> noApp e"
    unfolding pgGormUpdates_def
    by (cases rule: orFault_cases) (auto simp: pgRows_def split: if_splits)
next
  fix i s n s' assume "g_Delete pgGorm i s = (Inr n, s')"
  then have "pgGormDelete i s = (Inr n, s')" by (simp add: pgGorm_def)
  then show "n = word_of_nat (length (filter (\<lambda>r. c_id r = i) (pgRows s)))
      \<and> pgRows s' = filter (\<lambda>r. c_id r \<noteq> i) (pgRows s)"
    unfolding pgGormDelete_def
    by (cases rule: orFault_cases) (auto simp: pgRows_def wf_table_filter)
next
  fix i s e s' assume "g_Delete pgGorm i s = (Inl e, s')"
  then have "pgGormDelete i s = (Inl e, s')" by (simp add: pgGorm_def)
  then show "pgRows s' = pgRows s \<and> noApp e"
    unfolding pgGormDelete_def by (cases rule: orFault_cases) auto
next
  fix st s n s' assume "g_Count pgGorm st s = (Inr n, s')"
  then have "pgGormCount st s = (Inr n, s')" by (simp add: pgGorm_def)
  then show "pgRows s' = pgRows s \<and> n = word_of_nat (length (filter (hasStatus st) (pgRows s)))"
    unfolding pgGormCount_def by (cases rule: orFault_cases) (auto simp: pgRows_def)
next
  fix st s e s' assume "g_Count pgGorm st s = (Inl e, s')"
  then have "pgGormCount st s = (Inl e, s')" by (simp add: pgGorm_def)
  then show "pgRows s' = pgRows s \<and> noApp e"
    unfolding pgGormCount_def by (cases rule: orFault_cases) auto
next
  fix st lim off s ms s' assume "g_Find pgGorm st lim off s = (Inr ms, s')"
  then have "pgGormFind st lim off s = (Inr ms, s')" by (simp add: pgGorm_def)
  then show "pgRows s' = pgRows s
      \<and> (\<exists>t. mset t = mset (filter (hasStatus st) (pgRows s)) \<and> ms = map rowModel (page lim off t))"
    unfolding pgGormFind_def
    by (cases rule: orFault_cases)
      (auto simp: pgRows_def intro!: exI [of _ "filter (hasStatus st) (tableRows (pg_table s))"])
next
  fix st lim off s e s' assume "g_Find pgGorm st lim off s = (Inl e, s')"
  then have "pgGormFind st lim off s = (Inl e, s')" by (simp add: pgGorm_def)
  then show "pgRows s' = pgRows s \<and> noApp e"
    unfolding pgGormFind_def by (cases rule: orFault_cases) auto
qed simp

section \<open>Properties of the GORM backend\<close>

text \<open>
  C18: over every GORM that runs the calls, the GORM repository implements the same repository
  port as the pgx + sqlc one.  What is stored is the entity with times cut to microseconds; a
  status that does not fit 32 bits is refused instead of being truncated.
\<close>

theorem gorm_implements_port:
  "gorm_driver g tbl \<Longrightarrow> account_repository (gormRepository g) (tableView \<circ> tbl) gormEnc gormEncp"
  by (rule gorm_driver.gorm_implements_port_o)

theorem gorm_implements_port_witness:
  "account_repository (gormRepository pgGorm) (tableView \<circ> pgRows) gormEnc gormEncp"
  by (rule gorm_implements_port) (rule pgg.gorm_driver_axioms)

text \<open>
  What List of the GORM backend returns: with a limit and an offset of at most 0 every row
  with the requested status (in an order the database chooses: there is no ORDER BY), and the
  number of all rows with that status.  On limit 0 the two SQL backends differ.
\<close>

lemma gorm_list_unlimited:
  assumes "gorm_driver g tbl" "gormList g (Some f) s = (Inr (as, n), s')"
    "sint (lf_Limit f) \<le> 0" "sint (lf_Offset f) \<le> 0"
  shows "mset as = image_mset rowAccount (mset (filter (hasStatus (lf_Status f)) (tbl s)))
    \<and> n = word_of_nat (length as) \<and> tbl s' = tbl s"
proof -
  from gorm_driver.gormList_page [OF assms(1,2)] assms(3,4) obtain t where
    t: "mset t = mset (filter (hasStatus (lf_Status f)) (tbl s))" and as: "as = map rowAccount t"
    and n: "n = word_of_nat (length (filter (hasStatus (lf_Status f)) (tbl s)))" "tbl s' = tbl s"
    by (auto simp: page_def)
  from t have "length t = length (filter (hasStatus (lf_Status f)) (tbl s))" by (rule mset_eq_length)
  with t as n show ?thesis by simp
qed

lemma gorm_list_unlimited_witness:
  "\<exists>as s'. gormList pgGorm (Some \<lparr>lf_Status = None, lf_Limit = 0, lf_Offset = 0\<rparr>) samplePg = (Inr (as, 1), s')
     \<and> as = [rowAccount sampleRow]"
proof -
  let ?f = "\<lparr>lf_Status = None, lf_Limit = 0, lf_Offset = 0\<rparr>"
  have "\<exists>as n s'. gormList pgGorm (Some ?f) samplePg = (Inr (as, n), s')"
    by (simp add: gormList_def pgGorm_def pgGormCount_def pgGormFind_def orFault_def
        andThen_def mapErr_def)
  then obtain as n s' where r: "gormList pgGorm (Some ?f) samplePg = (Inr (as, n), s')" by blast
  from gorm_list_unlimited [OF pgg.gorm_driver_axioms r] r show ?thesis
    by (auto simp: hasStatus_def)
qed

end
