(* ===== verification/MongoRepo.thy ===== *)
theory MongoRepo
  imports Rows "HOL-Library.Multiset"
begin

text \<open>
  The MongoDB backend (\<open>internal/adapter/repo/mongo\<close>).  The driver is a parameter, a record of
  the collection methods the repository calls; the locale \<open>mongo_driver\<close> states what the code
  relies on of them on a collection with given indexes.
\<close>

section \<open>Documents and calls\<close>

record accountDoc =
  d_ID :: string
  d_Email :: string
  d_FirstName :: string
  d_LastName :: string
  d_PasswordHash :: string
  d_Status :: goint
  d_CreatedAt :: time
  d_UpdatedAt :: time
  d_DeletedAt :: "time ptr"

definition toDoc :: "account \<Rightarrow> accountDoc" where
  "toDoc a = \<lparr>d_ID = ID a, d_Email = Email a, d_FirstName = FirstName a, d_LastName = LastName a,
     d_PasswordHash = PasswordHash a, d_Status = Status a, d_CreatedAt = CreatedAt a,
     d_UpdatedAt = UpdatedAt a, d_DeletedAt = DeletedAt a\<rparr>"

definition docToDomain :: "accountDoc \<Rightarrow> account" where
  "docToDomain d = \<lparr>ID = d_ID d, Email = d_Email d, FirstName = d_FirstName d, LastName = d_LastName d,
     PasswordHash = d_PasswordHash d, Status = d_Status d, CreatedAt = d_CreatedAt d,
     UpdatedAt = d_UpdatedAt d, DeletedAt = d_DeletedAt d\<rparr>"

lemma docToDomain_toDoc [simp]: "docToDomain (toDoc a) = a"
  by (simp add: docToDomain_def toDoc_def)

lemma toDoc_docToDomain [simp]: "toDoc (docToDomain d) = d"
  by (simp add: docToDomain_def toDoc_def)

lemma docToDomain_fields [simp]:
  "ID (docToDomain d) = d_ID d" "Email (docToDomain d) = d_Email d" "Status (docToDomain d) = d_Status d"
  "d_ID (toDoc a) = ID a" "d_Email (toDoc a) = Email a"
  by (simp_all add: docToDomain_def toDoc_def)

definition collectionName :: string where
  "collectionName = ''accounts''"

text \<open>A flat \<open>bson.M\<close> and an index model.\<close>

datatype bsonval = BText string | BInt goint | BTime time

type_synonym bsonM = "(string \<times> bsonval) list"

record IndexModel =
  ix_Keys :: "(string \<times> int) list"
  ix_Unique :: bool
  ix_Name :: string

text \<open>
  \<open>FindOne(filter).Decode(&doc)\<close>; \<open>UpdateOne(filter, {"$set": set})\<close> and \<open>DeleteOne\<close>, which return
  the matched and the deleted count; \<open>Find(filter, opts)\<close> together with \<open>cur.All\<close> (both failures
  are wrapped alike); and the predicate \<open>mongo.IsDuplicateKeyError\<close>.
\<close>

record 'd Collection =
  co_InsertOne :: "accountDoc \<Rightarrow> ('d, go_error, unit) op"
  co_FindOne :: "bsonM \<Rightarrow> ('d, go_error, accountDoc) op"
  co_UpdateOne :: "bsonM \<Rightarrow> bsonM \<Rightarrow> ('d, go_error, goint) op"
  co_DeleteOne :: "bsonM \<Rightarrow> ('d, go_error, goint) op"
  co_CountDocuments :: "bsonM \<Rightarrow> ('d, go_error, goint) op"
  co_FindAll :: "bsonM \<Rightarrow> (string \<times> int) list \<Rightarrow> goint option \<Rightarrow> goint option \<Rightarrow> ('d, go_error, accountDoc list) op"
  co_CreateMany :: "IndexModel list \<Rightarrow> ('d, go_error, unit) op"
  IsDuplicateKeyError :: "go_error \<Rightarrow> bool"

definition ErrNoDocuments :: go_error where
  "ErrNoDocuments = ErrorString ''mongo: no documents in result''"

section \<open>Repository\<close>

definition mongoCreate :: "'d Collection \<Rightarrow> account \<Rightarrow> ('d, go_error, string) op" where
  "mongoCreate c e =
     (let doc = toDoc e in
      andThen (mapErr (\<lambda>err. if IsDuplicateKeyError c err then App (Cause ErrAccountAlreadyExists err)
                             else App (Cause ErrInternal err))
                 (co_InsertOne c doc))
        (\<lambda>_. ret (d_ID doc)))"

definition findOne :: "'d Collection \<Rightarrow> bsonM \<Rightarrow> ('d, go_error, account ptr) op" where
  "findOne c flt =
     andThen (mapErr (\<lambda>err. if errorsIs err ErrNoDocuments then App (Cause ErrAccountNotFound err)
                            else App (Cause ErrInternal err))
                (co_FindOne c flt))
       (\<lambda>doc. ret (Some (docToDomain doc)))"

definition mongoGetByID :: "'d Collection \<Rightarrow> string \<Rightarrow> ('d, go_error, account ptr) op" where
  "mongoGetByID c i = findOne c [(''_id'', BText i)]"

definition mongoGetByEmail :: "'d Collection \<Rightarrow> string \<Rightarrow> ('d, go_error, account ptr) op" where
  "mongoGetByEmail c email = findOne c [(''email'', BText email)]"

definition mongoSet :: "UpdateAccountParams \<Rightarrow> bsonM" where
  "mongoSet p =
     (let set = [(''updated_at'', BTime (up_UpdatedAt p))];
          set = (case up_FirstName p of None \<Rightarrow> set | Some v \<Rightarrow> put ''first_name'' (BText v) set);
          set = (case up_LastName p of None \<Rightarrow> set | Some v \<Rightarrow> put ''last_name'' (BText v) set);
          set = (case up_Status p of None \<Rightarrow> set | Some v \<Rightarrow> put ''status'' (BInt v) set)
      in set)"

definition mongoUpdate :: "'d Collection \<Rightarrow> UpdateAccountParams \<Rightarrow> ('d, go_error, unit) op" where
  "mongoUpdate c p =
     andThen (mapErr (\<lambda>err. App (Cause ErrInternal err))
                (co_UpdateOne c [(''_id'', BText (up_ID p))] (mongoSet p)))
       (\<lambda>matchedCount. if matchedCount = 0 then throw (App ErrAccountNotFound) else ret ())"

definition mongoDelete :: "'d Collection \<Rightarrow> string \<Rightarrow> ('d, go_error, unit) op" where
  "mongoDelete c i =
     andThen (mapErr (\<lambda>err. App (Cause ErrInternal err)) (co_DeleteOne c [(''_id'', BText i)]))
       (\<lambda>deletedCount. if deletedCount = 0 then throw (App ErrAccountNotFound) else ret ())"

definition mongoFilter :: "ListAccountFilter \<Rightarrow> bsonM" where
  "mongoFilter f = (case lf_Status f of None \<Rightarrow> [] | Some st \<Rightarrow> put ''status'' (BInt st) [])"

definition mongoList :: "'d Collection \<Rightarrow> ListAccountFilter \<Rightarrow> ('d, go_error, account list \<times> goint) op" where
  "mongoList c f =
     andThen (mapErr (\<lambda>err. App (Cause ErrInternal err)) (co_CountDocuments c (mongoFilter f)))
       (\<lambda>total. andThen (mapErr (\<lambda>err. App (Cause ErrInternal err))
            (co_FindAll c (mongoFilter f) [(''created_at'', - 1)]
               (if sint (lf_Limit f) > 0 then Some (lf_Limit f) else None)
               (if sint (lf_Offset f) > 0 then Some (lf_Offset f) else None)))
          (\<lambda>docs. ret (append_all docToDomain docs, total)))"

definition accountIndexes :: "IndexModel list" where
  "accountIndexes =
     [\<lparr>ix_Keys = [(''email'', 1)], ix_Unique = True, ix_Name = ''uniq_email''\<rparr>,
      \<lparr>ix_Keys = [(''status'', 1)], ix_Unique = False, ix_Name = ''idx_status''\<rparr>]"

definition EnsureIndexes :: "'d Collection \<Rightarrow> ('d, go_error, unit) op" where
  "EnsureIndexes c =
     andThen (mapErr (\<lambda>err. App (Cause ErrInternal err)) (co_CreateMany c accountIndexes)) (\<lambda>_. ret ())"

definition mongoRepository :: "'d Collection \<Rightarrow> 'd AccountRepository" where
  "mongoRepository c =
     \<lparr>repo_Create = mongoCreate c, repo_GetByID = mongoGetByID c, repo_GetByEmail = mongoGetByEmail c,
      repo_Update = mongoUpdate c, repo_Delete = mongoDelete c, repo_List = mongoList c\<rparr>"

section \<open>What the code relies on of the driver\<close>

text \<open>BSON dates keep milliseconds.\<close>

definition millis :: "time \<Rightarrow> time" where
  "millis t = t div 1000000 * 1000000"

definition storedDoc :: "accountDoc \<Rightarrow> accountDoc" where
  "storedDoc d = d\<lparr>d_CreatedAt := millis (d_CreatedAt d), d_UpdatedAt := millis (d_UpdatedAt d),
                   d_DeletedAt := map_option millis (d_DeletedAt d)\<rparr>"

definition matchField :: "string \<times> bsonval \<Rightarrow> accountDoc \<Rightarrow> bool" where
  "matchField kv d = (case snd kv of
     BText v \<Rightarrow> (fst kv = ''_id'' \<and> d_ID d = v) \<or> (fst kv = ''email'' \<and> d_Email d = v)
   | BInt n \<Rightarrow> fst kv = ''status'' \<and> d_Status d = n
   | BTime t \<Rightarrow> False)"

definition matchDoc :: "bsonM \<Rightarrow> accountDoc \<Rightarrow> bool" where
  "matchDoc flt d = list_all (\<lambda>kv. matchField kv d) flt"

text \<open>\<open>$set\<close> on the fields the code sets, with the type each of them has.\<close>

definition settable :: "string \<times> bsonval \<Rightarrow> bool" where
  "settable kv = (case snd kv of
     BText v \<Rightarrow> fst kv = ''first_name'' \<or> fst kv = ''last_name''
   | BInt n \<Rightarrow> fst kv = ''status''
   | BTime t \<Rightarrow> fst kv = ''updated_at'')"

definition setField :: "string \<times> bsonval \<Rightarrow> accountDoc \<Rightarrow> accountDoc" where
  "setField kv d = (case snd kv of
     BText v \<Rightarrow> if fst kv = ''first_name'' then d\<lparr>d_FirstName := v\<rparr> else d\<lparr>d_LastName := v\<rparr>
   | BInt n \<Rightarrow> d\<lparr>d_Status := n\<rparr>
   | BTime t \<Rightarrow> d\<lparr>d_UpdatedAt := millis t\<rparr>)"

definition setDoc :: "bsonM \<Rightarrow> accountDoc \<Rightarrow> accountDoc" where
  "setDoc upd d = fold setField upd d"

definition inOrder :: "(string \<times> int) list \<Rightarrow> accountDoc list \<Rightarrow> bool" where
  "inOrder spec t = (case spec of
     [(k, d)] \<Rightarrow> k = ''created_at'' \<longrightarrow> sorted_wrt (\<lambda>x y. d * d_CreatedAt x \<le> d * d_CreatedAt y) t
   | _ \<Rightarrow> True)"

abbreviation docsView :: "accountDoc list \<Rightarrow> accounts" where
  "docsView \<equiv> rowsView d_ID docToDomain"

abbreviation wf_docs :: "accountDoc list \<Rightarrow> bool" where
  "wf_docs \<equiv> rowsWf d_ID d_Email"

text \<open>
  The fields that unique indexes cover, and when two documents may not both be in a collection:
  MongoDB keeps \<open>_id\<close> unique by itself, every other field only under such an index.
\<close>

definition uniqueFields :: "IndexModel list \<Rightarrow> string list" where
  "uniqueFields ixs = concat (map (\<lambda>ix. map fst (ix_Keys ix)) (filter ix_Unique ixs))"

definition sameKey :: "string list \<Rightarrow> accountDoc \<Rightarrow> accountDoc \<Rightarrow> bool" where
  "sameKey unique d d' \<longleftrightarrow> d_ID d = d_ID d' \<or> ''email'' \<in> set unique \<and> d_Email d = d_Email d'"

lemma uniqueFields_account [simp]: "uniqueFields accountIndexes = [''email'']"
  by (simp add: uniqueFields_def accountIndexes_def)

locale mongo_driver =
  fixes ixs :: "IndexModel list" and c :: "'d Collection" and docs :: "'d \<Rightarrow> accountDoc list"
  assumes unique_id: "distinct (map d_ID (docs s))"
    and unique_email: "''email'' \<in> set (uniqueFields ixs) \<Longrightarrow> distinct (map d_Email (docs s))"
    and inserted: "co_InsertOne c d s = (Inr u, s') \<Longrightarrow>
        \<not> list_ex (sameKey (uniqueFields ixs) d) (docs s) \<and> docs s' = docs s @ [storedDoc d]"
    and not_inserted: "co_InsertOne c d s = (Inl e, s') \<Longrightarrow>
        docs s' = docs s \<and> noApp e \<and> (IsDuplicateKeyError c e \<longrightarrow> list_ex (sameKey (uniqueFields ixs) d) (docs s))"
    and findone_ok: "co_FindOne c flt s = (Inr d, s') \<Longrightarrow>
        docs s' = docs s \<and> d \<in> set (docs s) \<and> matchDoc flt d"
    and findone_err: "co_FindOne c flt s = (Inl e, s') \<Longrightarrow>
        docs s' = docs s \<and> noApp e
        \<and> (errorsIs e ErrNoDocuments \<longrightarrow> (\<forall>d \<in> set (docs s). \<not> matchDoc flt d))"
    and update_ok: "co_UpdateOne c [(''_id'', BText i)] upd s = (Inr n, s') \<Longrightarrow> list_all settable upd \<Longrightarrow>
        n = word_of_nat (length (filter (\<lambda>d. d_ID d = i) (docs s)))
        \<and> docs s' = map (\<lambda>d. if d_ID d = i then setDoc upd d else d) (docs s)"
    and update_err: "co_UpdateOne c flt upd s = (Inl e, s') \<Longrightarrow> docs s' = docs s \<and> noApp e"
    and delete_ok: "co_DeleteOne c [(''_id'', BText i)] s = (Inr n, s') \<Longrightarrow>
        n = word_of_nat (length (filter (\<lambda>d. d_ID d = i) (docs s)))
        \<and> docs s' = filter (\<lambda>d. d_ID d \<noteq> i) (docs s)"
    and delete_err: "co_DeleteOne c flt s = (Inl e, s') \<Longrightarrow> docs s' = docs s \<and> noApp e"
    and count_ok: "co_CountDocuments c flt s = (Inr n, s') \<Longrightarrow>
        docs s' = docs s \<and> n = word_of_nat (length (filter (matchDoc flt) (docs s)))"
    and count_err: "co_CountDocuments c flt s = (Inl e, s') \<Longrightarrow> docs s' = docs s \<and> noApp e"
    and find_ok: "co_FindAll c flt spec lim skip s = (Inr ds, s') \<Longrightarrow>
        docs s' = docs s \<and> (\<exists>t. mset t = mset (filter (matchDoc flt) (docs s)) \<and> inOrder spec t
                               \<and> ds = page lim skip t)"
    and find_err: "co_FindAll c flt spec lim skip s = (Inl e, s') \<Longrightarrow> docs s' = docs s \<and> noApp e"

text \<open>
  A collection that has the indexes of \<open>accountIndexes\<close>.  \<open>EnsureIndexes\<close> builds them; nothing in
  the program calls it, so they are there only if something else has seen to it.
\<close>

locale account_collection = mongo_driver accountIndexes c docs
  for c :: "'d Collection" and docs :: "'d \<Rightarrow> accountDoc list"
begin

lemma constraints: "wf_docs (docs s)"
  using unique_id unique_email by (simp add: rowsWf_def)

lemma account_conflict: "list_ex (sameKey (uniqueFields accountIndexes) d) t \<longleftrightarrow> rowsConflict d_ID d_Email d t"
  by (simp add: rowsConflict_def sameKey_def list_ex_iff eq_commute)

lemma insert_ok: "co_InsertOne c d s = (Inr u, s') \<Longrightarrow>
    \<not> rowsConflict d_ID d_Email d (docs s) \<and> docs s' = docs s @ [storedDoc d]"
  unfolding account_conflict [symmetric] by (rule inserted)

lemma insert_err: "co_InsertOne c d s = (Inl e, s') \<Longrightarrow>
    docs s' = docs s \<and> noApp e \<and> (IsDuplicateKeyError c e \<longrightarrow> rowsConflict d_ID d_Email d (docs s))"
  unfolding account_conflict [symmetric] by (rule not_inserted)

end

definition mongoEnc :: "account \<Rightarrow> account" where
  "mongoEnc a = a\<lparr>CreatedAt := millis (CreatedAt a), UpdatedAt := millis (UpdatedAt a),
                  DeletedAt := map_option millis (DeletedAt a)\<rparr>"

definition mongoEncp :: "UpdateAccountParams \<Rightarrow> UpdateAccountParams" where
  "mongoEncp p = p\<lparr>up_UpdatedAt := millis (up_UpdatedAt p)\<rparr>"

interpretation mgt: account_rows d_ID d_Email docToDomain
  by unfold_locales simp_all

lemma docToDomain_stored: "docToDomain (storedDoc (toDoc a)) = mongoEnc a"
  by (simp add: docToDomain_def storedDoc_def toDoc_def mongoEnc_def)

lemma storedDoc_keys [simp]: "d_ID (storedDoc d) = d_ID d" "d_Email (storedDoc d) = d_Email d"
  by (simp_all add: storedDoc_def)

lemma settable_mongoSet [simp]: "list_all settable (mongoSet p)"
  by (auto simp: mongoSet_def settable_def Let_def split: option.split)

lemma setField_keys [simp]: "d_ID (setField kv d) = d_ID d" "d_Email (setField kv d) = d_Email d"
  by (simp_all add: setField_def split: bsonval.split)

lemma setDoc_keys [simp]: "d_ID (setDoc upd d) = d_ID d" "d_Email (setDoc upd d) = d_Email d"
proof -
  have "d_ID (setDoc upd d) = d_ID d \<and> d_Email (setDoc upd d) = d_Email d"
    unfolding setDoc_def by (induction upd arbitrary: d) auto
  then show "d_ID (setDoc upd d) = d_ID d" "d_Email (setDoc upd d) = d_Email d" by simp_all
qed

lemma setDoc_mongoSet: "docToDomain (setDoc (mongoSet p) d) = patch (mongoEncp p) (docToDomain d)"
  by (simp add: setDoc_def mongoSet_def setField_def docToDomain_def patch_def mongoEncp_def Let_def
      split: option.split)

lemma matchDoc_key [simp]:
  "matchDoc [(''_id'', BText i)] d \<longleftrightarrow> d_ID d = i" "matchDoc [(''email'', BText m)] d \<longleftrightarrow> d_Email d = m"
  by (simp_all add: matchDoc_def matchField_def)

lemma matchDoc_mongoFilter [simp]:
  "matchDoc (mongoFilter f) d \<longleftrightarrow> (case lf_Status f of None \<Rightarrow> True | Some st \<Rightarrow> d_Status d = st)"
  by (simp add: matchDoc_def matchField_def mongoFilter_def split: option.split)

end
