(* ===== verification/MongoContract.thy ===== *)
theory MongoContract
  imports MongoRepo
begin

text \<open>
  The MongoDB repository implements the repository contract over any collection that has the
  indexes of \<open>accountIndexes\<close>, and a concrete collection on which the locales are interpreted.
\<close>

section \<open>The contract\<close>

context account_collection
begin

lemma mongoCreate_ok:
  assumes "mongoCreate c a s = (Inr i, s')"
  shows "i = ID a \<and> docsView (docs s) (ID a) = None \<and> \<not> emailTaken (docsView (docs s)) (Email a)
    \<and> docsView (docs s') = (docsView (docs s))(ID a \<mapsto> mongoEnc a)"
proof -
  from assms obtain u where i: "i = ID a" and ins: "co_InsertOne c (toDoc a) s = (Inr u, s')"
    by (auto simp: mongoCreate_def elim!: andThen_InrE mapErr_InrE)
  from insert_ok [OF ins] show ?thesis
    using constraints [of s] mgt.view_append [of "storedDoc (toDoc a)" "docs s"] i
    by (simp add: mgt.conflict_iff mgt.view_None mgt.emailTaken_view docToDomain_stored)
qed

lemma mongoCreate_err:
  assumes "mongoCreate c a s = (Inl e, s')"
  shows "docs s' = docs s \<and> (errorsIs e (App ErrAccountAlreadyExists) \<longrightarrow>
    docsView (docs s) (ID a) \<noteq> None \<or> emailTaken (docsView (docs s)) (Email a))"
proof -
  from assms obtain e0 where ins: "co_InsertOne c (toDoc a) s = (Inl e0, s')"
    and e: "e = (if IsDuplicateKeyError c e0 then App (Cause ErrAccountAlreadyExists e0)
                 else App (Cause ErrInternal e0))"
    by (auto simp: mongoCreate_def elim!: andThen_InlE mapErr_InlE)
  from insert_err [OF ins] show ?thesis
    using constraints [of s] by (auto simp: e mgt.conflict_iff mgt.view_None mgt.emailTaken_view)
qed

lemma findOne_ok:
  "findOne c flt s = (Inr p, s') \<Longrightarrow>
     docs s' = docs s \<and> (\<exists>d \<in> set (docs s). matchDoc flt d \<and> p = Some (docToDomain d))"
  by (auto simp: findOne_def elim!: andThen_InrE mapErr_InrE dest!: findone_ok)

lemma findOne_err:
  "findOne c flt s = (Inl e, s') \<Longrightarrow>
     docs s' = docs s \<and> (errorsIs e (App ErrAccountNotFound) \<longrightarrow> (\<forall>d \<in> set (docs s). \<not> matchDoc flt d))"
  by (auto simp: findOne_def elim!: andThen_InlE mapErr_InlE dest!: findone_err split: if_splits)

lemma findOne_keeps: "keeps docs (findOne c flt)"
  by (rule keepsI, metis findOne_ok findOne_err sum.exhaust)

lemma mongoGetByID_ok:
  "mongoGetByID c i s = (Inr p, s') \<Longrightarrow> \<exists>a. p = Some a \<and> docsView (docs s) i = Some a"
  using mgt.view_Some [OF constraints, of s i] by (auto simp: mongoGetByID_def dest!: findOne_ok)

lemma mongoGetByID_notfound:
  "mongoGetByID c i s = (Inl e, s') \<Longrightarrow> errorsIs e (App ErrAccountNotFound) \<Longrightarrow> docsView (docs s) i = None"
  by (auto simp: mongoGetByID_def mgt.view_None dest!: findOne_err)

lemma mongoGetByEmail_ok:
  "mongoGetByEmail c m s = (Inr p, s') \<Longrightarrow> \<exists>a. p = Some a \<and> a \<in> ran (docsView (docs s)) \<and> Email a = m"
  using mgt.ran_view [OF constraints, of s] by (auto simp: mongoGetByEmail_def dest!: findOne_ok)

lemma mongoGetByEmail_notfound:
  "mongoGetByEmail c m s = (Inl e, s') \<Longrightarrow> errorsIs e (App ErrAccountNotFound) \<Longrightarrow>
     \<not> emailTaken (docsView (docs s)) m"
  using mgt.emailTaken_view [OF constraints, of s] by (auto simp: mongoGetByEmail_def dest!: findOne_err)

lemma mongoGetByEmail_no_conflict:
  "mongoGetByEmail c m s = (Inl e, s') \<Longrightarrow> \<not> errorsIs e (App ErrAccountAlreadyExists)"
  by (auto simp: mongoGetByEmail_def findOne_def elim!: andThen_InlE mapErr_InlE dest!: findone_err split: if_splits)

lemma update_view:
  assumes "co_UpdateOne c [(''_id'', BText (up_ID p))] (mongoSet p) s = (Inr n, s')"
  shows "docsView (docs s') = (case docsView (docs s) (up_ID p) of None \<Rightarrow> docsView (docs s)
           | Some a \<Rightarrow> (docsView (docs s))(up_ID p \<mapsto> patch (mongoEncp p) a))
    \<and> (n = 0 \<longleftrightarrow> docsView (docs s) (up_ID p) = None)"
proof -
  from update_ok [OF assms settable_mongoSet]
  have n: "n = word_of_nat (length (filter (\<lambda>d. d_ID d = up_ID p) (docs s)))"
    and d: "docs s' = map (\<lambda>d. if d_ID d = up_ID p then setDoc (mongoSet p) d else d) (docs s)" by auto
  have "docsView (docs s') = (case docsView (docs s) (up_ID p) of None \<Rightarrow> docsView (docs s)
      | Some a \<Rightarrow> (docsView (docs s))(up_ID p \<mapsto> patch (mongoEncp p) a))"
    unfolding d by (rule mgt.view_map) (simp_all add: setDoc_mongoSet)
  then show ?thesis unfolding n mgt.count_rid [OF constraints] by simp
qed

lemma mongoUpdate_ok:
  assumes "mongoUpdate c p s = (Inr u, s')"
  shows "\<exists>a. docsView (docs s) (up_ID p) = Some a
    \<and> docsView (docs s') = (docsView (docs s))(up_ID p \<mapsto> patch (mongoEncp p) a)"
proof -
  from assms obtain n where u: "co_UpdateOne c [(''_id'', BText (up_ID p))] (mongoSet p) s = (Inr n, s')"
    and "n \<noteq> 0"
    by (auto simp: mongoUpdate_def elim!: andThen_InrE mapErr_InrE split: if_splits)
  with update_view [OF u] show ?thesis by auto
qed

lemma mongoUpdate_err:
  "mongoUpdate c p s = (Inl e, s') \<Longrightarrow> docsView (docs s') = docsView (docs s)
     \<and> (errorsIs e (App ErrAccountNotFound) \<longrightarrow> docsView (docs s) (up_ID p) = None)"
  by (auto simp: mongoUpdate_def elim!: andThen_InlE mapErr_InlE mapErr_InrE split: if_splits
      dest!: update_err update_view)

lemma delete_view:
  assumes "co_DeleteOne c [(''_id'', BText i)] s = (Inr n, s')"
  shows "docsView (docs s') = (docsView (docs s))(i := None) \<and> (n = 0 \<longleftrightarrow> docsView (docs s) i = None)"
  using delete_ok [OF assms] mgt.count_rid [OF constraints] mgt.view_filter by metis

lemma mongoDelete_ok:
  "mongoDelete c i s = (Inr u, s') \<Longrightarrow>
     docsView (docs s) i \<noteq> None \<and> docsView (docs s') = (docsView (docs s))(i := None)"
  by (auto simp: mongoDelete_def elim!: andThen_InrE mapErr_InrE split: if_splits dest: delete_view)

lemma mongoDelete_err:
  "mongoDelete c i s = (Inl e, s') \<Longrightarrow> docsView (docs s') = docsView (docs s)
     \<and> (errorsIs e (App ErrAccountNotFound) \<longrightarrow> docsView (docs s) i = None)"
  by (auto simp: mongoDelete_def fun_upd_idem_iff elim!: andThen_InlE mapErr_InlE mapErr_InrE split: if_splits
      dest!: delete_err delete_view)

lemma mongoList_page:
  assumes "mongoList c f s = (Inr (as, n), s')"
  shows "docs s' = docs s \<and> n = word_of_nat (length (filter (matchDoc (mongoFilter f)) (docs s)))
    \<and> (\<exists>t. mset t = mset (filter (matchDoc (mongoFilter f)) (docs s))
         \<and> sorted_wrt (\<lambda>x y. d_CreatedAt x \<ge> d_CreatedAt y) t
         \<and> as = map docToDomain (page (if sint (lf_Limit f) > 0 then Some (lf_Limit f) else None)
                                      (if sint (lf_Offset f) > 0 then Some (lf_Offset f) else None) t))"
proof -
  let ?lim = "if sint (lf_Limit f) > 0 then Some (lf_Limit f) else None"
  let ?off = "if sint (lf_Offset f) > 0 then Some (lf_Offset f) else None"
  from assms obtain s1 ds where cnt: "co_CountDocuments c (mongoFilter f) s = (Inr n, s1)"
    and fnd: "co_FindAll c (mongoFilter f) [(''created_at'', - 1)] ?lim ?off s1 = (Inr ds, s')"
    and as: "as = map docToDomain ds"
    by (auto simp: mongoList_def elim!: andThen_InrE mapErr_InrE)
  from count_ok [OF cnt] find_ok [OF fnd] obtain t where
    "docs s' = docs s" "n = word_of_nat (length (filter (matchDoc (mongoFilter f)) (docs s)))"
    "mset t = mset (filter (matchDoc (mongoFilter f)) (docs s))" "ds = page ?lim ?off t"
    and "inOrder [(''created_at'', - 1)] t"
    by auto
  moreover have "sorted_wrt (\<lambda>x y. d_CreatedAt x \<ge> d_CreatedAt y) t"
    using \<open>inOrder _ t\<close> by (simp add: inOrder_def)
  ultimately show ?thesis using as by blast
qed

lemma mongoList_keeps: "keeps docs (mongoList c f)"
proof -
  have "keeps docs (co_CountDocuments c flt)" "keeps docs (co_FindAll c flt spec l o')" for flt spec l o'
    by (rule keepsI, metis count_ok count_err sum.exhaust,
        rule keepsI, metis find_ok find_err sum.exhaust)
  then show ?thesis by (auto simp: mongoList_def intro!: keeps_intros)
qed

lemma mongoList_sound:
  assumes "mongoList c f s = (Inr (as, n), s')" "a \<in> set as"
  shows "a \<in> ran (docsView (docs s)) \<and> (\<forall>st. lf_Status f = Some st \<longrightarrow> Status a = st)"
proof -
  from mongoList_page [OF assms(1)] assms(2) obtain t d where
    t: "mset t = mset (filter (matchDoc (mongoFilter f)) (docs s))" and d: "d \<in> set t" "a = docToDomain d"
    using page_subset by fastforce
  then have "d \<in> set (filter (matchDoc (mongoFilter f)) (docs s))" by (metis mset_eq_setD)
  with d(2) show ?thesis by (auto simp: mgt.ran_view [OF constraints])
qed

lemma mongo_implements_port_o: "account_repository (mongoRepository c) (docsView \<circ> docs) mongoEnc mongoEncp"
proof unfold_locales
  show "keeps (docsView \<circ> docs) (repo_GetByID (mongoRepository c) i)"
    "keeps (docsView \<circ> docs) (repo_GetByEmail (mongoRepository c) i)"
    "keeps (docsView \<circ> docs) (repo_List (mongoRepository c) f)" for i f
    using findOne_keeps mongoList_keeps
    by (simp_all add: keeps_def mongoRepository_def mongoGetByID_def mongoGetByEmail_def)
qed (simp_all add: mongoRepository_def mongoUpdate_ok mongoUpdate_err mongoDelete_err mongoGetByID_ok
       mongoGetByEmail_ok mongoGetByEmail_no_conflict mongoGetByID_notfound mongoGetByEmail_notfound mongoCreate_ok mongoCreate_err
       mongoDelete_ok,
     auto simp: mongoEnc_def mongoEncp_def
       dest: mongoDelete_ok mongoList_sound mongoCreate_err mongoUpdate_err mongoDelete_err)

end

sublocale account_collection \<subseteq> mongo: account_repository "mongoRepository c" "docsView \<circ> docs" mongoEnc mongoEncp
  by (rule mongo_implements_port_o)

section \<open>A concrete collection\<close>

typedef docset = "{t. wf_docs t}"
  morphisms docList mkDocs
proof
  show "[] \<in> {t. wf_docs t}" by simp
qed

setup_lifting type_definition_docset

lemma wf_docList [simp]: "wf_docs (docList t)"
  using docList [of t] by simp

lemma docList_mkDocs [simp]: "wf_docs t \<Longrightarrow> docList (mkDocs t) = t"
  by (simp add: mkDocs_inverse)

record mongod =
  mg_docs :: docset
  mg_up :: bool  \<comment> \<open>whether the server can be reached\<close>

definition mgRows :: "mongod \<Rightarrow> accountDoc list" where
  "mgRows s = docList (mg_docs s)"

definition whenUp :: "(mongod, go_error, 'a) op \<Rightarrow> (mongod, go_error, 'a) op" where
  "whenUp m = (\<lambda>s. if mg_up s then m s else (Inl (DriverErr ''server selection timeout''), s))"

definition dupKey :: go_error where
  "dupKey = DriverErr ''E11000''"

definition mgInsertOne :: "accountDoc \<Rightarrow> (mongod, go_error, unit) op" where
  "mgInsertOne d = whenUp (\<lambda>s.
     if rowsConflict d_ID d_Email d (mgRows s) then (Inl dupKey, s)
     else (Inr (), s\<lparr>mg_docs := mkDocs (mgRows s @ [storedDoc d])\<rparr>))"

definition mgFindOne :: "bsonM \<Rightarrow> (mongod, go_error, accountDoc) op" where
  "mgFindOne flt = whenUp (\<lambda>s.
     case filter (matchDoc flt) (mgRows s) of [] \<Rightarrow> (Inl ErrNoDocuments, s) | d # _ \<Rightarrow> (Inr d, s))"

definition idOf :: "bsonM \<Rightarrow> string" where
  "idOf flt = (case flt of [(_, BText i)] \<Rightarrow> i | _ \<Rightarrow> [])"

definition mgUpdateOne :: "bsonM \<Rightarrow> bsonM \<Rightarrow> (mongod, go_error, goint) op" where
  "mgUpdateOne flt upd = whenUp (\<lambda>s.
     (Inr (word_of_nat (length (filter (\<lambda>d. d_ID d = idOf flt) (mgRows s)))),
      s\<lparr>mg_docs := mkDocs (map (\<lambda>d. if d_ID d = idOf flt then setDoc upd d else d) (mgRows s))\<rparr>))"

definition mgDeleteOne :: "bsonM \<Rightarrow> (mongod, go_error, goint) op" where
  "mgDeleteOne flt = whenUp (\<lambda>s.
     (Inr (word_of_nat (length (filter (\<lambda>d. d_ID d = idOf flt) (mgRows s)))),
      s\<lparr>mg_docs := mkDocs (filter (\<lambda>d. d_ID d \<noteq> idOf flt) (mgRows s))\<rparr>))"

definition mgCount :: "bsonM \<Rightarrow> (mongod, go_error, goint) op" where
  "mgCount flt = whenUp (\<lambda>s. (Inr (word_of_nat (length (filter (matchDoc flt) (mgRows s)))), s))"

definition sortDocs :: "(string \<times> int) list \<Rightarrow> accountDoc list \<Rightarrow> accountDoc list" where
  "sortDocs spec t = (case spec of [(k, d)] \<Rightarrow> sort_key (\<lambda>x. d * d_CreatedAt x) t | _ \<Rightarrow> t)"

definition mgFindAll ::
    "bsonM \<Rightarrow> (string \<times> int) list \<Rightarrow> goint option \<Rightarrow> goint option \<Rightarrow> (mongod, go_error, accountDoc list) op" where
  "mgFindAll flt spec lim skip = whenUp (\<lambda>s.
     (Inr (page lim skip (sortDocs spec (filter (matchDoc flt) (mgRows s)))), s))"

definition mgColl :: "mongod Collection" where
  "mgColl = \<lparr>co_InsertOne = mgInsertOne, co_FindOne = mgFindOne, co_UpdateOne = mgUpdateOne,
     co_DeleteOne = mgDeleteOne, co_CountDocuments = mgCount, co_FindAll = mgFindAll,
     co_CreateMany = (\<lambda>_. whenUp (ret ())), IsDuplicateKeyError = (\<lambda>e. e = dupKey)\<rparr>"

lemma mset_sortDocs [simp]: "mset (sortDocs spec t) = mset t"
  by (auto simp: sortDocs_def split: list.split prod.split)

lemma inOrder_sortDocs: "inOrder spec (sortDocs spec t)"
proof -
  have "sorted_wrt (\<lambda>x y. d * d_CreatedAt x \<le> d * d_CreatedAt y) (sort_key (\<lambda>x. d * d_CreatedAt x) t)" for d
    using sorted_sort_key [of "\<lambda>x. d * d_CreatedAt x" t] by (simp add: sorted_map)
  then show ?thesis by (auto simp: inOrder_def sortDocs_def split: list.split prod.split)
qed

lemma whenUp_cases:
  assumes "whenUp m s = (x, s')"
  obtains (down) "x = Inl (DriverErr ''server selection timeout'')" "s' = s"
    | (up) "m s = (x, s')"
proof (cases "mg_up s")
  case True
  with assms have "m s = (x, s')" by (simp add: whenUp_def)
  then show thesis by (rule up)
next
  case False
  with assms have "x = Inl (DriverErr ''server selection timeout'')" "s' = s"
    by (simp_all add: whenUp_def)
  then show thesis by (rule down)
qed

lemma conflict_stored [simp]: "rowsConflict d_ID d_Email (storedDoc d) t \<longleftrightarrow> rowsConflict d_ID d_Email d t"
  by (simp add: rowsConflict_def)

lemmas mg_defs = mgInsertOne_def mgFindOne_def mgUpdateOne_def mgDeleteOne_def mgCount_def mgFindAll_def

lemma mgColl_simps [simp]:
  "co_InsertOne mgColl = mgInsertOne" "co_FindOne mgColl = mgFindOne" "co_UpdateOne mgColl = mgUpdateOne"
  "co_DeleteOne mgColl = mgDeleteOne" "co_CountDocuments mgColl = mgCount" "co_FindAll mgColl = mgFindAll"
  "IsDuplicateKeyError mgColl e \<longleftrightarrow> e = dupKey"
  by (simp_all add: mgColl_def)

lemma sameKey_account: "list_ex (sameKey (uniqueFields accountIndexes) d) t \<longleftrightarrow> rowsConflict d_ID d_Email d t"
  by (simp add: rowsConflict_def sameKey_def list_ex_iff eq_commute)

interpretation mgd: account_collection mgColl mgRows
proof unfold_locales
  have "wf_docs (mgRows s)" for s by (simp add: mgRows_def)
  then show "distinct (map d_ID (mgRows s))" "distinct (map d_Email (mgRows s))" for s by (simp_all add: rowsWf_def)
next
  fix flt spec lim skip s ds s' assume "co_FindAll mgColl flt spec lim skip s = (Inr ds, s')"
  then have "mgFindAll flt spec lim skip s = (Inr ds, s')" by simp
  then show "mgRows s' = mgRows s
      \<and> (\<exists>t. mset t = mset (filter (matchDoc flt) (mgRows s)) \<and> inOrder spec t \<and> ds = page lim skip t)"
    unfolding mgFindAll_def
    by (cases rule: whenUp_cases)
      (auto intro!: exI [of _ "sortDocs spec (filter (matchDoc flt) (mgRows s))"] inOrder_sortDocs)
next
  fix d s u s' assume "co_InsertOne mgColl d s = (Inr u, s')"
  then have "mgInsertOne d s = (Inr u, s')" by simp
  then show "\<not> list_ex (sameKey (uniqueFields accountIndexes) d) (mgRows s) \<and> mgRows s' = mgRows s @ [storedDoc d]"
    unfolding sameKey_account mgInsertOne_def by (cases rule: whenUp_cases) (auto simp: mgRows_def idOf_def mgt.wf_append conflict_stored split: if_splits list.splits)
next
  fix d s e s' assume "co_InsertOne mgColl d s = (Inl e, s')"
  then have "mgInsertOne d s = (Inl e, s')" by simp
  then show "mgRows s' = mgRows s \<and> noApp e \<and> (IsDuplicateKeyError mgColl e \<longrightarrow> list_ex (sameKey (uniqueFields accountIndexes) d) (mgRows s))"
    unfolding sameKey_account mgInsertOne_def by (cases rule: whenUp_cases) (auto simp: mgRows_def idOf_def dupKey_def split: if_splits list.splits)
next
  fix flt s d s' assume "co_FindOne mgColl flt s = (Inr d, s')"
  then have "mgFindOne flt s = (Inr d, s')" by simp
  then show "mgRows s' = mgRows s \<and> d \<in> set (mgRows s) \<and> matchDoc flt d"
    unfolding mgFindOne_def by (cases rule: whenUp_cases) (auto simp: mgRows_def idOf_def filter_eq_Cons_iff split: if_splits list.splits)
next
  fix flt s e s' assume "co_FindOne mgColl flt s = (Inl e, s')"
  then have "mgFindOne flt s = (Inl e, s')" by simp
  then show "mgRows s' = mgRows s \<and> noApp e \<and> (errorsIs e ErrNoDocuments \<longrightarrow> (\<forall>d \<in> set (mgRows s). \<not> matchDoc flt d))"
    unfolding mgFindOne_def by (cases rule: whenUp_cases) (auto simp: mgRows_def idOf_def ErrNoDocuments_def filter_empty_conv split: if_splits list.splits)
next
  fix i upd s n s' assume "co_UpdateOne mgColl [(''_id'', BText i)] upd s = (Inr n, s')"
  then have "mgUpdateOne [(''_id'', BText i)] upd s = (Inr n, s')" by simp
  then show "n = word_of_nat (length (filter (\<lambda>d. d_ID d = i) (mgRows s))) \<and> mgRows s' = map (\<lambda>d. if d_ID d = i then setDoc upd d else d) (mgRows s)"
    unfolding mgUpdateOne_def by (cases rule: whenUp_cases) (auto simp: mgRows_def idOf_def mgt.wf_map split: if_splits list.splits)
next
  fix flt upd s e s' assume "co_UpdateOne mgColl flt upd s = (Inl e, s')"
  then have "mgUpdateOne flt upd s = (Inl e, s')" by simp
  then show "mgRows s' = mgRows s \<and> noApp e"
    unfolding mgUpdateOne_def by (cases rule: whenUp_cases) (auto simp: mgRows_def idOf_def split: if_splits list.splits)
next
  fix i s n s' assume "co_DeleteOne mgColl [(''_id'', BText i)] s = (Inr n, s')"
  then have "mgDeleteOne [(''_id'', BText i)] s = (Inr n, s')" by simp
  then show "n = word_of_nat (length (filter (\<lambda>d. d_ID d = i) (mgRows s))) \<and> mgRows s' = filter (\<lambda>d. d_ID d \<noteq> i) (mgRows s)"
    unfolding mgDeleteOne_def by (cases rule: whenUp_cases) (auto simp: mgRows_def idOf_def mgt.wf_filter split: if_splits list.splits)
next
  fix flt s e s' assume "co_DeleteOne mgColl flt s = (Inl e, s')"
  then have "mgDeleteOne flt s = (Inl e, s')" by simp
  then show "mgRows s' = mgRows s \<and> noApp e"
    unfolding mgDeleteOne_def by (cases rule: whenUp_cases) (auto simp: mgRows_def idOf_def split: if_splits list.splits)
next
  fix flt s n s' assume "co_CountDocuments mgColl flt s = (Inr n, s')"
  then have "mgCount flt s = (Inr n, s')" by simp
  then show "mgRows s' = mgRows s \<and> n = word_of_nat (length (filter (matchDoc flt) (mgRows s)))"
    unfolding mgCount_def by (cases rule: whenUp_cases) (auto simp: mgRows_def idOf_def split: if_splits list.splits)
next
  fix flt s e s' assume "co_CountDocuments mgColl flt s = (Inl e, s')"
  then have "mgCount flt s = (Inl e, s')" by simp
  then show "mgRows s' = mgRows s \<and> noApp e"
    unfolding mgCount_def by (cases rule: whenUp_cases) (auto simp: mgRows_def idOf_def split: if_splits list.splits)
next
  fix flt spec lim skip s e s' assume "co_FindAll mgColl flt spec lim skip s = (Inl e, s')"
  then have "mgFindAll flt spec lim skip s = (Inl e, s')" by simp
  then show "mgRows s' = mgRows s \<and> noApp e"
    unfolding mgFindAll_def by (cases rule: whenUp_cases) (auto simp: mgRows_def idOf_def split: if_splits list.splits)
qed

section \<open>Properties\<close>

text \<open>
  C19: over every driver of a collection that has the indexes of accountIndexes, the MongoDB
  repository implements the same repository port as the SQL ones; what is stored is the entity
  with times cut to milliseconds and the status at full width.  The indexes are a condition:
  EnsureIndexes builds them, and nothing in the program calls it.
\<close>

theorem mongo_implements_port:
  "mongo_driver accountIndexes c docs \<Longrightarrow> account_repository (mongoRepository c) (docsView \<circ> docs) mongoEnc mongoEncp"
  by (rule account_collection.mongo_implements_port_o [OF account_collection.intro])

theorem mongo_implements_port_witness:
  "account_repository (mongoRepository mgColl) (docsView \<circ> mgRows) mongoEnc mongoEncp"
  by (rule mongo_implements_port) (rule mgd.mongo_driver_axioms)

text \<open>
  What List of the MongoDB backend returns: with a positive limit, the first limit
  documents with the requested status after the offset, newest first; without one, all of
  them; and the number of all documents with that status.
\<close>

lemma mongo_list_page:
  assumes "account_collection c docs" "mongoList c f s = (Inr (as, n), s')"
  shows "sorted_wrt (\<lambda>a b. CreatedAt a \<ge> CreatedAt b) as
    \<and> (\<forall>a \<in> set as. lf_Status f = None \<or> lf_Status f = Some (Status a))
    \<and> n = word_of_nat (length (filter (matchDoc (mongoFilter f)) (docs s)))
    \<and> length as = (let m = length (filter (matchDoc (mongoFilter f)) (docs s)) - nat (max 0 (sint (lf_Offset f)))
                   in if sint (lf_Limit f) > 0 then min (nat (sint (lf_Limit f))) m else m)"
proof -
  let ?F = "filter (matchDoc (mongoFilter f)) (docs s)"
  let ?lim = "if sint (lf_Limit f) > 0 then Some (lf_Limit f) else None"
  let ?off = "if sint (lf_Offset f) > 0 then Some (lf_Offset f) else None"
  from account_collection.mongoList_page [OF assms] obtain t where
    n: "n = word_of_nat (length ?F)" and t: "mset t = mset ?F"
    and srt: "sorted_wrt (\<lambda>x y. d_CreatedAt x \<ge> d_CreatedAt y) t"
    and as: "as = map docToDomain (page ?lim ?off t)"
    by blast
  have len: "length t = length ?F" using t by (rule mset_eq_length)
  have "sorted_wrt (\<lambda>x y. d_CreatedAt x \<ge> d_CreatedAt y) (page ?lim ?off t)"
    using srt by (simp add: page_def sorted_wrt_take sorted_wrt_drop)
  then have 1: "sorted_wrt (\<lambda>a b. CreatedAt a \<ge> CreatedAt b) as"
    by (simp add: as sorted_wrt_map docToDomain_def)
  have 2: "\<forall>a \<in> set as. lf_Status f = None \<or> lf_Status f = Some (Status a)"
    using account_collection.mongoList_sound [OF assms] by (cases "lf_Status f") auto
  have 3: "length as = (let m = length ?F - nat (max 0 (sint (lf_Offset f)))
                   in if sint (lf_Limit f) > 0 then min (nat (sint (lf_Limit f))) m else m)"
    by (simp add: as page_def len Let_def max_def min.commute)
  from 1 2 3 n show ?thesis by blast
qed

lemma mongo_list_page_example:
  "\<exists>as n. fst (mongoList mgColl \<lparr>lf_Status = None, lf_Limit = 1, lf_Offset = 0\<rparr>
       \<lparr>mg_docs = mkDocs [toDoc sampleAccount, (toDoc sampleAccount)\<lparr>d_ID := ''b'', d_Email := ''b''\<rparr>], mg_up = True\<rparr>)
     = Inr (as, n) \<and> length as = 1 \<and> n = 2"
proof -
  let ?f = "\<lparr>lf_Status = None, lf_Limit = 1, lf_Offset = 0\<rparr>"
  let ?s = "\<lparr>mg_docs = mkDocs [toDoc sampleAccount, (toDoc sampleAccount)\<lparr>d_ID := ''b'', d_Email := ''b''\<rparr>], mg_up = True\<rparr>"
  have rows: "mgRows ?s = [toDoc sampleAccount, (toDoc sampleAccount)\<lparr>d_ID := ''b'', d_Email := ''b''\<rparr>]"
    by (simp add: mgRows_def rowsWf_def sampleAccount_def)
  have "\<exists>as n s'. mongoList mgColl ?f ?s = (Inr (as, n), s')"
    by (simp add: mongoList_def mg_defs whenUp_def andThen_def mapErr_def)
  then obtain as n s' where r: "mongoList mgColl ?f ?s = (Inr (as, n), s')" by blast
  from mongo_list_page [OF mgd.account_collection_axioms r] rows
  have "n = 2" "length as = 1" by simp_all
  with r show ?thesis by simp
qed

end
