(* ===== verification/World.thy ===== *)
theory World
  imports CachedRepo GormContract MongoContract
begin

text \<open>
  One concrete state for a running application: the database of the chosen backend, the cache,
  the rate limiter's buckets and the log.  Operations of a component are lifted to it, the
  contracts survive the lifting, and the cached repository over the GORM, pgx and MongoDB
  backends interprets the locales of the decorator.
\<close>

section \<open>State and lifting\<close>

record 'd world =
  w_db :: 'd
  w_cache :: "account ptr memstore"
  w_buckets :: "(string \<times> int) list"  \<comment> \<open>requests spent per limiter key\<close>
  w_commits :: "string option list"  \<comment> \<open>the outcomes of the commits to come; exhausted means success\<close>
  w_log :: "(string \<times> go_error) list"

definition put_db :: "'d \<Rightarrow> 'd world \<Rightarrow> 'd world" where
  "put_db p w = w\<lparr>w_db := p\<rparr>"

definition put_cache :: "account ptr memstore \<Rightarrow> 'd world \<Rightarrow> 'd world" where
  "put_cache p w = w\<lparr>w_cache := p\<rparr>"

definition warn :: "string \<Rightarrow> go_error \<Rightarrow> 'd world \<Rightarrow> 'd world" where
  "warn k e w = w\<lparr>w_log := w_log w @ [(k, e)]\<rparr>"

lemma world_parts [simp]:
  "w_db (put_db p w) = p" "w_cache (put_db p w) = w_cache w" "w_buckets (put_db p w) = w_buckets w"
  "w_log (put_db p w) = w_log w" "w_commits (put_db p w) = w_commits w" "w_commits (put_cache c w) = w_commits w"
  "w_db (put_cache c w) = w_db w" "w_cache (put_cache c w) = c" "w_buckets (put_cache c w) = w_buckets w"
  "w_log (put_cache c w) = w_log w"
  "w_db (warn k e w) = w_db w" "w_cache (warn k e w) = w_cache w"
  "w_log (warn k e w) = w_log w @ [(k, e)]"
  by (simp_all add: put_db_def put_cache_def warn_def)

definition liftRepo :: "'d AccountRepository \<Rightarrow> 'd world AccountRepository" where
  "liftRepo r = \<lparr>repo_Create = (\<lambda>a. onPart w_db put_db (repo_Create r a)),
     repo_GetByID = (\<lambda>i. onPart w_db put_db (repo_GetByID r i)),
     repo_GetByEmail = (\<lambda>m. onPart w_db put_db (repo_GetByEmail r m)),
     repo_Update = (\<lambda>p. onPart w_db put_db (repo_Update r p)),
     repo_Delete = (\<lambda>i. onPart w_db put_db (repo_Delete r i)),
     repo_List = (\<lambda>f. onPart w_db put_db (repo_List r f))\<rparr>"

interpretation dbPart: store_part w_db put_db
  by unfold_locales (simp_all add: put_db_def)

lemma liftRepo_repoOn: "liftRepo r = repoOn w_db put_db r"
  by (simp add: liftRepo_def repoOn_def)

lemma onPart_db:
  assumes "onPart w_db put_db m s = (x, s')"
  shows "m (w_db s) = (x, w_db s') \<and> s' = put_db (w_db s') s"
  using assms by (auto simp: onPart_def split: prod.splits)

lemma keeps_onPart_db:
  "keeps v m \<Longrightarrow> keeps (v \<circ> w_db) (onPart w_db put_db m)" "keeps w_cache (onPart w_db put_db m)"
  by (auto simp: keeps_def onPart_def split: prod.splits dest: spec [of _ "w_db _"])
    (metis snd_conv)

context account_repository
begin

lemma lifted: "account_repository (liftRepo r) (view \<circ> w_db) enc encp"
  unfolding liftRepo_repoOn by (rule on_part) (rule dbPart.store_part_axioms)

lemma lifted_keeps_cache:
  "keeps w_cache (repo_Create (liftRepo r) a)" "keeps w_cache (repo_GetByID (liftRepo r) i)"
  "keeps w_cache (repo_GetByEmail (liftRepo r) m)" "keeps w_cache (repo_Update (liftRepo r) p)"
  "keeps w_cache (repo_Delete (liftRepo r) i)" "keeps w_cache (repo_List (liftRepo r) f)"
  by (simp_all add: liftRepo_def keeps_onPart_db)

end

section \<open>The cached repository over a backend\<close>

abbreviation worldCache :: "('d world, account ptr) LibCache" where
  "worldCache \<equiv> memCache w_cache put_cache"

definition worldDeps :: "'d AccountRepository \<Rightarrow> duration \<Rightarrow> 'd world cachedDeps" where
  "worldDeps r ttl = \<lparr>cd_inner = liftRepo r, cd_cache = cacheManager worldCache, cd_ttl = ttl, cd_log = warn\<rparr>"

definition worldRepo :: "(string \<Rightarrow> string) \<Rightarrow> 'd AccountRepository \<Rightarrow> duration \<Rightarrow> 'd world AccountRepository" where
  "worldRepo uni r ttl = cachedRepository uni (worldDeps r ttl)"

text \<open>The provider of the composition root (\<open>apps/provider.go\<close>): the backend behind the cache.\<close>

definition accountCacheTTL :: duration where
  "accountCacheTTL = 5 * Minute"

definition NewAccountRepository ::
    "(string \<Rightarrow> string) \<Rightarrow> 's AccountRepository \<Rightarrow> ('s, account ptr) CacheManager
       \<Rightarrow> (string \<Rightarrow> go_error \<Rightarrow> 's \<Rightarrow> 's) \<Rightarrow> 's AccountRepository" where
  "NewAccountRepository uni gormrepo cache lg =
     cachedRepository uni \<lparr>cd_inner = gormrepo, cd_cache = cache, cd_ttl = accountCacheTTL, cd_log = lg\<rparr>"

lemma worldRepo_wired:
  "worldRepo uni r accountCacheTTL = NewAccountRepository uni (liftRepo r) (cacheManager worldCache) warn"
  by (simp add: worldRepo_def worldDeps_def NewAccountRepository_def)

abbreviation asciiOnly :: "string \<Rightarrow> string" where
  "asciiOnly \<equiv> id"  \<comment> \<open>a table of case mappings beyond ASCII that maps nothing\<close>

lemma world_coherent_backend:
  assumes "account_repository r view enc encp"
  shows "coherent_backend (liftRepo r) (view \<circ> w_db) enc encp worldCache (live \<circ> w_cache) (worldDeps r ttl)"
proof -
  have repo: "account_repository (liftRepo r) (view \<circ> w_db) enc encp"
    using assms by (rule account_repository.lifted)
  then have writes: "account_writes (liftRepo r) (view \<circ> w_db) enc encp"
    by (rule account_repository.axioms)
  have kv: "kv_cache worldCache (live \<circ> w_cache) (view \<circ> w_db)"
    by (rule memCache_kv) simp_all
  have k: "keeps (live \<circ> w_cache) m" if "keeps w_cache m" for m :: "('a world, go_error, 'x) op"
    using that by (simp add: keeps_def)
  have "cached_backend (liftRepo r) (view \<circ> w_db) enc encp worldCache (live \<circ> w_cache) (worldDeps r ttl)"
    by (intro cached_backend.intro writes kv cached_backend_axioms.intro k
        account_repository.lifted_keeps_cache [OF assms])
      (simp_all add: worldDeps_def)
  with repo show ?thesis by (intro coherent_backend.intro)
qed

interpretation cachedGorm: coherent_backend "liftRepo (gormRepository pgGorm)" "(tableView \<circ> pgRows) \<circ> w_db"
    gormEnc gormEncp worldCache "live \<circ> w_cache" asciiOnly "worldDeps (gormRepository pgGorm) accountCacheTTL"
  by (rule world_coherent_backend) (rule pgg.gorm.account_repository_axioms)

section \<open>Runs of the cached repository\<close>

text \<open>Any caller, any order of calls, and time passing between them.\<close>

inductive repoStep :: "'d world AccountRepository \<Rightarrow> 'd world \<Rightarrow> 'd world \<Rightarrow> bool" for R where
  create: "repo_Create R a s = (x, s') \<Longrightarrow> repoStep R s s'"
| getID: "repo_GetByID R i s = (y, s') \<Longrightarrow> repoStep R s s'"
| getEmail: "repo_GetByEmail R m s = (y, s') \<Longrightarrow> repoStep R s s'"
| update: "repo_Update R p s = (u, s') \<Longrightarrow> repoStep R s s'"
| delete: "repo_Delete R i s = (u, s') \<Longrightarrow> repoStep R s s'"
| list: "repo_List R f s = (l, s') \<Longrightarrow> repoStep R s s'"
| tick: "0 \<le> dt \<Longrightarrow> repoStep R s (put_cache ((w_cache s)\<lparr>ms_now := ms_now (w_cache s) + dt\<rparr>) s)"

inductive_cases repoStepE: "repoStep R s s'"

lemma live_tick: "0 \<le> dt \<Longrightarrow> live (c\<lparr>ms_now := ms_now c + dt\<rparr>) \<subseteq>\<^sub>m live c"
  by (auto simp: map_le_def live_def split: option.splits if_splits)

text \<open>The log only grows, and only by failed evictions.\<close>

lemma memCache_keeps_log:
  "keeps w_log (lc_Get worldCache k)" "keeps w_log (lc_Set worldCache k v t)" "keeps w_log (lc_Delete worldCache k)"
  by (auto simp: keeps_def memCache_def onPart_def split: prod.splits)

definition logGrows :: "('d world, 'e, 'a) op \<Rightarrow> bool" where
  "logGrows m \<longleftrightarrow> (\<forall>s. \<exists>l. w_log (snd (m s)) = w_log s @ l)"

lemma logGrows_keeps: "keeps w_log m \<Longrightarrow> logGrows m"
  by (simp add: keeps_def logGrows_def)

lemma logGrows_andThen: "logGrows m \<Longrightarrow> (\<And>a. logGrows (k a)) \<Longrightarrow> logGrows (andThen m k)"
  unfolding logGrows_def
proof (intro allI)
  fix s assume m: "\<forall>s. \<exists>l. w_log (snd (m s)) = w_log s @ l" and k: "\<And>a. \<forall>s. \<exists>l. w_log (snd (k a s)) = w_log s @ l"
  obtain x s1 where ms: "m s = (x, s1)" by fastforce
  with m obtain l where l: "w_log s1 = w_log s @ l" by (metis snd_conv)
  show "\<exists>l. w_log (snd (andThen m k s)) = w_log s @ l"
  proof (cases x)
    case (Inr a)
    from k [of a] obtain l' where "w_log (snd (k a s1)) = w_log s1 @ l'" by blast
    with ms Inr l show ?thesis by simp
  qed (use ms l in simp)
qed

lemma keeps_log_lift: "keeps w_log (onPart w_db put_db m)"
  by (auto simp: keeps_def onPart_def split: prod.splits)

lemma logGrows_GetOnce: "keeps w_log loader \<Longrightarrow> logGrows (GetOnce worldCache k loader ttl)"
proof (rule logGrows_keeps, rule keepsI)
  fix s x s' assume l: "keeps w_log loader" and g: "GetOnce worldCache k loader ttl s = (x, s')"
  have "keeps w_log (andThen loader (\<lambda>v. andThen (lc_Set worldCache k v ttl) (\<lambda>_. ret v)))"
    by (intro keeps_intros l memCache_keeps_log)
  then show "w_log s' = w_log s"
    using g keepsD [OF memCache_keeps_log(1) [of k], of s]
    by (auto simp: GetOnce_def split: prod.splits sum.splits dest: keepsD)
qed

lemma logGrows_invalidate: "logGrows (invalidate (worldDeps r ttl) k)"
  unfolding logGrows_def
proof
  fix s :: "'a world"
  obtain x s' where d: "lc_Delete worldCache k s = (x, s')" by fastforce
  with memCache_keeps_log(3) have "w_log s' = w_log s" by (rule keepsD)
  with d show "\<exists>l. w_log (snd (invalidate (worldDeps r ttl) k s)) = w_log s @ l"
    by (cases x) (simp_all add: invalidate_def worldDeps_def)
qed

lemma worldRepo_logGrows:
  "logGrows (repo_Create (worldRepo uni r ttl) a)" "logGrows (repo_GetByID (worldRepo uni r ttl) i)"
  "logGrows (repo_GetByEmail (worldRepo uni r ttl) m)" "logGrows (repo_Update (worldRepo uni r ttl) p)"
  "logGrows (repo_Delete (worldRepo uni r ttl) i)" "logGrows (repo_List (worldRepo uni r ttl) f)"
proof -
  have deps: "cd_inner (worldDeps r ttl) = liftRepo r" "cd_cache (worldDeps r ttl) = cacheManager worldCache"
    by (simp_all add: worldDeps_def)
  have inner: "keeps w_log (repo_Create (liftRepo r) a)" "keeps w_log (repo_GetByID (liftRepo r) i)"
    "keeps w_log (repo_GetByEmail (liftRepo r) m)" "keeps w_log (repo_Update (liftRepo r) p)"
    "keeps w_log (repo_Delete (liftRepo r) i)" "keeps w_log (repo_List (liftRepo r) f)"
    by (simp_all add: liftRepo_def keeps_log_lift)
  have ret: "logGrows (\<lambda>s. (Inr (), s))" by (simp add: logGrows_def)
  note d = worldRepo_def cachedRepository_simps cachedCreate_def cachedGetByID_def cachedGetByEmail_def
    cachedUpdate_def cachedDelete_def cachedList_def deps cacheManager_simps ret_def
  show "logGrows (repo_Create (worldRepo uni r ttl) a)" "logGrows (repo_List (worldRepo uni r ttl) f)"
    unfolding d by (rule logGrows_keeps inner)+
  show "logGrows (repo_GetByID (worldRepo uni r ttl) i)" "logGrows (repo_GetByEmail (worldRepo uni r ttl) m)"
    unfolding d by (rule logGrows_GetOnce inner)+
  show "logGrows (repo_Update (worldRepo uni r ttl) p)" "logGrows (repo_Delete (worldRepo uni r ttl) i)"
    unfolding d by (rule logGrows_andThen logGrows_keeps [OF inner(4)] logGrows_keeps [OF inner(5)]
        logGrows_invalidate ret)+
qed

lemma repoStep_log: "repoStep (worldRepo uni r ttl) s s' \<Longrightarrow> \<exists>l. w_log s' = w_log s @ l"
proof (erule repoStepE)
  fix dt assume "s' = put_cache ((w_cache s)\<lparr>ms_now := ms_now (w_cache s) + dt\<rparr>) s"
  then show ?thesis by simp
qed (use worldRepo_logGrows [of uni r ttl] in \<open>unfold logGrows_def, (metis snd_conv)+\<close>)

lemma keeps_log_update: "keeps w_log (repo_Update (liftRepo r) p)"
  and keeps_log_delete: "keeps w_log (repo_Delete (liftRepo r) i)"
  by (simp_all add: liftRepo_def keeps_log_lift)

lemma repoStep_coherent:
  assumes "account_repository r view enc encp" "repoStep (worldRepo uni r ttl) s s'"
    and "idCoherent (live (w_cache s)) (view (w_db s))" "w_log s' = w_log s"
  shows "idCoherent (live (w_cache s')) (view (w_db s'))"
proof -
  note cb = world_coherent_backend [OF assms(1), where ttl = ttl]
  note coh_of = coherent_backend.cachedCreate_coherent [OF cb] coherent_backend.cachedGetByID_coherent [OF cb]
    coherent_backend.cachedGetByEmail_coherent [OF cb]
  have coh: "idCoherent ((live \<circ> w_cache) s) ((view \<circ> w_db) s)" using assms(3) by simp
  have quiet: False if "keeps w_log m" "m s = (x, s1)" "lc_Delete worldCache k s1 = (Inl e, s2)" "s' = warn k e s2"
    for m :: "('a world, go_error, 'x) op" and x s1 k e s2
    using keepsD [OF that(1,2)] keepsD [OF memCache_keeps_log(3) that(3)] that(4) assms(4) by simp
  have log: "cd_log (worldDeps r ttl) = warn" by (simp add: worldDeps_def)
  from assms(2) have "idCoherent ((live \<circ> w_cache) s') ((view \<circ> w_db) s')"
  proof cases
    case (create a x)
    then have "cachedCreate (worldDeps r ttl) a s = (x, s')" by (simp add: worldRepo_def)
    then show ?thesis using coh by (rule coh_of(1))
  next
    case (getID i y)
    then have "cachedGetByID (worldDeps r ttl) i s = (y, s')" by (simp add: worldRepo_def)
    then show ?thesis using coh by (rule coh_of(2))
  next
    case (getEmail m y)
    then have "cachedGetByEmail uni (worldDeps r ttl) m s = (y, s')" by (simp add: worldRepo_def)
    then show ?thesis using coh by (rule coh_of(3))
  next
    case (update p u)
    then have "cachedUpdate (worldDeps r ttl) p s = (u, s')" by (simp add: worldRepo_def)
    from coherent_backend.cachedUpdate_coherent [OF cb this coh] show ?thesis
      using quiet [OF keeps_log_update] unfolding log by blast
  next
    case (delete i u)
    then have "cachedDelete (worldDeps r ttl) i s = (u, s')" by (simp add: worldRepo_def)
    from coherent_backend.cachedDelete_coherent [OF cb this coh] show ?thesis
      using quiet [OF keeps_log_delete] unfolding log by blast
  next
    case (list f l)
    then have l: "repo_List (liftRepo r) f s = (l, s')"
      by (simp add: worldRepo_def cachedList_def worldDeps_def)
    have "(live \<circ> w_cache) s' = (live \<circ> w_cache) s" "(view \<circ> w_db) s' = (view \<circ> w_db) s"
      using keepsD [OF account_repository.lifted_keeps_cache(6) [OF assms(1)] l]
        keepsD [OF account_writes.reads_keep(3) [OF account_repository.axioms(1)
            [OF account_repository.lifted [OF assms(1)]]] l] by simp_all
    with coh show ?thesis by simp
  next
    case (tick dt)
    with coh live_tick [OF tick(2)] show ?thesis by (auto intro: idCoherent_mono)
  qed
  then show ?thesis by simp
qed

lemma repoSteps_coherent:
  assumes "account_repository r view enc encp" "(repoStep (worldRepo uni r ttl))\<^sup>*\<^sup>* s0 s"
    and "idCoherent (live (w_cache s0)) (view (w_db s0))"
  shows "(\<exists>l. w_log s = w_log s0 @ l)
    \<and> (w_log s = w_log s0 \<longrightarrow> idCoherent (live (w_cache s)) (view (w_db s)))"
  using assms(2)
proof (induction rule: rtranclp_induct)
  case base
  with assms(3) show ?case by simp
next
  case (step s1 s2)
  from step.IH obtain l where l: "w_log s1 = w_log s0 @ l" by blast
  from repoStep_log [OF step(2)] obtain l' where l': "w_log s2 = w_log s1 @ l'" by blast
  show ?case
  proof (intro conjI impI)
    show "\<exists>l. w_log s2 = w_log s0 @ l" using l l' by simp
  next
    assume "w_log s2 = w_log s0"
    with l l' have "w_log s1 = w_log s0" "w_log s2 = w_log s1" by simp_all
    with repoStep_coherent [OF assms(1) step(2)] step.IH
    show "idCoherent (live (w_cache s2)) (view (w_db s2))" by simp
  qed
qed

section \<open>Properties\<close>

definition emptyCache :: "account ptr memstore" where
  "emptyCache = \<lparr>ms_entries = [], ms_now = 0, ms_down = False\<rparr>"

definition sampleWorld :: "pg world" where
  "sampleWorld = \<lparr>w_db = samplePg, w_cache = emptyCache, w_buckets = [], w_commits = [], w_log = []\<rparr>"

lemma sampleWorld_parts [simp]:
  "w_db sampleWorld = samplePg" "w_cache sampleWorld = emptyCache" "w_log sampleWorld = []"
  by (simp_all add: sampleWorld_def)

lemma live_emptyCache [simp]: "live emptyCache = Map.empty"
  by (simp add: live_def emptyCache_def fun_eq_iff)

text \<open>
  C22: over every backend that keeps the write half of the repository contract, and every
  cache, the cache decorator keeps it too: writes do to the durable accounts exactly what the
  backend's do, reads change none of them, whatever the cache does or fails to do.
\<close>

theorem cached_keeps_writes:
  "cached_backend inner view enc encp lc entries d \<Longrightarrow> account_writes (cachedRepository uni d) view enc encp"
  by (rule cached_backend.cached_writes)

theorem cached_keeps_writes_witness:
  "account_writes (cachedRepository asciiOnly (worldDeps (gormRepository pgGorm) accountCacheTTL))
     ((tableView \<circ> pgRows) \<circ> w_db) gormEnc gormEncp"
  by (rule cached_keeps_writes) (rule cachedGorm.cached_backend_axioms)

text \<open>
  C23: starting from an empty cache, after any sequence of calls to the cached repository and
  any passing of time, unless an eviction failed and was logged, a read by id returns the
  durable account: updates and deletes are never masked by the id entry.
\<close>

theorem cached_get_fresh:
  assumes "account_repository r view enc encp"
    and "(repoStep (worldRepo uni r ttl))\<^sup>*\<^sup>* s0 s" "w_cache s0 = emptyCache" "w_log s = w_log s0"
    and "repo_GetByID (worldRepo uni r ttl) i s = (Inr p, s')"
  shows "\<exists>a. p = Some a \<and> view (w_db s) i = Some a"
proof -
  have "idCoherent (live (w_cache s)) (view (w_db s))"
    using repoSteps_coherent [OF assms(1,2)] assms(3,4) by (simp add: idCoherent_def)
  then have "idCoherent ((live \<circ> w_cache) s) ((view \<circ> w_db) s)" by simp
  moreover have "cachedGetByID (worldDeps r ttl) i s = (Inr p, s')"
    using assms(5) by (simp add: worldRepo_def)
  ultimately show ?thesis
    using coherent_backend.cachedGetByID_fresh [OF world_coherent_backend [OF assms(1)]] by fastforce
qed

lemmas world_eval = worldRepo_def worldDeps_def liftRepo_def cachedGetByID_def cachedGetByEmail_def
  cachedUpdate_def cachedDelete_def cachedCreate_def invalidate_def GetOnce_def memCache_def onPart_def
  memGet_def memSet_def memDelete_def andThen_def mapErr_def put_db_def put_cache_def

lemmas gorm_eval = gormRepository_def gormGetByID_def gormGetByEmail_def gormGetOne_def gormDelete_def
  pgGorm_def pgGormFirst_def pgGormDelete_def orFault_def whereCol_def

lemma sampleWorld_get:
  "\<exists>s'. repo_GetByID (worldRepo asciiOnly (gormRepository pgGorm) accountCacheTTL) ''a1'' sampleWorld
     = (Inr (Some (rowAccount sampleRow)), s') \<and> w_log s' = []"
  by (simp add: world_eval gorm_eval emptyCache_def live_def sampleRow_def)

theorem cached_get_fresh_witness:
  "\<exists>s1 s2 a. repoStep (worldRepo asciiOnly (gormRepository pgGorm) accountCacheTTL) sampleWorld s1
     \<and> repo_GetByID (worldRepo asciiOnly (gormRepository pgGorm) accountCacheTTL) ''a1'' sampleWorld = (Inr (Some a), s2)
     \<and> (tableView \<circ> pgRows) (w_db sampleWorld) ''a1'' = Some a"
proof -
  let ?R = "worldRepo asciiOnly (gormRepository pgGorm) accountCacheTTL"
  obtain s' where g: "repo_GetByID ?R ''a1'' sampleWorld = (Inr (Some (rowAccount sampleRow)), s')"
    using sampleWorld_get by blast
  from cached_get_fresh [OF pgg.gorm.account_repository_axioms rtranclp.rtrancl_refl _ refl g]
  have "(tableView \<circ> pgRows) (w_db sampleWorld) ''a1'' = Some (rowAccount sampleRow)" by simp
  with g show ?thesis by (blast intro: repoStep.getID)
qed

text \<open>
  Deletes evict the id entry only.  While the email entry of an account lives in the
  cache, a successful Delete removes the account from the database, and the read by email
  still returns it.
\<close>

lemma deleted_email_still_served:
  assumes "account_repository r view enc encp"
    and "live (w_cache s) (AccountCacheKeyByEmail uni m) = Some (Some a)" "\<not> ms_down (w_cache s)"
    and "repo_Delete (worldRepo uni r ttl) (ID a) s = (Inr (), s')"
  shows "view (w_db s') (ID a) = None \<and> fst (repo_GetByEmail (worldRepo uni r ttl) m s') = Inr (Some a)"
proof -
  from assms(4) obtain s1 where del: "repo_Delete (liftRepo r) (ID a) s = (Inr (), s1)"
    and inv: "invalidate (worldDeps r ttl) (AccountCacheKeyByID (ID a)) s1 = (Inr (), s')"
    by (auto simp: worldRepo_def cachedDelete_def worldDeps_def elim!: andThen_InrE)
  have c1: "w_cache s1 = w_cache s"
    using account_repository.lifted_keeps_cache(5) [OF assms(1)] del by (rule keepsD)
  have v: "view (w_db s1) (ID a) = None"
    using account_writes.delete_ok [OF account_repository.axioms(1) [OF account_repository.lifted [OF assms(1)]] del]
    by simp
  have s': "s' = put_cache ((w_cache s)\<lparr>ms_entries := drop_key (AccountCacheKeyByID (ID a)) (ms_entries (w_cache s))\<rparr>) s1"
    using inv assms(3) c1
    by (simp add: invalidate_def worldDeps_def memCache_def onPart_def memDelete_def)
  have "live (w_cache s') (AccountCacheKeyByEmail uni m) = Some (Some a)" "\<not> ms_down (w_cache s')"
    using assms(2,3) by (simp_all add: s' live_drop)
  then have "fst (repo_GetByEmail (worldRepo uni r ttl) m s') = Inr (Some a)"
    by (simp add: worldRepo_def cachedGetByEmail_def worldDeps_def GetOnce_def memCache_def onPart_def memGet_def)
  with v show ?thesis by (simp add: s')
qed

definition staleWorld :: "pg world" where
  "staleWorld = put_cache \<lparr>ms_entries = [(''account:email:jane@x.io'', Some (rowAccount sampleRow), accountCacheTTL)],
     ms_now = 0, ms_down = False\<rparr> sampleWorld"

lemma ToLower_sample [simp]: "ToLower asciiOnly ''jane@x.io'' = ''jane@x.io''"
  by code_simp

lemma deleted_email_still_served_witness:
  "\<exists>s'. repo_Delete (worldRepo asciiOnly (gormRepository pgGorm) accountCacheTTL) ''a1'' staleWorld = (Inr (), s')
     \<and> fst (repo_GetByEmail (worldRepo asciiOnly (gormRepository pgGorm) accountCacheTTL) ''jane@x.io'' s')
         = Inr (Some (rowAccount sampleRow))"
proof -
  have idr: "ID (rowAccount sampleRow) = ''a1''" by (simp add: sampleRow_def)
  have l: "live (w_cache staleWorld) (AccountCacheKeyByEmail asciiOnly ''jane@x.io'') = Some (Some (rowAccount sampleRow))"
    "\<not> ms_down (w_cache staleWorld)"
    by (simp_all add: staleWorld_def live_def AccountCacheKeyByEmail_def accountCacheTTL_def Minute_def)
  have "\<exists>s'. repo_Delete (worldRepo asciiOnly (gormRepository pgGorm) accountCacheTTL) (ID (rowAccount sampleRow)) staleWorld = (Inr (), s')"
    unfolding idr by (simp add: world_eval gorm_eval staleWorld_def sampleRow_def)
  then obtain s' where d: "repo_Delete (worldRepo asciiOnly (gormRepository pgGorm) accountCacheTTL) (ID (rowAccount sampleRow)) staleWorld = (Inr (), s')"
    by blast
  from deleted_email_still_served [OF pgg.gorm.account_repository_axioms l d] d idr show ?thesis by auto
qed

text \<open>
  C26: with the cache unreachable every write succeeds or fails as the backend's does, but no
  read by id or email succeeds: the failed store after the load fails the read, even of an
  account the backend has just returned.
\<close>

theorem cache_outage:
  assumes "account_repository r view enc encp" "ms_down (w_cache s)"
  shows "fst (repo_Create (worldRepo uni r ttl) a s) = fst (repo_Create r a (w_db s))
    \<and> fst (repo_Update (worldRepo uni r ttl) p s) = fst (repo_Update r p (w_db s))
    \<and> fst (repo_Delete (worldRepo uni r ttl) i s) = fst (repo_Delete r i (w_db s))
    \<and> (\<exists>e. fst (repo_GetByID (worldRepo uni r ttl) i s) = Inl e)
    \<and> (\<exists>e. fst (repo_GetByEmail (worldRepo uni r ttl) m s) = Inl e)"
  using assms(2)
  by (auto simp: world_eval cachedList_def split: prod.split sum.split)

theorem cache_outage_witness:
  "\<exists>e. fst (repo_GetByID (worldRepo asciiOnly (gormRepository pgGorm) accountCacheTTL) ''a1''
         (put_cache (emptyCache\<lparr>ms_down := True\<rparr>) sampleWorld)) = Inl e"
  using cache_outage [OF pgg.gorm.account_repository_axioms,
      of "put_cache (emptyCache\<lparr>ms_down := True\<rparr>) sampleWorld" asciiOnly accountCacheTTL _ _ "''a1''"]
  by simp

end
