(* ===== verification/Limiter.thy ===== *)
theory Limiter
  imports Ports
begin

text \<open>
  The rate limiter (\<open>internal/adapter/limiter/limiter.go\<close>) over the redis_rate library, and the
  password service (\<open>internal/core/services\<close>, \<open>internal/infra/hash\<close>) over bcrypt.  Both
  libraries are parameters.
\<close>

section \<open>Limiter\<close>

record Limit =
  li_Rate :: int
  li_Burst :: int
  li_Period :: duration

record RateResult =
  rr_Allowed :: int
  rr_Remaining :: int
  rr_RetryAfter :: duration

record 's RateLib =
  rl_Allow :: "string \<Rightarrow> Limit \<Rightarrow> ('s, go_error, RateResult) op"
  rl_PerMinute :: "int \<Rightarrow> Limit"

definition defaultRate :: int where
  "defaultRate = 60"

text \<open>The map built by the constructor's loop over \<open>domain.RateLimitDefaults\<close>.\<close>

definition NewRedisLimiter :: "(RateLimitAction \<times> RateLimitConfig) list \<Rightarrow> (RateLimitAction \<times> Limit) list" where
  "NewRedisLimiter defaults =
     fold (\<lambda>(action, cfg) limits.
             put action \<lparr>li_Rate = rl_Rate cfg, li_Burst = rl_Burst cfg, li_Period = rl_Period cfg\<rparr> limits)
       defaults []"

definition policyFor :: "'s RateLib \<Rightarrow> (RateLimitAction \<times> Limit) list \<Rightarrow> RateLimitAction \<Rightarrow> Limit" where
  "policyFor rl limits action =
     (case map_of limits action of Some limit \<Rightarrow> limit | None \<Rightarrow> rl_PerMinute rl defaultRate)"

definition limiterLimit :: "'s RateLib \<Rightarrow> (RateLimitAction \<times> Limit) list \<Rightarrow> 's RateLimiter" where
  "limiterLimit rl limits req =
     (let limit = policyFor rl limits (lq_Action req);
          key = lq_Action req @ '':'' @ lq_Key req
      in andThen (mapErr (\<lambda>err. Wrapf ''limiter: allow %q: %w'' [key] err) (rl_Allow rl key limit))
           (\<lambda>res. ret \<lparr>lr_Allowed = (rr_Allowed res > 0), lr_Remaining = rr_Remaining res,
                       lr_RetryAfter = rr_RetryAfter res\<rparr>))"

lemma map_of_fold_put:
  "distinct (map fst ds) \<Longrightarrow> map_of (fold (\<lambda>(k, x) m. put k (f x) m) ds acc) a =
     (case map_of ds a of None \<Rightarrow> map_of acc a | Some x \<Rightarrow> Some (f x))"
proof (induction ds arbitrary: acc)
  case (Cons d ds)
  obtain k x where d: "d = (k, x)" by fastforce
  with Cons.prems have "map_of ds k = None" by (simp add: map_of_eq_None_iff)
  with Cons d show ?case by (simp split: option.split)
qed simp

lemma NewRedisLimiter_lookup:
  "distinct (map fst defaults) \<Longrightarrow> map_of (NewRedisLimiter defaults) a =
    map_option (\<lambda>cfg. \<lparr>li_Rate = rl_Rate cfg, li_Burst = rl_Burst cfg, li_Period = rl_Period cfg\<rparr>) (map_of defaults a)"
  by (simp add: NewRedisLimiter_def map_of_fold_put split: option.split)

lemma keeps_limiterLimit: "(\<And>k l. keeps v (rl_Allow rl k l)) \<Longrightarrow> keeps v (limiterLimit rl limits req)"
  by (auto simp: limiterLimit_def Let_def intro!: keeps_intros)

section \<open>Passwords\<close>

definition Hash :: "(string \<Rightarrow> go_error + string) \<Rightarrow> string \<Rightarrow> go_error + string" where
  "Hash bcrypt plain = bcrypt plain"  \<comment> \<open>\<open>bcrypt.GenerateFromPassword\<close> at the default cost\<close>

definition IsValidPassword :: "string \<Rightarrow> go_error + bool" where
  "IsValidPassword password = Inr (length password \<ge> MinPasswordLength)"

definition passwordService :: "(string \<Rightarrow> go_error + string) \<Rightarrow> PasswordService" where
  "passwordService bcrypt = \<lparr>pw_IsValidPassword = IsValidPassword, pw_Hash = Hash bcrypt\<rparr>"

lemma passwordService_simps [simp]:
  "pw_IsValidPassword (passwordService b) = IsValidPassword" "pw_Hash (passwordService b) = Hash b"
  by (simp_all add: passwordService_def)

section \<open>Properties\<close>

text \<open>
  The limiter asks the library with the domain's policy for an action that has one, with
  the per-minute default for any other action, under a key made of action and key; the verdict
  is "allowed" exactly for a positive count, and a backend failure is an error, never a
  verdict.
\<close>

lemma limiter_policy:
  "limiterLimit rl (NewRedisLimiter RateLimitDefaults) \<lparr>lq_Action = a, lq_Key = k\<rparr> s =
     (case rl_Allow rl (a @ '':'' @ k)
             (if a = RateLimitActionCreateAccount
              then \<lparr>li_Rate = 5, li_Burst = 5, li_Period = Minute\<rparr> else rl_PerMinute rl 60) s of
        (Inl e, s') \<Rightarrow> (Inl (Wrapf ''limiter: allow %q: %w'' [a @ '':'' @ k] e), s')
      | (Inr res, s') \<Rightarrow> (Inr \<lparr>lr_Allowed = (0 < rr_Allowed res), lr_Remaining = rr_Remaining res,
                             lr_RetryAfter = rr_RetryAfter res\<rparr>, s'))"
  by (simp add: limiterLimit_def Let_def policyFor_def NewRedisLimiter_def RateLimitDefaults_def
      defaultRate_def andThen_def mapErr_def split: prod.split sum.split)

end
