(* ===== verification/UseCase.thy ===== *)
theory UseCase
  imports World Limiter
begin

text \<open>
  The use case (\<open>internal/core/usecase/account/account.go\<close>): Create, Get, List, Update and
  Delete over the ports.  Time and fresh ids, which the code reads from \<open>time.Now\<close> and
  \<open>uuid.NewString\<close>, are arguments.  The locale \<open>use_case\<close> takes the contracts of the
  repository and of the transaction manager and proves what each operation does to the
  durable accounts.
\<close>

section \<open>The use case\<close>

record 's AccountDeps =
  dp_repo :: "'s AccountRepository"
  dp_tx :: "'s TxManager"
  dp_limiter :: "'s RateLimiter"
  dp_passwords :: PasswordService
  dp_log :: "string \<Rightarrow> string \<Rightarrow> 's \<Rightarrow> 's"  \<comment> \<open>\<open>log.InfoContext\<close>: message and account id\<close>

definition validateEmail :: "string \<Rightarrow> go_error + unit" where
  "validateEmail email =
     (if email = [] \<or> \<not> Contains email ''@'' then Inl (App (WithMetadata ErrInvalidEmail ''email'' email))
      else Inr ())"

definition ensureStrongPassword :: "PasswordService \<Rightarrow> string \<Rightarrow> go_error + unit" where
  "ensureStrongPassword passwords password =
     (case pw_IsValidPassword passwords password of
        Inl err \<Rightarrow> Inl (App (Cause ErrInternal err))
      | Inr ok \<Rightarrow> if \<not> ok then Inl (App ErrWeakPassword) else Inr ())"

definition ensureEmailFree :: "'s AccountRepository \<Rightarrow> string \<Rightarrow> ('s, go_error, unit) op" where
  "ensureEmailFree repo email = (\<lambda>s.
     case repo_GetByEmail repo email s of
       (Inr _, s') \<Rightarrow> (Inl (App (WithMetadata ErrAccountAlreadyExists ''email'' email)), s')
     | (Inl err, s') \<Rightarrow> if errorsIs err (App ErrAccountNotFound) then (Inr (), s') else (Inl err, s'))"

definition logInfo :: "'s AccountDeps \<Rightarrow> string \<Rightarrow> string \<Rightarrow> ('s, go_error, unit) op" where
  "logInfo uc msg i = (\<lambda>s. (Inr (), dp_log uc msg i s))"

definition newAccount :: "string \<Rightarrow> time \<Rightarrow> string \<Rightarrow> CreateAccountRequest \<Rightarrow> account" where
  "newAccount uid now hashed req =
     \<lparr>ID = uid, Email = cr_Email req, FirstName = cr_FirstName req, LastName = cr_LastName req,
      PasswordHash = hashed,
      Status = (if \<not> Valid (cr_Status req) then AccountStatusActive else cr_Status req),
      CreatedAt = now, UpdatedAt = now, DeletedAt = None\<rparr>"

text \<open>The function passed to \<open>WithTx\<close>; its result is the captured \<open>account\<close> with the stored id.\<close>

definition createBody :: "'s AccountDeps \<Rightarrow> account \<Rightarrow> ('s, go_error, account ptr) op" where
  "createBody uc account =
     andThen (ensureEmailFree (dp_repo uc) (Email account))
       (\<lambda>_. andThen (repo_Create (dp_repo uc) account) (\<lambda>i. ret (Some (account\<lparr>ID := i\<rparr>))))"

definition ucCreate ::
    "(string \<Rightarrow> string) \<Rightarrow> 's AccountDeps \<Rightarrow> time \<Rightarrow> string \<Rightarrow> CreateAccountRequest \<Rightarrow> ('s, go_error, account ptr) op" where
  "ucCreate uni uc now uid req =
     andThen (mapErr (\<lambda>err. App (Cause ErrInternal err))
                (dp_limiter uc \<lparr>lq_Action = RateLimitActionCreateAccount, lq_Key = ToLower uni (cr_Email req)\<rparr>))
     (\<lambda>verdict.
        if \<not> lr_Allowed verdict
        then throw (App (WithMetadata ErrTooManyRequests ''retry_after'' (DurationString (lr_RetryAfter verdict))))
        else
          andThen (liftR (validateEmail (cr_Email req)))
          (\<lambda>_. andThen (liftR (ensureStrongPassword (dp_passwords uc) (cr_Password req)))
          (\<lambda>_. andThen (mapErr (\<lambda>err. App (Cause ErrInternal err)) (liftR (pw_Hash (dp_passwords uc) (cr_Password req))))
          (\<lambda>hashed. andThen (dp_tx uc (createBody uc (newAccount uid now hashed req)))
          (\<lambda>account. andThen (logInfo uc ''account created'' (case account of None \<Rightarrow> [] | Some a \<Rightarrow> ID a))
          (\<lambda>_. ret account))))))"

definition idRequired :: go_error where
  "idRequired = App (WithMessage ErrInvalidRequest ''account id is required'')"

definition ucGet :: "'s AccountDeps \<Rightarrow> string \<Rightarrow> ('s, go_error, account ptr) op" where
  "ucGet uc i = (if i = [] then throw idRequired else repo_GetByID (dp_repo uc) i)"

definition ucList :: "'s AccountDeps \<Rightarrow> ListAccountFilter \<Rightarrow> ('s, go_error, account list \<times> goint) op" where
  "ucList uc f = repo_List (dp_repo uc) f"

definition updateParams :: "time \<Rightarrow> UpdateAccountRequest \<Rightarrow> UpdateAccountParams" where
  "updateParams now req = \<lparr>up_ID = ur_ID req, up_FirstName = ur_FirstName req,
     up_LastName = ur_LastName req, up_Status = ur_Status req, up_UpdatedAt = now\<rparr>"

definition updateBody :: "'s AccountDeps \<Rightarrow> time \<Rightarrow> UpdateAccountRequest \<Rightarrow> ('s, go_error, account ptr) op" where
  "updateBody uc now req =
     andThen (repo_Update (dp_repo uc) (updateParams now req))
       (\<lambda>_. andThen (repo_GetByID (dp_repo uc) (ur_ID req)) (\<lambda>account. ret account))"

definition ucUpdate :: "'s AccountDeps \<Rightarrow> time \<Rightarrow> UpdateAccountRequest \<Rightarrow> ('s, go_error, account ptr) op" where
  "ucUpdate uc now req =
     (if ur_ID req = [] then throw idRequired
      else if (case ur_Status req of None \<Rightarrow> False | Some st \<Rightarrow> \<not> Valid st) then throw (App ErrInvalidStatus)
      else andThen (dp_tx uc (updateBody uc now req)) (\<lambda>updated. ret updated))"

definition deleteBody :: "'s AccountDeps \<Rightarrow> string \<Rightarrow> ('s, go_error, account ptr) op" where
  "deleteBody uc i = andThen (repo_Delete (dp_repo uc) i) (\<lambda>_. ret None)"

definition ucDelete :: "'s AccountDeps \<Rightarrow> string \<Rightarrow> ('s, go_error, unit) op" where
  "ucDelete uc i =
     (if i = [] then throw idRequired
      else andThen (dp_tx uc (deleteBody uc i))
             (\<lambda>_. andThen (logInfo uc ''account deleted'' i) (\<lambda>_. ret ())))"

definition accountUseCase ::
    "(string \<Rightarrow> string) \<Rightarrow> 's AccountDeps \<Rightarrow> time \<Rightarrow> string \<Rightarrow> 's AccountUseCase" where
  "accountUseCase uni uc now uid =
     \<lparr>uc_Create = ucCreate uni uc now uid, uc_Get = ucGet uc, uc_List = ucList uc,
      uc_Update = ucUpdate uc now, uc_Delete = ucDelete uc\<rparr>"

section \<open>What each operation does to the durable accounts\<close>

lemma validateEmail_ok: "validateEmail m = Inr u \<longleftrightarrow> CHR ''@'' \<in> set m"
  by (auto simp: validateEmail_def Contains_char)

lemma ensureStrongPassword_ok:
  "ensureStrongPassword pw p = Inr u \<longleftrightarrow> pw_IsValidPassword pw p = Inr True"
  by (auto simp: ensureStrongPassword_def split: sum.split)

lemma newAccount_fields [simp]:
  "ID (newAccount uid now h req) = uid" "Email (newAccount uid now h req) = cr_Email req"
  "Valid (Status (newAccount uid now h req))"
  by (auto simp: newAccount_def Valid_def status_defs)

lemma ensureEmailFree_result:
  "ensureEmailFree repo m s = (Inr u, s') \<Longrightarrow>
     \<exists>e. repo_GetByEmail repo m s = (Inl e, s') \<and> errorsIs e (App ErrAccountNotFound)"
  "ensureEmailFree repo m s = (Inl e, s') \<Longrightarrow>
     (\<exists>p. repo_GetByEmail repo m s = (Inr p, s') \<and> e = App (WithMetadata ErrAccountAlreadyExists ''email'' m))
     \<or> (repo_GetByEmail repo m s = (Inl e, s') \<and> \<not> errorsIs e (App ErrAccountNotFound))"
  by (auto simp: ensureEmailFree_def split: prod.splits sum.splits if_splits)

text \<open>
  The invariant of the stored accounts: ids are keys, emails are unique, every status is one
  of the four valid ones.
\<close>

definition goodAccounts :: "accounts \<Rightarrow> bool" where
  "goodAccounts v \<longleftrightarrow> wf_accounts v \<and> (\<forall>i a. v i = Some a \<longrightarrow> Valid (Status a))"

locale use_case = account_writes "dp_repo uc" view enc encp + tx_manager "dp_tx uc" view
  for uc :: "'s AccountDeps" and view enc encp +
  assumes limiter_keeps: "keeps view (dp_limiter uc lr)"
    and log_keeps: "view (dp_log uc msg i s) = view s"
    and enc_status: "Valid (Status a) \<Longrightarrow> Status (enc a) = Status a"
    and encp_status: "up_Status p = Some st \<Longrightarrow> Valid st \<Longrightarrow> up_Status (encp p) = Some st"
      "up_Status p = None \<Longrightarrow> up_Status (encp p) = None"
begin

lemma emailFree_keeps: "keeps view (ensureEmailFree (dp_repo uc) m)"
  by (rule keepsI) (auto simp: ensureEmailFree_def split: prod.splits sum.splits if_splits
      dest: keepsD [OF reads_keep(2)])

lemma createBody_ok:
  assumes "createBody uc a s = (Inr p, s')"
  shows "p = Some a \<and> view s (ID a) = None \<and> \<not> emailTaken (view s) (Email a)
    \<and> view s' = (view s)(ID a \<mapsto> enc a)"
proof -
  from assms obtain s1 i u where f: "ensureEmailFree (dp_repo uc) (Email a) s = (Inr u, s1)"
    and c: "repo_Create (dp_repo uc) a s1 = (Inr i, s')" and p: "p = Some (a\<lparr>ID := i\<rparr>)"
    by (auto simp: createBody_def elim!: andThen_InrE)
  have "view s1 = view s" using emailFree_keeps f by (rule keepsD)
  moreover from create_ok [OF c] have "i = ID a" by simp
  then have "a\<lparr>ID := i\<rparr> = a" by simp
  ultimately show ?thesis using create_ok [OF c] p by simp
qed

text \<open>A successful Create.\<close>

lemma ucCreate_ok:
  assumes "ucCreate uni uc now uid req s = (Inr p, s')"
  shows "\<exists>hashed. pw_Hash (dp_passwords uc) (cr_Password req) = Inr hashed
    \<and> pw_IsValidPassword (dp_passwords uc) (cr_Password req) = Inr True
    \<and> CHR ''@'' \<in> set (cr_Email req)
    \<and> p = Some (newAccount uid now hashed req)
    \<and> view s uid = None \<and> \<not> emailTaken (view s) (cr_Email req)
    \<and> view s' = (view s)(uid \<mapsto> enc (newAccount uid now hashed req))"
proof -
  let ?lr = "\<lparr>lq_Action = RateLimitActionCreateAccount, lq_Key = ToLower uni (cr_Email req)\<rparr>"
  from assms obtain s1 verdict hashed s2 where lim: "dp_limiter uc ?lr s = (Inr verdict, s1)"
    and email: "validateEmail (cr_Email req) = Inr ()"
    and pw: "ensureStrongPassword (dp_passwords uc) (cr_Password req) = Inr ()"
    and hash: "pw_Hash (dp_passwords uc) (cr_Password req) = Inr hashed"
    and tx: "dp_tx uc (createBody uc (newAccount uid now hashed req)) s1 = (Inr p, s2)"
    and s': "view s' = view s2"
    by (auto simp: ucCreate_def logInfo_def log_keeps elim!: andThen_InrE mapErr_InrE split: if_splits)
  from tx_done [OF tx] obtain t0 t1 where "view t0 = view s1" "view s2 = view t1"
    and body: "createBody uc (newAccount uid now hashed req) t0 = (Inr p, t1)" by blast
  moreover have "view s1 = view s" using limiter_keeps lim by (rule keepsD)
  moreover note createBody_ok [OF body]
  ultimately show ?thesis
    using email pw hash s' by (auto simp: validateEmail_ok ensureStrongPassword_ok)
qed

lemma ucCreate_err:
  assumes "ucCreate uni uc now uid req s = (Inl e, s')"
  shows "view s' = view s"
proof -
  let ?lr = "\<lparr>lq_Action = RateLimitActionCreateAccount, lq_Key = ToLower uni (cr_Email req)\<rparr>"
  from assms consider (limiter) e0 where "dp_limiter uc ?lr s = (Inl e0, s')"
    | (guard) verdict where "dp_limiter uc ?lr s = (Inr verdict, s')"
    | (tx) verdict s1 a where "dp_limiter uc ?lr s = (Inr verdict, s1)" "dp_tx uc (createBody uc a) s1 = (Inl e, s')"
    by (auto simp: ucCreate_def logInfo_def elim!: andThen_InlE mapErr_InlE mapErr_InrE split: if_splits)
  then show ?thesis
  proof cases
    case (tx verdict s1 a)
    from tx_error [OF tx(2)] keepsD [OF limiter_keeps tx(1)] show ?thesis by simp
  qed (auto dest: keepsD [OF limiter_keeps])
qed

text \<open>Update.\<close>

lemma ucUpdate_ok:
  assumes "ucUpdate uc now req s = (Inr p, s')"
  shows "ur_ID req \<noteq> [] \<and> (\<forall>st. ur_Status req = Some st \<longrightarrow> Valid st)
    \<and> (\<exists>a. view s (ur_ID req) = Some a
         \<and> view s' = (view s)(ur_ID req \<mapsto> patch (encp (updateParams now req)) a))"
proof -
  from assms have tx: "dp_tx uc (updateBody uc now req) s = (Inr p, s')"
    and guard: "ur_ID req \<noteq> []" "\<forall>st. ur_Status req = Some st \<longrightarrow> Valid st"
    by (auto simp: ucUpdate_def andThen_ret_right split: if_splits option.splits)
  from tx_done [OF tx] obtain t0 t1 where v: "view t0 = view s" "view s' = view t1"
    and body: "updateBody uc now req t0 = (Inr p, t1)" by blast
  from body obtain t2 u where u: "repo_Update (dp_repo uc) (updateParams now req) t0 = (Inr u, t2)"
    and g: "repo_GetByID (dp_repo uc) (ur_ID req) t2 = (Inr p, t1)"
    by (auto simp: updateBody_def elim!: andThen_InrE)
  have "view t1 = view t2" using reads_keep(1) g by (rule keepsD)
  with update_ok [OF u] v guard show ?thesis by (simp add: updateParams_def)
qed

lemma ucUpdate_err: "ucUpdate uc now req s = (Inl e, s') \<Longrightarrow> view s' = view s"
  by (auto simp: ucUpdate_def andThen_ret_right dest: tx_error split: if_splits)

text \<open>Delete.\<close>

lemma ucDelete_ok:
  assumes "ucDelete uc i s = (Inr u, s')"
  shows "i \<noteq> [] \<and> view s i \<noteq> None \<and> view s' = (view s)(i := None)"
proof -
  from assms obtain v s1 where tx: "dp_tx uc (deleteBody uc i) s = (Inr v, s1)"
    and i: "i \<noteq> []" and s': "view s' = view s1"
    by (auto simp: ucDelete_def logInfo_def log_keeps elim!: andThen_InrE split: if_splits)
  from tx_done [OF tx] obtain t0 t1 where v: "view t0 = view s" "view s1 = view t1"
    and body: "deleteBody uc i t0 = (Inr v, t1)" by blast
  from body obtain x where "repo_Delete (dp_repo uc) i t0 = (Inr x, t1)" by (auto simp: deleteBody_def elim!: andThen_InrE)
  from delete_ok [OF this] v i s' show ?thesis by simp
qed

lemma ucDelete_err: "ucDelete uc i s = (Inl e, s') \<Longrightarrow> view s' = view s"
  by (auto simp: ucDelete_def logInfo_def elim!: andThen_InlE dest: tx_error split: if_splits)

lemma ucReads_keep: "keeps view (ucGet uc i)" "keeps view (ucList uc f)"
  using reads_keep by (auto simp: ucGet_def ucList_def intro!: keeps_intros)

lemma ucCreate_good:
  assumes "ucCreate uni uc now uid req s = (r, s')" "goodAccounts (view s)"
  shows "goodAccounts (view s')"
proof (cases r)
  case (Inl e)
  with assms ucCreate_err show ?thesis by metis
next
  case (Inr p)
  from ucCreate_ok [OF assms(1) [unfolded Inr]] obtain h where
    free: "\<not> emailTaken (view s) (cr_Email req)"
    and v: "view s' = (view s)(uid \<mapsto> enc (newAccount uid now h req))" by blast
  have "wf_accounts ((view s)(ID (enc (newAccount uid now h req)) \<mapsto> enc (newAccount uid now h req)))"
    using assms(2) free by (intro wf_accounts_insert) (simp_all add: enc_keys goodAccounts_def)
  then show ?thesis
    using assms(2) by (auto simp: v enc_keys enc_status goodAccounts_def)
qed

lemma patch_status:
  "(\<forall>st. up_Status p = Some st \<longrightarrow> Valid st) \<Longrightarrow> Valid (Status a) \<Longrightarrow> Valid (Status (patch (encp p) a))"
  using encp_status [of p] by (cases "up_Status p") (auto simp: patch_def)

lemma ucUpdate_good:
  assumes "ucUpdate uc now req s = (r, s')" "goodAccounts (view s)"
  shows "goodAccounts (view s')"
proof (cases r)
  case (Inl e)
  with assms ucUpdate_err show ?thesis by metis
next
  case (Inr p)
  from ucUpdate_ok [OF assms(1) [unfolded Inr]] obtain a where
    st: "\<forall>st. ur_Status req = Some st \<longrightarrow> Valid st" and a: "view s (ur_ID req) = Some a"
    and v: "view s' = (view s)(ur_ID req \<mapsto> patch (encp (updateParams now req)) a)" by blast
  have "wf_accounts (view s')"
    unfolding v using assms(2) a by (intro wf_accounts_update [of "view s" _ a]) (simp_all add: goodAccounts_def)
  moreover have "Valid (Status (patch (encp (updateParams now req)) a))"
    using st a assms(2) by (intro patch_status) (auto simp: updateParams_def goodAccounts_def)
  ultimately show ?thesis using assms(2) by (auto simp: v goodAccounts_def)
qed

lemma ucDelete_good:
  assumes "ucDelete uc i s = (r, s')" "goodAccounts (view s)"
  shows "goodAccounts (view s')"
proof (cases r)
  case (Inl e)
  with assms ucDelete_err show ?thesis by metis
next
  case (Inr u)
  from ucDelete_ok [OF assms(1) [unfolded Inr]] assms(2) show ?thesis
    by (auto simp: goodAccounts_def intro: wf_accounts_delete split: if_splits)
qed

end

end
