(* ===== verification/UseCaseWorld.thy ===== *)
theory UseCaseWorld
  imports UseCase
begin

text \<open>
  The use case over the concrete world: a transaction manager that restores the database on
  failure, a counting rate limiter, and the wiring of the three backends with and without the
  cache.  The properties of the use case follow.
\<close>

section \<open>Concrete ports\<close>

text \<open>
  \<open>manager.Do\<close> over a database that can restore itself: the database part is put back when the
  function or the commit fails; cache, buckets and log are not part of the transaction.
\<close>

definition worldTx :: "'d world TxManager" where
  "worldTx body = (\<lambda>s.
     case body s of
       (Inl e, s') \<Rightarrow> (Inl e, put_db (w_db s) s')
     | (Inr v, s') \<Rightarrow>
         (case w_commits s' of
            Some f # fs \<Rightarrow> (Inl (DriverErr f), put_db (w_db s) (s'\<lparr>w_commits := fs\<rparr>))
          | None # fs \<Rightarrow> (Inr v, s'\<lparr>w_commits := fs\<rparr>)
          | [] \<Rightarrow> (Inr v, s')))"

definition bucketAllow :: "string \<Rightarrow> Limit \<Rightarrow> ('d world, go_error, RateResult) op" where
  "bucketAllow key limit = (\<lambda>s.
     let spent = (case map_of (w_buckets s) key of None \<Rightarrow> 0 | Some n \<Rightarrow> n)
     in if spent < li_Burst limit
        then (Inr \<lparr>rr_Allowed = 1, rr_Remaining = li_Burst limit - spent - 1, rr_RetryAfter = - 1\<rparr>,
              s\<lparr>w_buckets := put key (spent + 1) (w_buckets s)\<rparr>)
        else (Inr \<lparr>rr_Allowed = 0, rr_Remaining = 0, rr_RetryAfter = li_Period limit\<rparr>, s))"

definition worldRate :: "'d world RateLib" where
  "worldRate = \<lparr>rl_Allow = bucketAllow, rl_PerMinute = (\<lambda>n. \<lparr>li_Rate = n, li_Burst = n, li_Period = Minute\<rparr>)\<rparr>"

definition worldLimiter :: "'d world RateLimiter" where
  "worldLimiter = limiterLimit worldRate (NewRedisLimiter RateLimitDefaults)"

text \<open>A stand-in for bcrypt with its documented limit of 72 bytes.\<close>

definition demoHash :: "string \<Rightarrow> go_error + string" where
  "demoHash p = (if length p > 72 then Inl (ErrorString ''bcrypt: password length exceeds 72 bytes'')
                 else Inr (''$2a$'' @ p))"

definition info :: "string \<Rightarrow> string \<Rightarrow> 'd world \<Rightarrow> 'd world" where
  "info msg i w = w"  \<comment> \<open>the info log is not observed\<close>

definition worldUC :: "'d world AccountRepository \<Rightarrow> 'd world AccountDeps" where
  "worldUC repo = \<lparr>dp_repo = repo, dp_tx = worldTx, dp_limiter = worldLimiter,
     dp_passwords = passwordService demoHash, dp_log = info\<rparr>"

lemma worldUC_simps [simp]:
  "dp_repo (worldUC r) = r" "dp_tx (worldUC r) = worldTx" "dp_limiter (worldUC r) = worldLimiter"
  "dp_passwords (worldUC r) = passwordService demoHash" "dp_log (worldUC r) = info"
  by (simp_all add: worldUC_def)

lemma w_db_other [simp]: "w_db (s\<lparr>w_commits := fs\<rparr>) = w_db s" "w_db (s\<lparr>w_buckets := b\<rparr>) = w_db s"
  "w_cache (s\<lparr>w_commits := fs\<rparr>) = w_cache s" "w_cache (s\<lparr>w_buckets := b\<rparr>) = w_cache s"
  by simp_all

lemma worldTx_cases:
  assumes "worldTx body s = (r, s')"
  obtains (failed) e s1 where "body s = (Inl e, s1)" "r = Inl e" "w_db s' = w_db s"
    | (uncommitted) v s1 f where "body s = (Inr v, s1)" "r = Inl (DriverErr f)" "w_db s' = w_db s"
    | (committed) v s1 where "body s = (Inr v, s1)" "r = Inr v" "w_db s' = w_db s1"
proof (cases "body s")
  case (Pair x s1)
  show thesis
  proof (cases x)
    case (Inl e)
    with Pair assms show thesis by (intro failed) (auto simp: worldTx_def)
  next
    case (Inr v)
    with Pair assms have c: "(case w_commits s1 of
            Some f # fs \<Rightarrow> (Inl (DriverErr f), put_db (w_db s) (s1\<lparr>w_commits := fs\<rparr>))
          | None # fs \<Rightarrow> (Inr v, s1\<lparr>w_commits := fs\<rparr>)
          | [] \<Rightarrow> (Inr v, s1)) = (r, s')" by (simp add: worldTx_def)
    show thesis
    proof (cases "\<exists>f fs. w_commits s1 = Some f # fs")
      case True
      then obtain f fs where "w_commits s1 = Some f # fs" by blast
      with c have "r = Inl (DriverErr f)" "w_db s' = w_db s" by auto
      with Pair Inr show thesis by (intro uncommitted) auto
    next
      case False
      with c have "r = Inr v" "w_db s' = w_db s1" by (auto split: list.splits option.splits)
      with Pair Inr show thesis by (intro committed) auto
    qed
  qed
qed

lemma worldTx_tx_manager:
  fixes view :: "'d \<Rightarrow> accounts"
  shows "tx_manager worldTx (view \<circ> w_db)"
proof unfold_locales
  fix body e and s s' :: "'d world" assume "worldTx body s = (Inl e, s')"
  then show "(view \<circ> w_db) s' = (view \<circ> w_db) s" by (cases rule: worldTx_cases) auto
next
  fix body v and s s' :: "'d world" assume "worldTx body s = (Inr v, s')"
  then show "\<exists>s0 s1. (view \<circ> w_db) s0 = (view \<circ> w_db) s \<and> body s0 = (Inr v, s1)
      \<and> (view \<circ> w_db) s' = (view \<circ> w_db) s1"
  proof (cases rule: worldTx_cases)
    case (committed v1 s1)
    then have "body s = (Inr v, s1)" "(view \<circ> w_db) s' = (view \<circ> w_db) s1" by simp_all
    then show ?thesis by blast
  qed simp_all
next
  fix body e and s s' :: "'d world" assume "worldTx body s = (Inl e, s')"
  then show "noApp e \<or> (\<exists>s0 s1. (view \<circ> w_db) s0 = (view \<circ> w_db) s \<and> body s0 = (Inl e, s1))"
  proof (cases rule: worldTx_cases)
    case (failed e1 s1)
    then have "body s = (Inl e, s1)" by simp
    then show ?thesis by blast
  qed simp_all
qed

lemma worldLimiter_keeps: "keeps (v \<circ> w_db) (worldLimiter q)" "keeps w_cache (worldLimiter q)"
  unfolding worldLimiter_def
  by (rule keeps_limiterLimit, simp add: worldRate_def bucketAllow_def keeps_def Let_def)+

lemma world_use_case:
  assumes "account_writes repo (view \<circ> w_db) enc encp"
    and "\<And>a. Valid (Status a) \<Longrightarrow> Status (enc a) = Status a"
    and "\<And>p st. up_Status p = Some st \<Longrightarrow> Valid st \<Longrightarrow> up_Status (encp p) = Some st"
    and "\<And>p. up_Status p = None \<Longrightarrow> up_Status (encp p) = None"
  shows "use_case (worldUC repo) (view \<circ> w_db) enc encp"
proof (intro use_case.intro use_case_axioms.intro)
  show "account_writes (dp_repo (worldUC repo)) (view \<circ> w_db) enc encp" using assms(1) by simp
  show "tx_manager (dp_tx (worldUC repo)) (view \<circ> w_db)" by (simp add: worldTx_tx_manager)
qed (use assms(2-4) worldLimiter_keeps in \<open>simp_all add: info_def\<close>)

text \<open>All three encodings keep valid statuses.\<close>

lemma scast_valid: "Valid st \<Longrightarrow> (scast (scast st :: goint32) :: goint) = st"
  by (auto simp: Valid_def status_defs)

lemma enc_status:
  "Valid (Status a) \<Longrightarrow> Status (gormEnc a) = Status a"
  "Valid (Status a) \<Longrightarrow> Status (sqlcEnc a) = Status a"
  "Valid (Status a) \<Longrightarrow> Status (mongoEnc a) = Status a"
  by (simp_all add: gormEnc_def sqlcEnc_def mongoEnc_def scast_valid)

lemma encp_status:
  "up_Status p = Some st \<Longrightarrow> Valid st \<Longrightarrow> up_Status (gormEncp p) = Some st"
  "up_Status p = Some st \<Longrightarrow> Valid st \<Longrightarrow> up_Status (sqlcEncp p) = Some st"
  "up_Status p = Some st \<Longrightarrow> Valid st \<Longrightarrow> up_Status (mongoEncp p) = Some st"
  "up_Status p = None \<Longrightarrow> up_Status (gormEncp p) = None"
  "up_Status p = None \<Longrightarrow> up_Status (sqlcEncp p) = None"
  "up_Status p = None \<Longrightarrow> up_Status (mongoEncp p) = None"
  by (simp_all add: gormEncp_def sqlcEncp_def mongoEncp_def scast_valid)

text \<open>The wiring of the composition root (cached GORM), and the other backends uncached.\<close>

abbreviation gormUC :: "pg world AccountDeps" where
  "gormUC \<equiv> worldUC (worldRepo asciiOnly (gormRepository pgGorm) accountCacheTTL)"

interpretation gormUC: use_case gormUC "(tableView \<circ> pgRows) \<circ> w_db" gormEnc gormEncp
  by (rule world_use_case, unfold worldRepo_def, rule cachedGorm.cached_writes)
    (simp_all add: enc_status encp_status)

interpretation sqlcUC: use_case "worldUC (liftRepo (sqlcRepository pgDB))" "(tableView \<circ> pgRows) \<circ> w_db" sqlcEnc sqlcEncp
  by (rule world_use_case, rule account_repository.axioms, rule account_repository.lifted,
      rule pgx.sqlc.account_repository_axioms)
    (simp_all add: enc_status encp_status)

interpretation mongoUC: use_case "worldUC (liftRepo (mongoRepository mgColl))" "(docsView \<circ> mgRows) \<circ> w_db" mongoEnc mongoEncp
  by (rule world_use_case, rule account_repository.axioms, rule account_repository.lifted,
      rule mgd.mongo.account_repository_axioms)
    (simp_all add: enc_status encp_status)

end
