(* ===== verification/UseCaseProps.thy ===== *)
theory UseCaseProps
  imports UseCaseWorld
begin

text \<open>
  The properties of the use case: what a success means, that a failure changes nothing, the
  invariant of the stored accounts over all runs, which error each guard gives, and how the
  cached wiring departs from the uncached one.
\<close>

section \<open>Runs of the use case\<close>

inductive ucStep :: "(string \<Rightarrow> string) \<Rightarrow> 's AccountDeps \<Rightarrow> 's \<Rightarrow> 's \<Rightarrow> bool" for uni uc where
  create: "ucCreate uni uc now uid req s = (a, s') \<Longrightarrow> ucStep uni uc s s'"
| get: "ucGet uc i s = (a, s') \<Longrightarrow> ucStep uni uc s s'"
| list: "ucList uc f s = (l, s') \<Longrightarrow> ucStep uni uc s s'"
| update: "ucUpdate uc now ureq s = (a, s') \<Longrightarrow> ucStep uni uc s s'"
| delete: "ucDelete uc i s = (u, s') \<Longrightarrow> ucStep uni uc s s'"

inductive_cases ucStepE: "ucStep uni uc s s'"

context use_case
begin

lemma ucStep_good: "ucStep uni uc s s' \<Longrightarrow> goodAccounts (view s) \<Longrightarrow> goodAccounts (view s')"
  by (erule ucStepE) (auto dest: ucCreate_good ucUpdate_good ucDelete_good
      keepsD [OF ucReads_keep(1)] keepsD [OF ucReads_keep(2)])

lemma ucSteps_good: "(ucStep uni uc)\<^sup>*\<^sup>* s s' \<Longrightarrow> goodAccounts (view s) \<Longrightarrow> goodAccounts (view s')"
  by (induction rule: rtranclp_induct) (auto intro: ucStep_good)

end

text \<open>The parts of the use case that need the read half of the contract.\<close>

locale use_case_reads = use_case uc view enc encp + account_repository "dp_repo uc" view enc encp
  for uc :: "'s AccountDeps" and view enc encp
begin

lemma ucUpdate_returns:
  assumes "ucUpdate uc now req s = (Inr p, s')"
  shows "\<exists>a. view s (ur_ID req) = Some a \<and> p = Some (patch (encp (updateParams now req)) a)"
proof -
  from assms have tx: "dp_tx uc (updateBody uc now req) s = (Inr p, s')"
    by (auto simp: ucUpdate_def andThen_ret_right split: if_splits)
  from tx_done [OF tx] obtain t0 t1 where v: "view t0 = view s"
    and body: "updateBody uc now req t0 = (Inr p, t1)" by blast
  from body obtain t2 u where u: "repo_Update (dp_repo uc) (updateParams now req) t0 = (Inr u, t2)"
    and g: "repo_GetByID (dp_repo uc) (up_ID (updateParams now req)) t2 = (Inr p, t1)"
    by (auto simp: updateBody_def updateParams_def elim!: andThen_InrE)
  from update_then_get [OF u g] v show ?thesis by (simp add: updateParams_def)
qed

lemma createBody_conflict:
  assumes "createBody uc a s = (Inl e, s')" "errorsIs e (App ErrAccountAlreadyExists)"
  shows "view s (ID a) \<noteq> None \<or> emailTaken (view s) (Email a)"
proof -
  from assms(1) consider (check) "ensureEmailFree (dp_repo uc) (Email a) s = (Inl e, s')"
    | (store) s1 u where "ensureEmailFree (dp_repo uc) (Email a) s = (Inr u, s1)"
        "repo_Create (dp_repo uc) a s1 = (Inl e, s')"
    by (auto simp: createBody_def elim!: andThen_InlE)
  then show ?thesis
  proof cases
    case check
    show ?thesis
    proof (cases "\<exists>p. repo_GetByEmail (dp_repo uc) (Email a) s = (Inr p, s')")
      case True
      then show ?thesis by (auto simp: emailTaken_def dest!: email_ok)
    next
      case False
      with ensureEmailFree_result(2) [OF check]
      have "repo_GetByEmail (dp_repo uc) (Email a) s = (Inl e, s')" by blast
      with email_no_conflict [OF this] assms(2) show ?thesis by simp
    qed
  next
    case (store s1 u)
    have "view s1 = view s" using emailFree_keeps store(1) by (rule keepsD)
    with create_dup [OF store(2) assms(2)] show ?thesis by simp
  qed
qed

lemma errorsIs_noApp: "noApp e \<Longrightarrow> \<not> errorsIs e (App t)"
  by simp

text \<open>A conflict is only reported for an email or id that is taken, absence only for an absent id.\<close>

lemma ucCreate_conflict:
  assumes "ucCreate uni uc now uid req s = (Inl e, s')" "errorsIs e (App ErrAccountAlreadyExists)"
    and "\<And>q t e' t'. dp_limiter uc q t = (Inl e', t') \<Longrightarrow> noApp e'"
    and "\<And>e'. pw_IsValidPassword (dp_passwords uc) (cr_Password req) = Inl e' \<Longrightarrow> noApp e'"
    and "\<And>e'. pw_Hash (dp_passwords uc) (cr_Password req) = Inl e' \<Longrightarrow> noApp e'"
  shows "view s uid \<noteq> None \<or> emailTaken (view s) (cr_Email req)"
proof -
  let ?lr = "\<lparr>lq_Action = RateLimitActionCreateAccount, lq_Key = ToLower uni (cr_Email req)\<rparr>"
  from assms(1) consider (limiter) e0 where "dp_limiter uc ?lr s = (Inl e0, s')" "e = App (Cause ErrInternal e0)"
    | (denied) d where "e = App (WithMetadata ErrTooManyRequests ''retry_after'' d)"
    | (email) "validateEmail (cr_Email req) = Inl e"
    | (weak) "ensureStrongPassword (dp_passwords uc) (cr_Password req) = Inl e"
    | (hash) e0 where "pw_Hash (dp_passwords uc) (cr_Password req) = Inl e0" "e = App (Cause ErrInternal e0)"
    | (tx) verdict s1 h where "dp_limiter uc ?lr s = (Inr verdict, s1)"
        "dp_tx uc (createBody uc (newAccount uid now h req)) s1 = (Inl e, s')"
    by (auto simp: ucCreate_def logInfo_def elim!: andThen_InlE mapErr_InlE mapErr_InrE split: if_splits)
  then show ?thesis
  proof cases
    case limiter
    with assms(2,3) show ?thesis by auto
  next
    case denied
    with assms(2) show ?thesis by (simp add: errorsIs_App)
  next
    case email
    with assms(2) show ?thesis by (auto simp: validateEmail_def errorsIs_App split: if_splits)
  next
    case weak
    with assms(2,4) show ?thesis by (auto simp: ensureStrongPassword_def errorsIs_App split: sum.splits if_splits)
  next
    case hash
    with assms(2,5) show ?thesis by auto
  next
    case (tx verdict s1 h)
    have v: "view s1 = view s" using limiter_keeps tx(1) by (rule keepsD)
    from tx_reason [OF tx(2)] show ?thesis
    proof
      assume "noApp e"
      with assms(2) show ?thesis by simp
    next
      assume "\<exists>s0 s'. view s0 = view s1 \<and> createBody uc (newAccount uid now h req) s0 = (Inl e, s')"
      then obtain s0 s2 where "view s0 = view s1" and b: "createBody uc (newAccount uid now h req) s0 = (Inl e, s2)"
        by blast
      with createBody_conflict [OF b assms(2)] v show ?thesis by simp
    qed
  qed
qed

lemma ucGet_missing: "ucGet uc i s = (Inl e, s') \<Longrightarrow> errorsIs e (App ErrAccountNotFound) \<Longrightarrow> view s i = None"
  by (auto simp: ucGet_def idRequired_def errorsIs_App dest: get_notfound split: if_splits)

lemma ucUpdate_missing:
  assumes "ucUpdate uc now req s = (Inl e, s')" "errorsIs e (App ErrAccountNotFound)"
  shows "view s (ur_ID req) = None"
proof -
  from assms have tx: "dp_tx uc (updateBody uc now req) s = (Inl e, s')"
    by (auto simp: ucUpdate_def idRequired_def errorsIs_App andThen_ret_right split: if_splits)
  from tx_reason [OF tx] assms(2) obtain s0 s1 where v: "view s0 = view s"
    and b: "updateBody uc now req s0 = (Inl e, s1)" by auto
  from b consider "repo_Update (dp_repo uc) (updateParams now req) s0 = (Inl e, s1)"
    | s2 u where "repo_Update (dp_repo uc) (updateParams now req) s0 = (Inr u, s2)"
        "repo_GetByID (dp_repo uc) (ur_ID req) s2 = (Inl e, s1)"
    by (auto simp: updateBody_def elim!: andThen_InlE)
  then show ?thesis
  proof cases
    case 1
    from update_missing [OF 1 assms(2)] v show ?thesis by (simp add: updateParams_def)
  next
    case 2
    from update_ok [OF 2(1)] get_notfound [OF 2(2) assms(2)] show ?thesis by (auto simp: updateParams_def)
  qed
qed

lemma ucDelete_missing:
  assumes "ucDelete uc i s = (Inl e, s')" "errorsIs e (App ErrAccountNotFound)"
  shows "view s i = None"
proof -
  from assms have tx: "dp_tx uc (deleteBody uc i) s = (Inl e, s')"
    by (auto simp: ucDelete_def idRequired_def errorsIs_App logInfo_def elim!: andThen_InlE split: if_splits)
  from tx_reason [OF tx] assms(2) obtain s0 s1 where v: "view s0 = view s"
    and b: "deleteBody uc i s0 = (Inl e, s1)" by auto
  then have "repo_Delete (dp_repo uc) i s0 = (Inl e, s1)" by (auto simp: deleteBody_def elim!: andThen_InlE)
  from delete_missing [OF this assms(2)] v show ?thesis by simp
qed

end

text \<open>The uncached wirings have the read half.\<close>

lemma world_use_case_reads:
  assumes "account_repository repo (view \<circ> w_db) enc encp" "use_case (worldUC repo) (view \<circ> w_db) enc encp"
  shows "use_case_reads (worldUC repo) (view \<circ> w_db) enc encp"
  using assms by (intro use_case_reads.intro) simp_all

abbreviation plainUC :: "pg world AccountDeps" where
  "plainUC \<equiv> worldUC (liftRepo (gormRepository pgGorm))"

interpretation plainUC: use_case_reads plainUC "(tableView \<circ> pgRows) \<circ> w_db" gormEnc gormEncp
  by (rule world_use_case_reads, rule account_repository.lifted, rule pgg.gorm.account_repository_axioms,
      rule world_use_case, rule account_repository.axioms, rule account_repository.lifted,
      rule pgg.gorm.account_repository_axioms)
    (simp_all add: enc_status encp_status)

section \<open>A run that succeeds\<close>

definition spent :: "'d world \<Rightarrow> string \<Rightarrow> int" where
  "spent s key = (case map_of (w_buckets s) key of None \<Rightarrow> 0 | Some n \<Rightarrow> n)"

lemma worldLimiter_allows:
  assumes "spent s (RateLimitActionCreateAccount @ '':'' @ k) < 5"
  shows "\<exists>v b. worldLimiter \<lparr>lq_Action = RateLimitActionCreateAccount, lq_Key = k\<rparr> s
           = (Inr v, s\<lparr>w_buckets := b\<rparr>) \<and> lr_Allowed v"
  using assms
  by (simp add: worldLimiter_def limiterLimit_def policyFor_def NewRedisLimiter_def RateLimitDefaults_def
      worldRate_def bucketAllow_def spent_def Let_def andThen_def mapErr_def) blast

lemma plain_createBody:
  assumes "pg_faults (w_db s) = []" "Valid (Status a)"
    and "\<forall>r \<in> set (pgRows (w_db s)). c_id r \<noteq> ID a \<and> c_email r \<noteq> Email a"
  shows "\<exists>d. createBody plainUC a s = (Inr (Some a), put_db d s)"
proof -
  let ?t = "tableRows (pg_table (w_db s))"
  have none: "filter (whereCol ''email = ?'' (Email a)) ?t = []"
    using assms(3) by (auto simp: filter_empty_conv whereCol_def pgRows_def)
  have f: "ensureEmailFree (liftRepo (gormRepository pgGorm)) (Email a) s = (Inr (), put_db (w_db s) s)"
    using assms(1) none
    by (simp add: ensureEmailFree_def liftRepo_def onPart_def gorm_eval andThen_def mapErr_def
        ErrRecordNotFound_def)
  obtain m where m: "toModel (Some a) = Some m" by (simp add: toModel_def)
  then have keys: "m_ID m = ID a" "m_Email m = Email a" "m_Status m = Status a" by (auto simp: toModel_def)
  have fit: "fitsInt4 (Status a)" using assms(2) by (simp add: fitsInt4_def scast_valid)
  have noc: "\<not> conflicts (modelRow m) ?t"
    using assms(3) by (auto simp: conflicts_iff modelRow_def keys pgRows_def)
  have put_id: "put_db (w_db s) s = s" by (simp add: put_db_def)
  have "\<exists>d. repo_Create (liftRepo (gormRepository pgGorm)) a s = (Inr (ID a), put_db d s)"
    using assms(1) m keys fit noc
    by (auto simp: liftRepo_def onPart_def gormRepository_def gormCreate_def pgGorm_def pgGormCreate_def
        orFault_def andThen_def mapErr_def)
  then obtain d where "repo_Create (liftRepo (gormRepository pgGorm)) a s = (Inr (ID a), put_db d s)" by blast
  with f put_id show ?thesis by (auto simp: createBody_def)
qed

lemma world_create_runs:
  assumes "spent s (RateLimitActionCreateAccount @ '':'' @ ToLower uni (cr_Email req)) < 5"
    and "CHR ''@'' \<in> set (cr_Email req)" "8 \<le> length (cr_Password req)" "length (cr_Password req) \<le> 72"
    and a: "a = newAccount uid now (''$2a$'' @ cr_Password req) req"
    and body: "\<And>b. \<exists>s2. createBody (worldUC repo) a (s\<lparr>w_buckets := b\<rparr>) = (Inr (Some a), s2) \<and> w_commits s2 = []"
  shows "\<exists>s'. ucCreate uni (worldUC repo) now uid req s = (Inr (Some a), s')"
proof -
  from worldLimiter_allows [OF assms(1)] obtain v b where
    lim: "worldLimiter \<lparr>lq_Action = RateLimitActionCreateAccount, lq_Key = ToLower uni (cr_Email req)\<rparr> s
           = (Inr v, s\<lparr>w_buckets := b\<rparr>)" and v: "lr_Allowed v" by blast
  have "validateEmail (cr_Email req) = Inr ()" using assms(2) by (simp add: validateEmail_ok)
  moreover have "ensureStrongPassword (passwordService demoHash) (cr_Password req) = Inr ()"
    using assms(3) by (simp add: ensureStrongPassword_def IsValidPassword_def MinPasswordLength_def)
  moreover have "Hash demoHash (cr_Password req) = Inr (''$2a$'' @ cr_Password req)"
    using assms(4) by (simp add: Hash_def demoHash_def)
  moreover from body [of b] obtain s2 where "createBody (worldUC repo) a (s\<lparr>w_buckets := b\<rparr>) = (Inr (Some a), s2)" "w_commits s2 = []"
    by blast
  then have "worldTx (createBody (worldUC repo) a) (s\<lparr>w_buckets := b\<rparr>) = (Inr (Some a), s2)"
    by (simp add: worldTx_def)
  ultimately show ?thesis
    using lim v by (simp add: ucCreate_def logInfo_def a)
qed

lemma plain_create_runs:
  assumes "pg_faults (w_db s) = []" "w_commits s = []"
    and "spent s (RateLimitActionCreateAccount @ '':'' @ ToLower uni (cr_Email req)) < 5"
    and "CHR ''@'' \<in> set (cr_Email req)" "8 \<le> length (cr_Password req)" "length (cr_Password req) \<le> 72"
    and "\<forall>r \<in> set (pgRows (w_db s)). c_id r \<noteq> uid \<and> c_email r \<noteq> cr_Email req"
  shows "\<exists>s'. ucCreate uni plainUC now uid req s
           = (Inr (Some (newAccount uid now (''$2a$'' @ cr_Password req) req)), s')"
proof (rule world_create_runs [OF assms(3-6) refl])
  fix b
  let ?a = "newAccount uid now (''$2a$'' @ cr_Password req) req"
  obtain d where "createBody plainUC ?a (s\<lparr>w_buckets := b\<rparr>) = (Inr (Some ?a), put_db d (s\<lparr>w_buckets := b\<rparr>))"
    using plain_createBody [of "s\<lparr>w_buckets := b\<rparr>" ?a] assms(1,7) by auto
  with assms(2) show "\<exists>s2. createBody plainUC ?a (s\<lparr>w_buckets := b\<rparr>) = (Inr (Some ?a), s2) \<and> w_commits s2 = []" by simp
qed

text \<open>On the cached wiring, as long as the cache holds no entry under the email.\<close>

lemma wired_create_runs:
  assumes "pg_faults (w_db s) = []" "w_commits s = []"
    and "live (w_cache s) (AccountCacheKeyByEmail uni (cr_Email req)) = None"
    and "spent s (RateLimitActionCreateAccount @ '':'' @ ToLower uni (cr_Email req)) < 5"
    and "CHR ''@'' \<in> set (cr_Email req)" "8 \<le> length (cr_Password req)" "length (cr_Password req) \<le> 72"
    and "\<forall>r \<in> set (pgRows (w_db s)). c_id r \<noteq> uid \<and> c_email r \<noteq> cr_Email req"
  shows "\<exists>s'. ucCreate uni (worldUC (worldRepo uni (gormRepository pgGorm) ttl)) now uid req s
           = (Inr (Some (newAccount uid now (''$2a$'' @ cr_Password req) req)), s')"
proof -
  let ?a = "newAccount uid now (''$2a$'' @ cr_Password req) req" and ?uc = "worldUC (worldRepo uni (gormRepository pgGorm) ttl)"
  show ?thesis
  proof (rule world_create_runs [OF assms(4-7) refl])
    fix b
    let ?s = "s\<lparr>w_buckets := b\<rparr>"
    obtain d where plain: "createBody plainUC ?a ?s = (Inr (Some ?a), put_db d ?s)"
      using plain_createBody [of ?s ?a] assms(1,8) by auto
    then obtain s1 i where f: "ensureEmailFree (liftRepo (gormRepository pgGorm)) (cr_Email req) ?s = (Inr (), s1)"
      and c: "repo_Create (liftRepo (gormRepository pgGorm)) ?a s1 = (Inr i, put_db d ?s)" and i: "?a\<lparr>ID := i\<rparr> = ?a"
      by (auto simp: createBody_def elim!: andThen_InrE)
    from ensureEmailFree_result(1) [OF f] obtain e where
      e: "repo_GetByEmail (liftRepo (gormRepository pgGorm)) (cr_Email req) ?s = (Inl e, s1)" "errorsIs e (App ErrAccountNotFound)"
      by blast
    have "\<exists>e'. lc_Get worldCache (AccountCacheKeyByEmail uni (cr_Email req)) ?s = (Inl e', ?s)"
      using assms(3) by (simp add: memCache_def onPart_def memGet_def put_cache_def)
    then have "repo_GetByEmail (worldRepo uni (gormRepository pgGorm) ttl) (cr_Email req) ?s = (Inl e, s1)"
      using e(1) by (auto simp: worldRepo_def worldDeps_def cachedGetByEmail_def GetOnce_def)
    with e(2) c i have "createBody ?uc ?a ?s = (Inr (Some ?a), put_db d ?s)"
      by (simp add: createBody_def ensureEmailFree_def andThen_def worldRepo_def cachedCreate_def worldDeps_def)
    with assms(2) show "\<exists>s2. createBody ?uc ?a ?s = (Inr (Some ?a), s2) \<and> w_commits s2 = []" by simp
  qed
qed

text \<open>A lookup by email that misses the cache, or does not reach it, and finds no row.\<close>

lemma cached_email_absent:
  assumes "lc_Get c (AccountCacheKeyByEmail uni m) s = (Inl e, s1)" "repo_GetByEmail inner m s1 = (Inl e', s2)"
  shows "repo_GetByEmail (NewAccountRepository uni inner (cacheManager c) lg) m s = (Inl e', s2)"
  using assms by (simp add: NewAccountRepository_def cachedGetByEmail_def GetOnce_def)

text \<open>The body of Create over the cached GORM repository when GORM finds no row and inserts one.\<close>

lemma wired_createBody:
  assumes "store_part get upd"
    and repo: "dp_repo uc = NewAccountRepository uni (repoOn get upd (gormRepository g)) (cacheManager c) lg"
    and "lc_Get c (AccountCacheKeyByEmail uni (Email a)) s = (Inl e, s1)"
    and "g_First g ''email = ?'' (Email a) (get s1) = (Inl ErrRecordNotFound, d)"
    and "toModel (Some a) = Some m" "g_Create g m d = (Inr (), d')"
  shows "createBody uc a s = (Inr (Some a), upd d' s1)"
proof -
  have part: "get (upd p t) = p" "upd p (upd q t) = upd p t" for p q t
    using assms(1) by (simp_all add: store_part_def)
  let ?err = "App (Cause ErrAccountNotFound ErrRecordNotFound)"
  have "repo_GetByEmail (repoOn get upd (gormRepository g)) (Email a) s1 = (Inl ?err, upd d s1)"
    using assms(4) by (simp add: onPart_def gormRepository_def gormGetByEmail_def gormGetOne_def ErrRecordNotFound_def)
  from cached_email_absent [OF assms(3) this]
  have "ensureEmailFree (dp_repo uc) (Email a) s = (Inr (), upd d s1)"
    by (simp add: repo ensureEmailFree_def)
  moreover have "repo_Create (dp_repo uc) a (upd d s1) = (Inr (ID a), upd d' s1)"
    using assms(5,6) by (auto simp: repo NewAccountRepository_def cachedCreate_def onPart_def gormRepository_def gormCreate_def
        part toModel_def)
  ultimately show ?thesis by (simp add: createBody_def)
qed

section \<open>Properties\<close>

definition sampleReq :: CreateAccountRequest where
  "sampleReq = \<lparr>cr_Email = ''bob@x.io'', cr_Password = ''longenough'', cr_FirstName = ''Bob'',
     cr_LastName = ''Ray'', cr_Status = 9\<rparr>"

lemma sample_create:
  "\<exists>s'. ucCreate asciiOnly plainUC 7 ''u1'' sampleReq sampleWorld
     = (Inr (Some (newAccount ''u1'' 7 ''$2a$longenough'' sampleReq)), s')"
  using plain_create_runs [of sampleWorld asciiOnly sampleReq "''u1''" 7]
  by (simp add: sampleReq_def spent_def sampleWorld_def sampleRow_def)

lemma wired_sample_create:
  "\<exists>s'. ucCreate asciiOnly gormUC 7 ''u1'' sampleReq sampleWorld
     = (Inr (Some (newAccount ''u1'' 7 ''$2a$longenough'' sampleReq)), s')"
  using wired_create_runs [of sampleWorld asciiOnly sampleReq "''u1''" accountCacheTTL 7]
  by (simp add: sampleReq_def spent_def sampleWorld_def sampleRow_def)

lemma ucCreate_allowed:
  assumes "ucCreate uni uc now uid req s = (Inr p, s')"
  obtains verdict s1 where
    "dp_limiter uc \<lparr>lq_Action = RateLimitActionCreateAccount, lq_Key = ToLower uni (cr_Email req)\<rparr> s = (Inr verdict, s1)"
    "lr_Allowed verdict"
  using assms by (auto simp: ucCreate_def elim!: andThen_InrE mapErr_InrE split: if_splits)

text \<open>
  C4: a successful Create.  Over every repository and transaction manager that keep their
  contracts: the limiter was asked under the lower-cased email and allowed the request, the
  password passed the policy and was hashed, the email has an at sign, the id and the email were
  free, the result is the entity of the request with that hash, both times set to now, and status
  active unless the requested one is valid, and the one change to the durable accounts is that
  this account was added, as the backend encodes it.
\<close>

theorem create_success:
  assumes "use_case uc view enc encp" "ucCreate uni uc now uid req s = (Inr p, s')"
  shows "\<exists>verdict s1 hashed a.
      dp_limiter uc \<lparr>lq_Action = RateLimitActionCreateAccount, lq_Key = ToLower uni (cr_Email req)\<rparr> s = (Inr verdict, s1)
    \<and> lr_Allowed verdict
    \<and> pw_Hash (dp_passwords uc) (cr_Password req) = Inr hashed
    \<and> pw_IsValidPassword (dp_passwords uc) (cr_Password req) = Inr True
    \<and> CHR ''@'' \<in> set (cr_Email req) \<and> p = Some a
    \<and> a = \<lparr>ID = uid, Email = cr_Email req, FirstName = cr_FirstName req, LastName = cr_LastName req,
            PasswordHash = hashed,
            Status = (if Valid (cr_Status req) then cr_Status req else AccountStatusActive),
            CreatedAt = now, UpdatedAt = now, DeletedAt = None\<rparr>
    \<and> view s uid = None \<and> \<not> emailTaken (view s) (cr_Email req)
    \<and> view s' = (view s)(uid \<mapsto> enc a)"
proof -
  have "(if Valid st then st else AccountStatusActive) = (if \<not> Valid st then AccountStatusActive else st)" for st
    by simp
  moreover from assms(2) obtain verdict s1 where
    "dp_limiter uc \<lparr>lq_Action = RateLimitActionCreateAccount, lq_Key = ToLower uni (cr_Email req)\<rparr> s = (Inr verdict, s1)"
    "lr_Allowed verdict"
    by (rule ucCreate_allowed)
  ultimately show ?thesis using use_case.ucCreate_ok [OF assms] by (simp add: newAccount_def)
qed

theorem create_success_witness:
  "\<exists>s'. ucCreate asciiOnly gormUC 7 ''u1'' sampleReq sampleWorld
       = (Inr (Some (newAccount ''u1'' 7 ''$2a$longenough'' sampleReq)), s')
     \<and> ((tableView \<circ> pgRows) \<circ> w_db) sampleWorld ''u1'' = None"
proof -
  from wired_sample_create obtain s' where r: "ucCreate asciiOnly gormUC 7 ''u1'' sampleReq sampleWorld
      = (Inr (Some (newAccount ''u1'' 7 ''$2a$longenough'' sampleReq)), s')" by blast
  from create_success [OF gormUC.use_case_axioms r] r show ?thesis by blast
qed

text \<open>
  A successful Update names a stored account, was asked for a valid status or none, and
  changed exactly that account, to the patched one: nil fields are kept, the update time is
  now.
\<close>

lemma update_success:
  assumes "use_case uc view enc encp" "ucUpdate uc now req s = (Inr p, s')"
  shows "ur_ID req \<noteq> [] \<and> (\<forall>st. ur_Status req = Some st \<longrightarrow> Valid st)
    \<and> (\<exists>a. view s (ur_ID req) = Some a
         \<and> view s' = (view s)(ur_ID req \<mapsto> patch (encp (updateParams now req)) a))"
  by (rule use_case.ucUpdate_ok [OF assms])

definition sampleUpdate :: UpdateAccountRequest where
  "sampleUpdate = \<lparr>ur_ID = ''a1'', ur_FirstName = Some ''Janet'', ur_LastName = None, ur_Status = None\<rparr>"

lemmas update_eval = ucUpdate_def updateBody_def updateParams_def gormUpdate_def gormUpdates_def
  pgGormUpdates_def colOk_def

lemma sample_update:
  "\<exists>p s'. ucUpdate plainUC 5000 sampleUpdate sampleWorld = (Inr p, s')"
  by (simp add: update_eval sampleUpdate_def liftRepo_def onPart_def gorm_eval andThen_def mapErr_def
      worldTx_def sampleRow_def micros_def sampleWorld_def Let_def)

lemma update_success_witness:
  "\<exists>p s'. ucUpdate plainUC 5000 sampleUpdate sampleWorld = (Inr p, s')
     \<and> (\<exists>a. ((tableView \<circ> pgRows) \<circ> w_db) sampleWorld ''a1'' = Some a)"
proof -
  from sample_update obtain p s' where r: "ucUpdate plainUC 5000 sampleUpdate sampleWorld = (Inr p, s')" by blast
  from update_success [OF plainUC.use_case_axioms r] r show ?thesis by (auto simp: sampleUpdate_def)
qed

text \<open>
  Over a repository whose reads are those of the database, Update returns the account as
  it is stored after the update.
\<close>

lemma update_returns_stored:
  assumes "use_case_reads uc view enc encp" "ucUpdate uc now req s = (Inr p, s')"
  shows "p \<noteq> None \<and> view s' (ur_ID req) = p"
proof -
  from use_case.ucUpdate_ok [OF use_case_reads.axioms(1) [OF assms(1)] assms(2)]
    use_case_reads.ucUpdate_returns [OF assms] show ?thesis by auto
qed

lemma update_returns_stored_witness:
  "\<exists>p s'. ucUpdate plainUC 5000 sampleUpdate sampleWorld = (Inr p, s')
     \<and> ((tableView \<circ> pgRows) \<circ> w_db) s' ''a1'' = p"
proof -
  from sample_update obtain p s' where r: "ucUpdate plainUC 5000 sampleUpdate sampleWorld = (Inr p, s')" by blast
  from update_returns_stored [OF plainUC.use_case_reads_axioms r] r show ?thesis
    by (auto simp: sampleUpdate_def)
qed

text \<open>
  Atomicity.  Whichever guard, repository call or commit fails, a Create, Update or Delete
  that returns an error leaves the durable accounts as they were; Get and List always do.
\<close>

lemma failed_calls_change_nothing:
  assumes "use_case uc view enc encp"
  shows "(ucCreate uni uc now uid req s = (Inl e, s') \<longrightarrow> view s' = view s)
    \<and> (ucUpdate uc now ureq s = (Inl e, s') \<longrightarrow> view s' = view s)
    \<and> (ucDelete uc i s = (Inl e, s') \<longrightarrow> view s' = view s)
    \<and> view (snd (ucGet uc i s)) = view s \<and> view (snd (ucList uc f s)) = view s"
  using use_case.ucCreate_err [OF assms] use_case.ucUpdate_err [OF assms] use_case.ucDelete_err [OF assms]
    use_case.ucReads_keep [OF assms] by (auto simp: keeps_def)

lemma failed_calls_change_nothing_witness:
  "((tableView \<circ> pgRows) \<circ> w_db) (snd (ucDelete gormUC ''nobody'' sampleWorld)) = tableView [sampleRow]"
proof -
  obtain r s' where d: "ucDelete gormUC ''nobody'' sampleWorld = (r, s')" by fastforce
  have "\<exists>e. r = Inl e"
  proof (cases r)
    case (Inr u)
    from gormUC.ucDelete_ok [OF d [unfolded Inr]] show ?thesis by (simp add: rowsView_def sampleRow_def)
  qed simp
  with d failed_calls_change_nothing [OF gormUC.use_case_axioms] show ?thesis by fastforce
qed

text \<open>
  C5: the invariant.  In every state reached by calls of the use case from a good one, account
  ids are their keys, no two accounts share an email, and every stored status is active,
  inactive, blocked or deleted.
\<close>

theorem stored_accounts_invariant:
  assumes "use_case uc view enc encp" "(ucStep uni uc)\<^sup>*\<^sup>* s s'" "goodAccounts (view s)"
  shows "wf_accounts (view s') \<and> (\<forall>i a. view s' i = Some a \<longrightarrow> Valid (Status a) \<and> ID a = i)"
  using use_case.ucSteps_good [OF assms] by (auto simp: goodAccounts_def wf_accounts_def)

lemma sampleWorld_good: "goodAccounts (((tableView \<circ> pgRows) \<circ> w_db) sampleWorld)"
proof -
  have "wf_accounts (tableView [sampleRow])" by (rule pgt.view_wf) simp
  then show ?thesis by (simp add: goodAccounts_def rowsView_def sampleRow_def Valid_def status_defs)
qed

theorem stored_accounts_invariant_witness:
  "\<exists>s'. ucStep asciiOnly plainUC sampleWorld s' \<and> wf_accounts (((tableView \<circ> pgRows) \<circ> w_db) s')"
proof -
  from sample_create obtain s' where "ucStep asciiOnly plainUC sampleWorld s'" by (blast intro: ucStep.create)
  then show ?thesis
    using stored_accounts_invariant [OF plainUC.use_case_axioms r_into_rtranclp sampleWorld_good] by blast
qed

text \<open>
  C14: what Create answers before it opens a transaction, in this order: a failing limiter is
  an internal error (it does not fail open), a denied request is 429 with the retry delay, an
  email without an at sign 400, a password under 8 bytes 400, a password bcrypt refuses 500.
  Otherwise the answer is that of the transaction.
\<close>

theorem create_guard_order:
  assumes "dp_passwords uc = passwordService bcrypt"
    and "dp_limiter uc \<lparr>lq_Action = RateLimitActionCreateAccount, lq_Key = ToLower uni (cr_Email req)\<rparr> s = (l, s1)"
    and "ucCreate uni uc now uid req s = (r, s')"
  shows "(\<forall>e. l = Inl e \<longrightarrow> r = Inl (App (Cause ErrInternal e)) \<and> s' = s1)
    \<and> (\<forall>v. l = Inr v \<and> \<not> lr_Allowed v \<longrightarrow> s' = s1 \<and> (\<exists>a. r = Inl (App a) \<and> HTTPStatus a = 429
           \<and> map_of (Metadata a) ''retry_after'' = Some (DurationString (lr_RetryAfter v))))
    \<and> (\<forall>v. l = Inr v \<and> lr_Allowed v \<and> CHR ''@'' \<notin> set (cr_Email req) \<longrightarrow> s' = s1 \<and>
         (\<exists>a. r = Inl (App a) \<and> Code a = ''invalid_email'' \<and> HTTPStatus a = 400))
    \<and> (\<forall>v. l = Inr v \<and> lr_Allowed v \<and> CHR ''@'' \<in> set (cr_Email req) \<and> length (cr_Password req) < 8 \<longrightarrow>
         s' = s1 \<and> (\<exists>a. r = Inl (App a) \<and> Code a = ''weak_password'' \<and> HTTPStatus a = 400))
    \<and> (\<forall>v e. l = Inr v \<and> lr_Allowed v \<and> CHR ''@'' \<in> set (cr_Email req) \<and> \<not> length (cr_Password req) < 8
         \<and> bcrypt (cr_Password req) = Inl e \<longrightarrow>
         s' = s1 \<and> (\<exists>a. r = Inl (App a) \<and> Code a = ''internal'' \<and> HTTPStatus a = 500 \<and> Unwrap a = Some e))
    \<and> (\<forall>v h. l = Inr v \<and> lr_Allowed v \<and> CHR ''@'' \<in> set (cr_Email req) \<and> \<not> length (cr_Password req) < 8
         \<and> bcrypt (cr_Password req) = Inr h \<longrightarrow>
         r = fst (dp_tx uc (createBody uc (newAccount uid now h req)) s1))"
proof -
  have email: "validateEmail m = (if CHR ''@'' \<in> set m then Inr () else Inl (App (WithMetadata ErrInvalidEmail ''email'' m)))" for m
    by (auto simp: validateEmail_def Contains_char)
  have pw: "ensureStrongPassword (dp_passwords uc) p = (if length p < 8 then Inl (App ErrWeakPassword) else Inr ())"
    "pw_Hash (dp_passwords uc) p = bcrypt p" for p
    by (simp_all add: assms(1) ensureStrongPassword_def IsValidPassword_def MinPasswordLength_def Hash_def)
  show ?thesis
  proof (cases l)
    case (Inl e)
    with assms(2,3) show ?thesis by (simp add: ucCreate_def)
  next
    case (Inr v)
    with assms(2,3) show ?thesis
      by (cases "lr_Allowed v"; cases "CHR ''@'' \<in> set (cr_Email req)"; cases "length (cr_Password req) < 8";
          cases "bcrypt (cr_Password req)")
        (auto simp: ucCreate_def email pw Code_def HTTPStatus_def Unwrap_def map_of_Metadata logInfo_def
           andThen_def split: prod.splits sum.splits)
  qed
qed

theorem create_guard_order_witness:
  "\<exists>a. fst (ucCreate asciiOnly plainUC 7 ''u1'' (sampleReq\<lparr>cr_Password := ''short''\<rparr>) sampleWorld) = Inl (App a)
     \<and> Code a = ''weak_password''"
proof -
  let ?req = "sampleReq\<lparr>cr_Password := ''short''\<rparr>"
  obtain v b where lim: "worldLimiter \<lparr>lq_Action = RateLimitActionCreateAccount, lq_Key = ToLower asciiOnly (cr_Email ?req)\<rparr> sampleWorld
      = (Inr v, sampleWorld\<lparr>w_buckets := b\<rparr>)" and v: "lr_Allowed v"
    using worldLimiter_allows [of sampleWorld "ToLower asciiOnly (cr_Email ?req)"]
    by (auto simp: spent_def sampleWorld_def)
  obtain r s' where c: "ucCreate asciiOnly plainUC 7 ''u1'' ?req sampleWorld = (r, s')" by fastforce
  have l: "dp_limiter plainUC \<lparr>lq_Action = RateLimitActionCreateAccount, lq_Key = ToLower asciiOnly (cr_Email ?req)\<rparr> sampleWorld
      = (Inr v, sampleWorld\<lparr>w_buckets := b\<rparr>)" using lim by simp
  have p: "dp_passwords plainUC = passwordService demoHash" by simp
  have "CHR ''@'' \<in> set (cr_Email ?req)" "length (cr_Password ?req) < 8" by (simp_all add: sampleReq_def)
  with create_guard_order [OF p l c] v c show ?thesis by auto
qed

text \<open>
  C15: Create goes through.  On the wiring of the composition root, the GORM repository behind the
  cache decorator: when the limiter allows the request, the email has an at sign, the password
  has at least 8 bytes and bcrypt hashes it, the transaction opens and what its function did is
  committed, the cache has no entry under the email (or cannot be reached), and GORM finds no
  record and inserts the row, Create answers with the new account and it is stored.
\<close>

theorem create_goes_through:
  assumes "use_case uc view enc encp" "store_part get upd"
    and "dp_repo uc = NewAccountRepository uni (repoOn get upd (gormRepository g)) (cacheManager c) lg"
    and "dp_passwords uc = passwordService bcrypt"
    and "dp_limiter uc \<lparr>lq_Action = RateLimitActionCreateAccount, lq_Key = ToLower uni (cr_Email req)\<rparr> s = (Inr v, s1)" "lr_Allowed v"
    and "CHR ''@'' \<in> set (cr_Email req)" "8 \<le> length (cr_Password req)" "bcrypt (cr_Password req) = Inr h"
    and "\<forall>q t. createBody uc (newAccount uid now h req) s2 = (Inr q, t)
      \<longrightarrow> (\<exists>t'. dp_tx uc (createBody uc (newAccount uid now h req)) s1 = (Inr q, t'))"
    and "lc_Get c (AccountCacheKeyByEmail uni (cr_Email req)) s2 = (Inl e, s3)"
    and "g_First g ''email = ?'' (cr_Email req) (get s3) = (Inl ErrRecordNotFound, d)"
    and "toModel (Some (newAccount uid now h req)) = Some m" "g_Create g m d = (Inr (), d')"
  shows "\<exists>s' a. ucCreate uni uc now uid req s = (Inr (Some a), s')
    \<and> ID a = uid \<and> Email a = cr_Email req \<and> PasswordHash a = h \<and> Valid (Status a) \<and> view s' uid = Some (enc a)"
proof -
  let ?a = "newAccount uid now h req"
  have "Email ?a = cr_Email req" by simp
  from wired_createBody [OF assms(2,3), of ?a, unfolded this, OF assms(11-14)]
  have "createBody uc ?a s2 = (Inr (Some ?a), upd d' s3)" .
  with assms(10) obtain t' where tx: "dp_tx uc (createBody uc ?a) s1 = (Inr (Some ?a), t')" by blast
  have "validateEmail (cr_Email req) = Inr ()" using assms(7) by (simp add: validateEmail_ok)
  moreover have "ensureStrongPassword (dp_passwords uc) (cr_Password req) = Inr ()"
    using assms(4,8) by (simp add: ensureStrongPassword_def IsValidPassword_def MinPasswordLength_def)
  moreover have "pw_Hash (dp_passwords uc) (cr_Password req) = Inr h"
    using assms(4,9) by (simp add: Hash_def)
  ultimately have "\<exists>s'. ucCreate uni uc now uid req s = (Inr (Some ?a), s')"
    using assms(5,6) tx by (simp add: ucCreate_def logInfo_def)
  then obtain s' where r: "ucCreate uni uc now uid req s = (Inr (Some ?a), s')" by blast
  from use_case.ucCreate_ok [OF assms(1) r] have "view s' uid = Some (enc ?a)" by auto
  moreover have "PasswordHash ?a = h" by (simp add: newAccount_def)
  ultimately show ?thesis using r by (metis newAccount_fields)
qed

theorem create_goes_through_witness:
  "\<exists>s' a. ucCreate asciiOnly gormUC 7 ''u1'' sampleReq sampleWorld = (Inr (Some a), s') \<and> ID a = ''u1''
     \<and> ((tableView \<circ> pgRows) \<circ> w_db) s' ''u1'' = Some (gormEnc a)"
proof -
  obtain v b where lim: "worldLimiter \<lparr>lq_Action = RateLimitActionCreateAccount, lq_Key = ToLower asciiOnly (cr_Email sampleReq)\<rparr> sampleWorld
      = (Inr v, sampleWorld\<lparr>w_buckets := b\<rparr>)" and v: "lr_Allowed v"
    using worldLimiter_allows [of sampleWorld "ToLower asciiOnly (cr_Email sampleReq)"]
    by (auto simp: spent_def sampleWorld_def)
  let ?s = "sampleWorld\<lparr>w_buckets := b\<rparr>" and ?a = "newAccount ''u1'' 7 ''$2a$longenough'' sampleReq"
  obtain m where m: "toModel (Some ?a) = Some m" by (simp add: toModel_def)
  have repo: "dp_repo gormUC = NewAccountRepository asciiOnly (repoOn w_db put_db (gormRepository pgGorm)) (cacheManager worldCache) warn"
    by (simp add: worldRepo_wired liftRepo_repoOn)
  have miss: "lc_Get worldCache (AccountCacheKeyByEmail asciiOnly (cr_Email sampleReq)) ?s = (Inl (ErrorString ''value not found in store''), ?s)"
    by (simp add: memCache_def onPart_def memGet_def put_cache_def)
      (simp add: emptyCache_def)
  have first: "g_First pgGorm ''email = ?'' (cr_Email sampleReq) (w_db ?s) = (Inl ErrRecordNotFound, samplePg)"
    by (simp add: pgGorm_def pgGormFirst_def orFault_def whereCol_def sampleReq_def sampleRow_def)
  have keys: "m_ID m = ''u1''" "m_Email m = ''bob@x.io''" "m_Status m = AccountStatusActive"
    using m by (auto simp: toModel_def newAccount_def sampleReq_def Valid_def status_defs)
  then obtain d' where ins: "g_Create pgGorm m samplePg = (Inr (), d')"
    by (auto simp: pgGorm_def pgGormCreate_def orFault_def conflicts_iff modelRow_def sampleRow_def fitsInt4_def status_defs)
  have part: "store_part w_db put_db" by (rule dbPart.store_part_axioms)
  have "Email ?a = cr_Email sampleReq" by simp
  from wired_createBody [OF part repo, of ?a, unfolded this, OF miss first m ins]
  have "createBody gormUC ?a ?s = (Inr (Some ?a), put_db d' ?s)" .
  then have tx: "\<forall>q t. createBody gormUC ?a ?s = (Inr q, t) \<longrightarrow> (\<exists>t'. dp_tx gormUC (createBody gormUC ?a) ?s = (Inr q, t'))"
    by (simp add: worldTx_def sampleWorld_def)
  have pw: "dp_passwords gormUC = passwordService demoHash" "demoHash (cr_Password sampleReq) = Inr ''$2a$longenough''"
    by (simp_all add: demoHash_def sampleReq_def)
  have lim': "dp_limiter gormUC \<lparr>lq_Action = RateLimitActionCreateAccount, lq_Key = ToLower asciiOnly (cr_Email sampleReq)\<rparr> sampleWorld = (Inr v, ?s)"
    using lim by simp
  have "CHR ''@'' \<in> set (cr_Email sampleReq)" "8 \<le> length (cr_Password sampleReq)" by (simp_all add: sampleReq_def)
  from create_goes_through [OF gormUC.use_case_axioms part repo pw(1) lim' v this pw(2) tx miss first m ins]
  show ?thesis by blast
qed

text \<open>
  C16: honest errors.  Over a repository whose reads are those of the database, a conflict is
  answered only if the id or the email is taken, and absence only if no account has the id.
\<close>

theorem honest_errors:
  assumes "use_case_reads uc view enc encp" "dp_passwords uc = passwordService bcrypt"
    and "\<forall>q t e' t'. dp_limiter uc q t = (Inl e', t') \<longrightarrow> noApp e'"
    and "\<forall>p e'. bcrypt p = Inl e' \<longrightarrow> noApp e'"
  shows "(\<forall>e s'. ucCreate uni uc now uid req s = (Inl e, s') \<longrightarrow> errorsIs e (App ErrAccountAlreadyExists) \<longrightarrow>
           view s uid \<noteq> None \<or> emailTaken (view s) (cr_Email req))
    \<and> (\<forall>e s'. ucGet uc i s = (Inl e, s') \<longrightarrow> errorsIs e (App ErrAccountNotFound) \<longrightarrow> view s i = None)
    \<and> (\<forall>e s'. ucUpdate uc now ureq s = (Inl e, s') \<longrightarrow> errorsIs e (App ErrAccountNotFound) \<longrightarrow>
           view s (ur_ID ureq) = None)
    \<and> (\<forall>e s'. ucDelete uc i s = (Inl e, s') \<longrightarrow> errorsIs e (App ErrAccountNotFound) \<longrightarrow> view s i = None)"
proof -
  have pw: "pw_IsValidPassword (dp_passwords uc) p \<noteq> Inl e'" "pw_Hash (dp_passwords uc) p = bcrypt p" for p e'
    by (simp_all add: assms(2) IsValidPassword_def Hash_def)
  show ?thesis
    using use_case_reads.ucCreate_conflict [OF assms(1) _ _ assms(3) [rule_format]] assms(4)
      use_case_reads.ucGet_missing [OF assms(1)] use_case_reads.ucUpdate_missing [OF assms(1)]
      use_case_reads.ucDelete_missing [OF assms(1)] by (simp add: pw)
qed

theorem honest_errors_witness:
  "\<exists>e s'. ucGet plainUC ''zz'' sampleWorld = (Inl e, s') \<and> errorsIs e (App ErrAccountNotFound)
     \<and> ((tableView \<circ> pgRows) \<circ> w_db) sampleWorld ''zz'' = None"
proof -
  have lim: "\<forall>q t e' t'. dp_limiter plainUC q t = (Inl e', t') \<longrightarrow> noApp e'"
    by (auto simp: worldLimiter_def limiterLimit_def worldRate_def bucketAllow_def Let_def
        elim!: andThen_InlE mapErr_InlE split: if_splits)
  have h: "\<forall>p e'. demoHash p = Inl e' \<longrightarrow> noApp e'" by (auto simp: demoHash_def split: if_splits)
  have p: "dp_passwords plainUC = passwordService demoHash" by simp
  have "\<exists>e s'. ucGet plainUC ''zz'' sampleWorld = (Inl e, s') \<and> errorsIs e (App ErrAccountNotFound)"
    by (simp add: ucGet_def liftRepo_def onPart_def gorm_eval andThen_def mapErr_def sampleRow_def
        ErrRecordNotFound_def)
  then show ?thesis
    using honest_errors [OF plainUC.use_case_reads_axioms p lim h] by blast
qed

end
