(* ===== verification/CacheEffects.thy ===== *)
theory CacheEffects
  imports UseCaseProps
begin

text \<open>
  What the cache in front of the repository does to the use case: two behaviours of the wiring
  of the composition root (\<open>NewAccountRepository\<close> wraps every backend in the cache decorator)
  that the uncached one does not have.
\<close>

section \<open>A cached email blocks its reuse\<close>

lemma cached_email_hit:
  assumes "live (w_cache s) (AccountCacheKeyByEmail uni m) = Some v" "\<not> ms_down (w_cache s)"
  shows "repo_GetByEmail (worldRepo uni r ttl) m s = (Inr v, put_cache (w_cache s) s)"
  using assms
  by (simp add: worldRepo_def cachedGetByEmail_def worldDeps_def GetOnce_def memCache_def onPart_def memGet_def)

text \<open>
  C24: while the cache holds an entry under an email's key, Create with that email is refused
  as a conflict, whatever the database holds.  Deleting the account does not evict the entry,
  so a freed email cannot be used again until the entry expires; and since the key is
  lower-cased, an email that differs only in case is refused too.
\<close>

theorem cached_email_blocks_create:
  assumes "live (w_cache s) (AccountCacheKeyByEmail uni (cr_Email req)) = Some v" "\<not> ms_down (w_cache s)"
    and "spent s (RateLimitActionCreateAccount @ '':'' @ ToLower uni (cr_Email req)) < 5"
    and "CHR ''@'' \<in> set (cr_Email req)" "8 \<le> length (cr_Password req)" "length (cr_Password req) \<le> 72"
  shows "\<exists>e. fst (ucCreate uni (worldUC (worldRepo uni r ttl)) now uid req s) = Inl e
    \<and> errorsIs e (App ErrAccountAlreadyExists)"
proof -
  let ?uc = "worldUC (worldRepo uni r ttl)"
  from worldLimiter_allows [OF assms(3)] obtain vd b where
    lim: "worldLimiter \<lparr>lq_Action = RateLimitActionCreateAccount, lq_Key = ToLower uni (cr_Email req)\<rparr> s
           = (Inr vd, s\<lparr>w_buckets := b\<rparr>)" and vd: "lr_Allowed vd" by blast
  have email: "validateEmail (cr_Email req) = Inr ()" using assms(4) by (simp add: validateEmail_ok)
  have pw: "ensureStrongPassword (passwordService demoHash) (cr_Password req) = Inr ()"
    using assms(5) by (simp add: ensureStrongPassword_def IsValidPassword_def MinPasswordLength_def)
  have hash: "Hash demoHash (cr_Password req) = Inr (''$2a$'' @ cr_Password req)"
    using assms(6) by (simp add: Hash_def demoHash_def)
  let ?a = "newAccount uid now (''$2a$'' @ cr_Password req) req"
  let ?e = "App (WithMetadata ErrAccountAlreadyExists ''email'' (cr_Email req))"
  have hit: "repo_GetByEmail (worldRepo uni r ttl) (cr_Email req) (s\<lparr>w_buckets := b\<rparr>)
      = (Inr v, put_cache (w_cache s) (s\<lparr>w_buckets := b\<rparr>))"
    using cached_email_hit [of "s\<lparr>w_buckets := b\<rparr>" uni "cr_Email req" v r ttl] assms(1,2) by simp
  have "\<exists>s1. createBody ?uc ?a (s\<lparr>w_buckets := b\<rparr>) = (Inl ?e, s1)"
    by (simp add: createBody_def ensureEmailFree_def hit andThen_def)
  then obtain s1 where "worldTx (createBody ?uc ?a) (s\<lparr>w_buckets := b\<rparr>) = (Inl ?e, s1)"
    by (auto simp: worldTx_def)
  then have "fst (ucCreate uni ?uc now uid req s) = Inl ?e"
    using lim vd email pw hash by (simp add: ucCreate_def)
  then show ?thesis by (simp add: errorsIs_App)
qed

definition janeAgain :: CreateAccountRequest where
  "janeAgain = \<lparr>cr_Email = ''jane@x.io'', cr_Password = ''longenough'', cr_FirstName = ''Jane'',
     cr_LastName = ''Doe'', cr_Status = 1\<rparr>"

lemma ToLower_jane [simp]: "ToLower asciiOnly ''Jane@X.io'' = ''jane@x.io''"
  by code_simp

theorem cached_email_blocks_create_witness:
  "\<exists>s' e. ucDelete gormUC ''a1'' staleWorld = (Inr (), s') \<and> pgRows (w_db s') = []
     \<and> fst (ucCreate asciiOnly gormUC 7 ''u1'' janeAgain s') = Inl e
     \<and> errorsIs e (App ErrAccountAlreadyExists)"
proof -
  have "\<exists>s'. ucDelete gormUC ''a1'' staleWorld = (Inr (), s') \<and> pgRows (w_db s') = []
      \<and> w_buckets s' = [] \<and> \<not> ms_down (w_cache s')
      \<and> live (w_cache s') (AccountCacheKeyByEmail asciiOnly ''jane@x.io'') = Some (Some (rowAccount sampleRow))"
    by (simp add: ucDelete_def deleteBody_def logInfo_def info_def worldTx_def world_eval gorm_eval
        staleWorld_def sampleWorld_def sampleRow_def pgRows_def live_def accountCacheTTL_def Minute_def
        AccountCacheKeyByID_def AccountCacheKeyByEmail_def)
  then obtain s' where d: "ucDelete gormUC ''a1'' staleWorld = (Inr (), s')" "pgRows (w_db s') = []"
    and c: "w_buckets s' = []" "\<not> ms_down (w_cache s')"
      "live (w_cache s') (AccountCacheKeyByEmail asciiOnly ''jane@x.io'') = Some (Some (rowAccount sampleRow))"
    by blast
  have "\<exists>e. fst (ucCreate asciiOnly gormUC 7 ''u1'' janeAgain s') = Inl e \<and> errorsIs e (App ErrAccountAlreadyExists)"
    by (rule cached_email_blocks_create) (use c in \<open>simp_all add: janeAgain_def spent_def\<close>)
  with d show ?thesis by blast
qed

section \<open>A rolled-back update stays in the cache\<close>

text \<open>The read-back of an Update whose eviction succeeded leaves the patched account in the cache.\<close>

lemma updateBody_caches:
  assumes "account_repository r view enc encp" "dp_repo uc = worldRepo uni r ttl"
    and "updateBody uc now req s = (Inr p, s')" "\<not> ms_down (w_cache s)"
  shows "\<exists>a. view (w_db s) (ur_ID req) = Some a \<and> p = Some (patch (encp (updateParams now req)) a)
    \<and> ms_entries (w_cache s') = put (AccountCacheKeyByID (ur_ID req)) (p, ms_now (w_cache s) + ttl)
        (drop_key (AccountCacheKeyByID (ur_ID req)) (ms_entries (w_cache s)))
    \<and> ms_now (w_cache s') = ms_now (w_cache s) \<and> \<not> ms_down (w_cache s')"
proof -
  note lifted = account_repository.lifted [OF assms(1)]
  note writes = account_repository.axioms(1) [OF lifted]
  let ?k = "AccountCacheKeyByID (ur_ID req)"
  from assms(3) obtain u s2 where u: "cachedUpdate (worldDeps r ttl) (updateParams now req) s = (Inr u, s2)"
    and g: "cachedGetByID (worldDeps r ttl) (ur_ID req) s2 = (Inr p, s')"
    by (auto simp: updateBody_def assms(2) worldRepo_def elim!: andThen_InrE)
  from u obtain s1 where w: "repo_Update (liftRepo r) (updateParams now req) s = (Inr (), s1)"
    and i: "invalidate (worldDeps r ttl) ?k s1 = (Inr (), s2)"
    by (auto simp: cachedUpdate_def worldDeps_def updateParams_def elim!: andThen_InrE)
  have c1: "w_cache s1 = w_cache s"
    using account_repository.lifted_keeps_cache(4) [OF assms(1)] w by (rule keepsD)
  with i assms(4) have s2: "s2 = put_cache ((w_cache s)\<lparr>ms_entries := drop_key ?k (ms_entries (w_cache s))\<rparr>) s1"
    by (simp add: invalidate_def worldDeps_def memCache_def onPart_def memDelete_def)
  have "lc_Get worldCache ?k s2 = (Inl (ErrorString ''value not found in store''), s2)"
    using assms(4) by (simp add: memCache_def onPart_def memGet_def s2 live_drop put_cache_def)
  with g obtain s3 where l: "repo_GetByID (liftRepo r) (ur_ID req) s2 = (Inr p, s3)"
    and st: "lc_Set worldCache ?k p ttl s3 = (Inr (), s')"
    by (auto simp: cachedGetByID_def worldDeps_def GetOnce_def elim!: andThen_InrE)
  have c3: "w_cache s3 = w_cache s2"
    using account_repository.lifted_keeps_cache(2) [OF assms(1)] l by (rule keepsD)
  from account_writes.update_ok [OF writes w] obtain a where a: "view (w_db s) (ur_ID req) = Some a"
    "view (w_db s1) = (view (w_db s))(ur_ID req \<mapsto> patch (encp (updateParams now req)) a)"
    by (auto simp: updateParams_def)
  from account_repository.get_ok [OF lifted l] a(2) have "p = Some (patch (encp (updateParams now req)) a)"
    by (simp add: s2)
  moreover have "w_cache s' = (w_cache s2)\<lparr>ms_entries := put ?k (p, ms_now (w_cache s2) + ttl) (ms_entries (w_cache s2))\<rparr>"
    using st c3 assms(4) by (auto simp: memCache_def onPart_def memSet_def s2 split: if_splits)
  ultimately show ?thesis using a(1) assms(4) by (simp add: s2)
qed

text \<open>
  C25: the read-back inside the transaction of Update goes through the cache, so it stores the
  uncommitted row.  On the cached wiring of the composition root, over every backend: if the
  function of the transaction ran to its end with the cache reachable, and WithTx then returned an
  error (the commit failed) and left the cache as the function left it, then Update returns that
  error, the durable accounts are as before, and for one time to live every read by id returns
  the patched account that was never committed.
\<close>

theorem rolled_back_update_served:
  assumes "account_repository r view enc encp" "dp_repo uc = worldRepo uni r accountCacheTTL"
    and "tx_manager (dp_tx uc) (view \<circ> w_db)"
    and "ur_ID req \<noteq> []" "\<forall>st. ur_Status req = Some st \<longrightarrow> Valid st"
    and "view (w_db s0) = view (w_db s)" "\<not> ms_down (w_cache s0)" "updateBody uc now req s0 = (Inr p, s1)"
    and "dp_tx uc (updateBody uc now req) s = (Inl e, s')" "w_cache s' = w_cache s1"
  shows "ucUpdate uc now req s = (Inl e, s') \<and> view (w_db s') = view (w_db s)
    \<and> (\<exists>a. view (w_db s') (ur_ID req) = Some a \<and> (\<forall>dt. 0 \<le> dt \<longrightarrow> dt < accountCacheTTL \<longrightarrow>
        fst (ucGet uc (ur_ID req) (put_cache ((w_cache s')\<lparr>ms_now := ms_now (w_cache s') + dt\<rparr>) s'))
          = Inr (Some (patch (encp (updateParams now req)) a))))"
proof -
  from updateBody_caches [OF assms(1,2,8,7)] obtain a where a: "view (w_db s0) (ur_ID req) = Some a"
    "p = Some (patch (encp (updateParams now req)) a)"
    and c: "map_of (ms_entries (w_cache s')) (AccountCacheKeyByID (ur_ID req)) = Some (p, ms_now (w_cache s') + accountCacheTTL)"
      "\<not> ms_down (w_cache s')"
    by (auto simp: assms(10))
  have v: "view (w_db s') = view (w_db s)" using tx_manager.tx_error [OF assms(3,9)] by simp
  have "fst (ucGet uc (ur_ID req) (put_cache ((w_cache s')\<lparr>ms_now := ms_now (w_cache s') + dt\<rparr>) s')) = Inr p"
    if "0 \<le> dt" "dt < accountCacheTTL" for dt
    using that c assms(4)
    by (simp add: ucGet_def assms(2) worldRepo_def cachedGetByID_def worldDeps_def GetOnce_def memCache_def onPart_def
        memGet_def live_def)
  moreover have "ucUpdate uc now req s = (Inl e, s')"
    using assms(4,5,9) by (simp add: ucUpdate_def andThen_ret_right split: option.split)
  ultimately show ?thesis using v a assms(6) by simp
qed

theorem rolled_back_update_served_witness:
  "\<exists>s' a. ucUpdate gormUC 5000 sampleUpdate (sampleWorld\<lparr>w_commits := [Some ''connection reset'']\<rparr>)
       = (Inl (DriverErr ''connection reset''), s')
     \<and> tableView (pgRows (w_db s')) ''a1'' = Some a \<and> FirstName a = ''Jane''
     \<and> (\<exists>b. fst (ucGet gormUC ''a1'' s') = Inr (Some b) \<and> FirstName b = ''Janet'')"
proof -
  let ?s = "sampleWorld\<lparr>w_commits := [Some ''connection reset'']\<rparr>"
  have "\<exists>p s1. updateBody gormUC 5000 sampleUpdate ?s = (Inr p, s1) \<and> w_commits s1 = [Some ''connection reset'']"
    by (simp add: update_eval sampleUpdate_def world_eval gorm_eval sampleRow_def micros_def sampleWorld_def
        emptyCache_def live_def Let_def)
  then obtain p s1 where b: "updateBody gormUC 5000 sampleUpdate ?s = (Inr p, s1)" "w_commits s1 = [Some ''connection reset'']"
    by blast
  let ?s' = "put_db (w_db ?s) (s1\<lparr>w_commits := []\<rparr>)"
  have tx: "dp_tx gormUC (updateBody gormUC 5000 sampleUpdate) ?s = (Inl (DriverErr ''connection reset''), ?s')"
    using b by (simp add: worldTx_def)
  have up: "\<not> ms_down (w_cache ?s)" by (simp add: emptyCache_def)
  have idn: "ur_ID sampleUpdate = ''a1''" "ur_Status sampleUpdate = None" by (simp_all add: sampleUpdate_def)
  have g: "ur_ID sampleUpdate \<noteq> []" "\<forall>st. ur_Status sampleUpdate = Some st \<longrightarrow> Valid st" by (simp_all add: idn)
  have repo: "dp_repo gormUC = worldRepo asciiOnly (gormRepository pgGorm) accountCacheTTL" by simp
  have txm: "tx_manager (dp_tx gormUC) ((tableView \<circ> pgRows) \<circ> w_db)" by (simp add: worldTx_tx_manager)
  have c: "w_cache ?s' = w_cache s1" by simp
  from rolled_back_update_served [OF pgg.gorm.account_repository_axioms repo txm g refl up b(1) tx c]
  obtain a where u: "ucUpdate gormUC 5000 sampleUpdate ?s = (Inl (DriverErr ''connection reset''), ?s')"
    and v: "(tableView \<circ> pgRows) (w_db ?s') = (tableView \<circ> pgRows) (w_db ?s)" "(tableView \<circ> pgRows) (w_db ?s') ''a1'' = Some a"
    and r: "\<forall>dt. 0 \<le> dt \<longrightarrow> dt < accountCacheTTL \<longrightarrow>
        fst (ucGet gormUC ''a1'' (put_cache ((w_cache ?s')\<lparr>ms_now := ms_now (w_cache ?s') + dt\<rparr>) ?s'))
          = Inr (Some (patch (gormEncp (updateParams 5000 sampleUpdate)) a))"
    unfolding idn(1) by blast
  have "a = rowAccount sampleRow" using v by (simp add: rowsView_def sampleRow_def)
  then have n: "FirstName a = ''Jane''" by (simp add: sampleRow_def rowAccount_def)
  have "FirstName (patch (gormEncp (updateParams 5000 sampleUpdate)) a) = ''Janet''"
    by (simp add: patch_def gormEncp_def updateParams_def sampleUpdate_def)
  moreover have "put_cache ((w_cache ?s')\<lparr>ms_now := ms_now (w_cache ?s') + 0\<rparr>) ?s' = ?s'" by (simp add: put_cache_def)
  moreover have "(0::int) < accountCacheTTL" by (simp add: accountCacheTTL_def Minute_def)
  with r [rule_format, of 0] have "fst (ucGet gormUC ''a1'' (put_cache ((w_cache ?s')\<lparr>ms_now := ms_now (w_cache ?s') + 0\<rparr>) ?s'))
      = Inr (Some (patch (gormEncp (updateParams 5000 sampleUpdate)) a))" by blast
  ultimately have "fst (ucGet gormUC ''a1'' ?s') = Inr (Some (patch (gormEncp (updateParams 5000 sampleUpdate)) a))"
      "FirstName (patch (gormEncp (updateParams 5000 sampleUpdate)) a) = ''Janet''" by (simp_all only:)
  with u v(2) n show ?thesis by (metis comp_apply)
qed
section \<open>A store that cannot encode accounts\<close>

text \<open>
  The Redis client encodes basic values and \<open>encoding.BinaryMarshaler\<close>s and refuses every other
  value with an error; \<open>*domain.Account\<close>, the value type of the wired cache, is no marshaler.
\<close>

definition refusesAll :: "('s, 'v) LibCache \<Rightarrow> bool" where
  "refusesAll c \<longleftrightarrow> (\<forall>k v t s. \<exists>e. fst (lc_Set c k v t s) = Inl e) \<and> (\<forall>k s. \<exists>e. fst (lc_Get c k s) = Inl e)"

lemma GetOnce_refused: "refusesAll c \<Longrightarrow> GetOnce c k loader ttl s \<noteq> (Inr v, s')"
  by (auto simp: refusesAll_def GetOnce_def elim!: andThen_InrE split: prod.splits sum.splits)
    (metis Inl_Inr_False fst_conv)+

text \<open>
  C27: over a cache whose store refuses every account (and which therefore never holds one), the
  wired repository returns no account by id or email, existing or not; so no Get of the use
  case succeeds, no Update does, and every Update leaves the durable accounts unchanged.
\<close>

theorem unstorable_accounts_unreadable:
  assumes "refusesAll c" "dp_repo uc = NewAccountRepository uni inner (cacheManager c) lg"
    and "use_case uc view enc encp"
  shows "(\<forall>p t. repo_GetByID (dp_repo uc) i s \<noteq> (Inr p, t)) \<and> (\<forall>p t. repo_GetByEmail (dp_repo uc) m s \<noteq> (Inr p, t))
    \<and> (\<forall>p t. ucGet uc i s \<noteq> (Inr p, t))
    \<and> (\<exists>e t. ucUpdate uc now req s = (Inl e, t) \<and> view t = view s)"
proof -
  have r: "repo_GetByID (dp_repo uc) j u \<noteq> (Inr p, t)" "repo_GetByEmail (dp_repo uc) m u \<noteq> (Inr p, t)" for j u p t
    using GetOnce_refused [OF assms(1)]
    by (simp_all add: assms(2) NewAccountRepository_def cachedGetByID_def cachedGetByEmail_def)
  have "updateBody uc now req u \<noteq> (Inr p, t)" for u p t
    using r(1) by (auto simp: updateBody_def elim!: andThen_InrE)
  then have "ucUpdate uc now req s \<noteq> (Inr p, t)" for p t
    using tx_manager.tx_done [OF use_case.axioms(2) [OF assms(3)]]
    by (fastforce simp: ucUpdate_def elim!: andThen_InrE split: if_splits)
  then obtain e t where u: "ucUpdate uc now req s = (Inl e, t)" by (metis old.prod.exhaust old.sum.exhaust)
  from use_case.ucUpdate_err [OF assms(3) u] u r show ?thesis
    by (auto simp: ucGet_def split: if_splits)
qed

definition redisStore :: "('s, account ptr) LibCache" where
  "redisStore = \<lparr>lc_Get = (\<lambda>k. throw (ErrorString ''redis: nil'')),
     lc_Set = (\<lambda>k v t. throw (ErrorString ''redis: can't marshal *domain.Account (implement encoding.BinaryMarshaler)'')),
     lc_Delete = (\<lambda>k. ret ())\<rparr>"

abbreviation brokenUC :: "pg world AccountDeps" where
  "brokenUC \<equiv> worldUC (NewAccountRepository asciiOnly (liftRepo (gormRepository pgGorm)) (cacheManager redisStore) warn)"

lemma redisStore_backend:
  "cached_backend (liftRepo (gormRepository pgGorm)) ((tableView \<circ> pgRows) \<circ> w_db) gormEnc gormEncp redisStore
     (\<lambda>_. Map.empty) \<lparr>cd_inner = liftRepo (gormRepository pgGorm), cd_cache = cacheManager redisStore,
                        cd_ttl = accountCacheTTL, cd_log = warn\<rparr>"
proof -
  have w: "account_writes (liftRepo (gormRepository pgGorm)) ((tableView \<circ> pgRows) \<circ> w_db) gormEnc gormEncp"
    by (rule account_repository.axioms, rule account_repository.lifted, rule pgg.gorm.account_repository_axioms)
  have kv: "kv_cache redisStore (\<lambda>_. Map.empty) ((tableView \<circ> pgRows) \<circ> w_db)"
    by unfold_locales (auto simp: redisStore_def keeps_intros)
  show ?thesis
    by (intro cached_backend.intro w kv cached_backend_axioms.intro) (simp_all add: keeps_def)
qed

interpretation brokenUC: use_case brokenUC "(tableView \<circ> pgRows) \<circ> w_db" gormEnc gormEncp
  by (rule world_use_case, unfold NewAccountRepository_def, rule cached_backend.cached_writes [OF redisStore_backend])
    (simp_all add: enc_status encp_status)

theorem unstorable_accounts_unreadable_witness:
  "\<exists>e t. ucUpdate brokenUC 5000 sampleUpdate sampleWorld = (Inl e, t)
     \<and> ((tableView \<circ> pgRows) \<circ> w_db) t = ((tableView \<circ> pgRows) \<circ> w_db) sampleWorld"
proof -
  have c: "refusesAll (redisStore :: (pg world, account ptr) LibCache)" by (simp add: refusesAll_def redisStore_def)
  have r: "dp_repo brokenUC = NewAccountRepository asciiOnly (liftRepo (gormRepository pgGorm)) (cacheManager redisStore) warn"
    by simp
  show ?thesis
    using unstorable_accounts_unreadable [OF c r brokenUC.use_case_axioms, where now = 5000 and req = sampleUpdate
        and s = sampleWorld] by blast
qed

end
