(* ===== verification/ApperrHeap.thy ===== *)
theory ApperrHeap
  imports Apperr
begin

text \<open>
  The copying methods of \<open>AppError\<close> on an explicit store.  The catalogue's sentinels are
  package-level pointers shared by every request, and each method first copies the receiver
  and its metadata map and then writes to the copy.  The store makes the two aliasing risks
  visible: writing through the receiver, and sharing the metadata map between the receiver
  and the copy.  The results refine the value-level methods of theory Apperr.
\<close>

section \<open>Store\<close>

text \<open>
  An object keeps the address of its metadata map (nil-able); a cause is an interface value
  and is stored as it is.  Addresses from \<open>next_obj\<close> and \<open>next_map\<close> on are free.
\<close>

record err_obj =
  o_code :: string
  o_message :: string
  o_httpStatus :: nat
  o_grpcCode :: grpc_code
  o_cause :: "go_error option"
  o_meta :: "nat option"

record err_heap =
  objs :: "nat \<Rightarrow> err_obj"
  maps :: "nat \<Rightarrow> (string \<times> string) list"
  next_obj :: nat
  next_map :: nat

definition allocMap :: "(string \<times> string) list \<Rightarrow> err_heap \<Rightarrow> nat \<times> err_heap" where
  "allocMap m h = (next_map h, h\<lparr>maps := (maps h)(next_map h := m), next_map := Suc (next_map h)\<rparr>)"

definition allocObj :: "err_obj \<Rightarrow> err_heap \<Rightarrow> nat \<times> err_heap" where
  "allocObj ob h = (next_obj h, h\<lparr>objs := (objs h)(next_obj h := ob), next_obj := Suc (next_obj h)\<rparr>)"

definition writeObj :: "nat \<Rightarrow> (err_obj \<Rightarrow> err_obj) \<Rightarrow> err_heap \<Rightarrow> err_heap" where
  "writeObj a f h = h\<lparr>objs := (objs h)(a := f (objs h a))\<rparr>"

section \<open>Methods\<close>

definition heapMetadata :: "nat \<Rightarrow> err_heap \<Rightarrow> nat \<times> err_heap" where
  "heapMetadata e h =
     allocMap (copyMap (case o_meta (objs h e) of None \<Rightarrow> [] | Some m \<Rightarrow> maps h m)) h"

definition heapClone :: "nat \<Rightarrow> err_heap \<Rightarrow> nat \<times> err_heap" where
  "heapClone e h =
     (case allocObj (objs h e) h of
        (cp, h1) \<Rightarrow> (case heapMetadata e h1 of
                       (m, h2) \<Rightarrow> (cp, writeObj cp (\<lambda>ob. ob\<lparr>o_meta := Some m\<rparr>) h2)))"

definition heapCause :: "nat \<Rightarrow> go_error \<Rightarrow> err_heap \<Rightarrow> nat \<times> err_heap" where
  "heapCause e err h =
     (case heapClone e h of (c, h1) \<Rightarrow> (c, writeObj c (\<lambda>ob. ob\<lparr>o_cause := Some err\<rparr>) h1))"

definition heapWithMessage :: "nat \<Rightarrow> string \<Rightarrow> err_heap \<Rightarrow> nat \<times> err_heap" where
  "heapWithMessage e msg h =
     (case heapClone e h of (c, h1) \<Rightarrow> (c, writeObj c (\<lambda>ob. ob\<lparr>o_message := msg\<rparr>) h1))"

definition heapWithMetadata :: "nat \<Rightarrow> string \<Rightarrow> string \<Rightarrow> err_heap \<Rightarrow> nat \<times> err_heap" where
  "heapWithMetadata e key val h =
     (case heapClone e h of
        (c, h1) \<Rightarrow>
          (case o_meta (objs h1 c) of
             None \<Rightarrow> (case allocMap [] h1 of
                        (m, h2) \<Rightarrow> (c, (writeObj c (\<lambda>ob. ob\<lparr>o_meta := Some m\<rparr>) h2)
                                          \<lparr>maps := (maps h2)(m := put key val [])\<rparr>))
           | Some m \<Rightarrow> (c, h1\<lparr>maps := (maps h1)(m := put key val (maps h1 m))\<rparr>)))"

section \<open>Abstraction and frame\<close>

definition absErr :: "err_heap \<Rightarrow> nat \<Rightarrow> app_error" where
  "absErr h a = (let ob = objs h a in
     AppError (o_code ob) (o_message ob) (o_httpStatus ob) (o_grpcCode ob) (o_cause ob)
       (map_option (maps h) (o_meta ob)))"

text \<open>Allocated objects only refer to allocated maps.\<close>

definition wf_heap :: "err_heap \<Rightarrow> bool" where
  "wf_heap h \<longleftrightarrow> (\<forall>a < next_obj h. \<forall>m. o_meta (objs h a) = Some m \<longrightarrow> m < next_map h)"

text \<open>Everything allocated before is as it was.\<close>

definition unchanged :: "err_heap \<Rightarrow> err_heap \<Rightarrow> bool" where
  "unchanged h h' \<longleftrightarrow> next_obj h \<le> next_obj h' \<and> next_map h \<le> next_map h'
     \<and> (\<forall>a < next_obj h. objs h' a = objs h a) \<and> (\<forall>m < next_map h. maps h' m = maps h m)"

lemma unchanged_absErr:
  assumes "unchanged h h'" "wf_heap h" "a < next_obj h"
  shows "absErr h' a = absErr h a"
  using assms by (cases "o_meta (objs h a)") (auto simp: absErr_def unchanged_def wf_heap_def Let_def)

lemmas heap_defs = allocMap_def allocObj_def writeObj_def heapMetadata_def heapClone_def
  heapCause_def heapWithMessage_def heapWithMetadata_def

lemma heapClone_result:
  assumes "e < next_obj h"
  shows "heapClone e h =
    (next_obj h,
     h\<lparr>objs := (objs h)(next_obj h := (objs h e)\<lparr>o_meta := Some (next_map h)\<rparr>),
       maps := (maps h)(next_map h := Metadata (absErr h e)),
       next_obj := Suc (next_obj h), next_map := Suc (next_map h)\<rparr>)"
  using assms
  by (cases "o_meta (objs h e)")
     (simp_all add: heap_defs Metadata_def absErr_def Let_def)

lemma heapClone_frame:
  "e < next_obj h \<Longrightarrow> wf_heap h \<Longrightarrow> heapClone e h = (c, h') \<Longrightarrow>
     c = next_obj h \<and> unchanged h h' \<and> wf_heap h' \<and> absErr h' c = clone (absErr h e)"
  by (auto simp: heapClone_result unchanged_def wf_heap_def absErr_def clone_def Let_def less_Suc_eq)

section \<open>Properties\<close>

text \<open>
  C34: WithMetadata never writes to an error or a metadata map that existed before the call
  (so a shared sentinel is never mutated); its result is a new object that reads as the
  value-level WithMetadata of the receiver.
\<close>

theorem heapWithMetadata_copies:
  assumes "e < next_obj h" "wf_heap h" "heapWithMetadata e k v h = (c, h')"
  shows "unchanged h h' \<and> wf_heap h' \<and> (\<forall>a < next_obj h. absErr h' a = absErr h a)
     \<and> next_obj h \<le> c \<and> absErr h' c = WithMetadata (absErr h e) k v"
proof -
  have "unchanged h h'" "wf_heap h'" "next_obj h \<le> c" "absErr h' c = WithMetadata (absErr h e) k v"
    using assms
    by (auto simp: heapWithMetadata_def heapClone_result unchanged_def wf_heap_def absErr_def
        WithMetadata_def clone_def Let_def less_Suc_eq)
  with assms(2) show ?thesis by (auto intro: unchanged_absErr)
qed

definition sampleHeap :: err_heap where
  "sampleHeap = \<lparr>objs = (\<lambda>_. \<lparr>o_code = ''invalid_email'', o_message = ''invalid email'', o_httpStatus = 400,
       o_grpcCode = InvalidArgument, o_cause = None, o_meta = Some 0\<rparr>),
     maps = (\<lambda>_. [(''field'', ''email'')]), next_obj = 1, next_map = 1\<rparr>"

theorem heapWithMetadata_copies_witness:
  "absErr (snd (heapWithMetadata 0 ''email'' ''x'' sampleHeap)) 0 = absErr sampleHeap 0
   \<and> map_of (Metadata (absErr (snd (heapWithMetadata 0 ''email'' ''x'' sampleHeap))
        (fst (heapWithMetadata 0 ''email'' ''x'' sampleHeap)))) ''email'' = Some ''x''"
proof -
  have h: "0 < next_obj sampleHeap" "wf_heap sampleHeap"
    by (simp_all add: sampleHeap_def wf_heap_def)
  obtain c h' where r: "heapWithMetadata 0 ''email'' ''x'' sampleHeap = (c, h')"
    by (cases "heapWithMetadata 0 ''email'' ''x'' sampleHeap")
  show ?thesis using heapWithMetadata_copies [OF h r] h r by (simp add: map_of_Metadata)
qed

text \<open>
  Cause and WithMessage do not write to anything that existed before either, and refine
  their value-level counterparts.
\<close>

lemma heapCause_heapWithMessage_copy:
  assumes "e < next_obj h" "wf_heap h"
  shows "(case heapCause e err h of (c, h') \<Rightarrow>
            unchanged h h' \<and> wf_heap h' \<and> next_obj h \<le> c \<and> absErr h' c = Cause (absErr h e) err)
       \<and> (case heapWithMessage e ms h of (c, h') \<Rightarrow>
            unchanged h h' \<and> wf_heap h' \<and> next_obj h \<le> c \<and> absErr h' c = WithMessage (absErr h e) ms)"
  using assms
  by (auto simp: heapCause_def heapWithMessage_def heapClone_result writeObj_def unchanged_def
      wf_heap_def absErr_def Cause_def WithMessage_def clone_def Let_def less_Suc_eq)

lemma heapCause_heapWithMessage_copy_witness:
  "absErr (snd (heapCause 0 (ErrorString ''x'') sampleHeap)) (fst (heapCause 0 (ErrorString ''x'') sampleHeap))
     = Cause (absErr sampleHeap 0) (ErrorString ''x'')"
proof -
  have h: "0 < next_obj sampleHeap" "wf_heap sampleHeap"
    by (simp_all add: sampleHeap_def wf_heap_def)
  show ?thesis using heapCause_heapWithMessage_copy [OF h, of "ErrorString ''x''"]
    by (simp add: case_prod_beta)
qed

end
