(* ===== verification/Render.thy ===== *)
theory Render
  imports Apperr
begin

text \<open>
  How errors leave the process: \<open>internal/infra/httpx\<close> (error to HTTP status and JSON body)
  and the two gRPC interceptors of \<open>internal/infra/grpcx\<close>.
\<close>

section \<open>HTTP: \<open>httpx.NewError\<close>\<close>

record ErrorResponse =
  er_code :: string
  er_message :: string
  er_metadata :: "(string \<times> string) list option"  \<comment> \<open>omitted from the JSON when nil\<close>

record HTTPError =
  he_status :: nat
  he_body :: ErrorResponse

definition NewError :: "go_error option \<Rightarrow> HTTPError" where
  "NewError err =
     (let e = (case err of None \<Rightarrow> App ErrInternal | Some e \<Rightarrow> e);
          ae = fst (extractApp e);
          meta = Metadata ae
      in \<lparr>he_status = HTTPStatus ae,
          he_body = \<lparr>er_code = Code ae, er_message = Message ae,
                     er_metadata = (if length meta > 0 then Some meta else None)\<rparr>\<rparr>)"

text \<open>What a client sees of an error response (a JSON object is unordered).\<close>

definition rendered :: "HTTPError \<Rightarrow> nat \<times> string \<times> string \<times> (string \<rightharpoonup> string) option" where
  "rendered r = (he_status r, er_code (he_body r), er_message (he_body r),
                 map_option map_of (er_metadata (he_body r)))"

lemma extractApp_App [simp]: "extractApp (App e) = (e, True)"
  by (simp add: extractApp_def)

lemma extractApp_Wrapf [simp]: "asApp e \<noteq> None \<Longrightarrow> extractApp (Wrapf f as e) = extractApp e"
  by (auto simp: extractApp_def)

lemma extractApp_foreign: "asApp e = None \<Longrightarrow> extractApp e = (Cause ErrInternal e, False)"
  by (simp add: extractApp_def)

lemma rendered_App:
  "rendered (NewError (Some (App e))) =
     (e_httpStatus e, e_code e, e_message e,
      if e_meta e = None \<or> e_meta e = Some [] then None
      else Some (map_of (Metadata e)))"
  by (auto simp: rendered_def NewError_def HTTPStatus_def Code_def Message_def Metadata_Nil_iff Let_def)

lemma rendered_foreign:
  "asApp err = None \<Longrightarrow> rendered (NewError (Some err)) = (500, ''internal'', ''internal server error'', None)"
  by (simp add: rendered_def NewError_def extractApp_foreign HTTPStatus_def Code_def Message_def
        Metadata_Nil_iff Let_def)

section \<open>gRPC: \<open>grpcx\<close> interceptors\<close>

text \<open>
  A unary handler takes the request and the state and returns an error or a response.
  \<open>isStatus\<close> is the second result of \<open>status.FromError\<close>; \<open>status.Error\<close> is \<open>GrpcStatus\<close>.
\<close>

type_synonym ('req, 's, 'resp) unary = "'req \<Rightarrow> ('s, go_error, 'resp) op"

definition ErrorInterceptor :: "(go_error \<Rightarrow> bool) \<Rightarrow> ('req, 's, 'resp) unary \<Rightarrow> ('req, 's, 'resp) unary" where
  "ErrorInterceptor isStatus handler req =
     mapErr (\<lambda>err.
       (case extractApp err of
          (ae, True) \<Rightarrow> GrpcStatus (GRPCCode ae) (Message ae)
        | (_, False) \<Rightarrow> if isStatus err then err else GrpcStatus Internal ''internal server error''))
       (handler req)"

text \<open>
  \<open>validate\<close> is protovalidate's verdict on a message and \<open>text\<close> the rendering of its error.
\<close>

definition ValidationInterceptor ::
    "('req \<Rightarrow> go_error option) \<Rightarrow> (go_error \<Rightarrow> string) \<Rightarrow> ('req, 's, 'resp) unary \<Rightarrow> ('req, 's, 'resp) unary" where
  "ValidationInterceptor validate text handler req =
     (case validate req of
        Some err \<Rightarrow> throw (GrpcStatus InvalidArgument (text err))
      | None \<Rightarrow> handler req)"

section \<open>Properties\<close>

text \<open>
  An HTTP error response never depends on the wrapped cause: attaching any cause leaves
  the response as it was, and an error that is not an AppError at all is always rendered as
  the same bare internal error.
\<close>

lemma http_cause_not_leaked:
  "rendered (NewError (Some (App (Cause e c)))) = rendered (NewError (Some (App e)))
   \<and> (asApp err = None \<longrightarrow>
        rendered (NewError (Some err)) = (500, ''internal'', ''internal server error'', None)
        \<and> rendered (NewError (Some err)) = rendered (NewError None))"
proof -
  have "rendered (NewError (Some (App (Cause e c)))) = rendered (NewError (Some (App e)))"
    by (auto simp: rendered_App Metadata_Nil_iff map_of_Metadata split: option.splits)
  moreover have "NewError None = NewError (Some (App ErrInternal))"
    by (simp add: NewError_def)
  then have "rendered (NewError None) = (500, ''internal'', ''internal server error'', None)"
    by (simp add: rendered_App)
  ultimately show ?thesis by (simp add: rendered_foreign)
qed

lemma http_cause_not_leaked_witness:
  "rendered (NewError (Some (PgError ''08006''))) = (500, ''internal'', ''internal server error'', None)"
  using http_cause_not_leaked [of ErrInternal "PgError ''08006''" "PgError ''08006''"] by simp

text \<open>
  With the validation interceptor inside the error interceptor, the only errors a client
  can receive are status errors: InvalidArgument for a rejected message (and the handler has
  not run), the mapped code and public message of an AppError, a handler's own status error
  unchanged, and a bare Internal for everything else.
\<close>

lemma grpc_chain_errors:
  assumes "\<And>c m. isStatus (GrpcStatus c m)"
    and "ErrorInterceptor isStatus (ValidationInterceptor validate text handler) req s = (Inl e, s')"
  shows "(\<exists>v. validate req = Some v \<and> e = GrpcStatus InvalidArgument (text v) \<and> s' = s)
     \<or> (validate req = None \<and> (\<exists>err. handler req s = (Inl err, s') \<and>
          (case asApp err of
             Some ae \<Rightarrow> e = GrpcStatus (GRPCCode ae) (Message ae)
           | None \<Rightarrow> (isStatus err \<and> e = err)
                      \<or> (\<not> isStatus err \<and> e = GrpcStatus Internal ''internal server error''))))"
proof (cases "validate req")
  case (Some v)
  with assms show ?thesis
    by (auto simp: ErrorInterceptor_def ValidationInterceptor_def extractApp_def mapErr_def)
next
  case None
  from assms(2) obtain err where "handler req s = (Inl err, s')"
    and "e = (case extractApp err of
          (ae, True) \<Rightarrow> GrpcStatus (GRPCCode ae) (Message ae)
        | (_, False) \<Rightarrow> if isStatus err then err else GrpcStatus Internal ''internal server error'')"
    using None by (auto simp: ErrorInterceptor_def ValidationInterceptor_def elim!: mapErr_InlE)
  with None show ?thesis by (auto simp: extractApp_def split: option.splits)
qed

definition sampleIsStatus :: "go_error \<Rightarrow> bool" where
  "sampleIsStatus e = (case e of GrpcStatus c m \<Rightarrow> True | _ \<Rightarrow> False)"

lemma grpc_chain_errors_witness:
  "fst (ErrorInterceptor sampleIsStatus (ValidationInterceptor (\<lambda>_. None) (\<lambda>_. '''')
     (\<lambda>_. throw (App ErrAccountNotFound) :: (unit, go_error, unit) op)) () ())
   = Inl (GrpcStatus NotFound ''account not found'')"
proof -
  let ?h = "\<lambda>_ :: unit. throw (App ErrAccountNotFound) :: (unit, go_error, unit) op"
  obtain e s' where r: "ErrorInterceptor sampleIsStatus (ValidationInterceptor (\<lambda>_. None) (\<lambda>_. '''') ?h) () () = (Inl e, s')"
    by (simp add: ErrorInterceptor_def ValidationInterceptor_def mapErr_def)
  have "\<And>c m. sampleIsStatus (GrpcStatus c m)" by (simp add: sampleIsStatus_def)
  from grpc_chain_errors [OF this r] have "e = GrpcStatus NotFound ''account not found''"
    by (auto simp: GRPCCode_def Message_def sentinel_defs)
  with r show ?thesis by simp
qed

end
