(* ===== verification/Infra.thy ===== *)
theory Infra
  imports Render
begin

text \<open>
  Small infrastructure packages: \<open>common\<close> (optional fields), \<open>randx\<close> (random strings),
  \<open>validator\<close> (struct validation errors), the logger in a context, and \<open>otelx\<close> (tracing).
  The random source, go-playground's validator and the OpenTelemetry SDK are parameters.
\<close>

section \<open>\<open>common\<close>\<close>

definition SetIfNotNil :: "'a \<Rightarrow> 'a ptr \<Rightarrow> 'a" where
  "SetIfNotNil dst src = (case src of None \<Rightarrow> dst | Some v \<Rightarrow> v)"

definition Ptr :: "'a \<Rightarrow> 'a ptr" where
  "Ptr v = Some v"

text \<open>\<open>zero\<close> is the zero value of the type parameter.\<close>

definition Deref :: "'a \<Rightarrow> 'a ptr \<Rightarrow> 'a" where
  "Deref zero p = (case p of None \<Rightarrow> zero | Some v \<Rightarrow> v)"

lemma Deref_Ptr [simp]: "Deref z (Ptr v) = v" "SetIfNotNil d (Ptr v) = v" "SetIfNotNil d None = d"
  by (simp_all add: Deref_def Ptr_def SetIfNotNil_def)

section \<open>\<open>randx\<close>\<close>

definition alphanumeric :: string where
  "alphanumeric = ''ABCDEFGHIJKLMNOPQRSTUVWXYZabcdefghijklmnopqrstuvwxyz0123456789''"

definition digits :: string where
  "digits = ''0123456789''"

text \<open>\<open>rand.Int(rand.Reader, max)\<close>: an error, or a value below \<open>max\<close>.\<close>

type_synonym 's randInt = "nat \<Rightarrow> ('s, go_error, nat) op"

fun fillFrom :: "'s randInt \<Rightarrow> string \<Rightarrow> nat \<Rightarrow> string \<Rightarrow> 's \<Rightarrow> string \<times> 's" where
  "fillFrom rnd alphabet 0 out s = (out, s)"
| "fillFrom rnd alphabet (Suc n) out s =
     (case rnd (length alphabet) s of
        (Inl err, s') \<Rightarrow> fillFrom rnd alphabet n (out @ [alphabet ! 0]) s'
      | (Inr idx, s') \<Rightarrow> fillFrom rnd alphabet n (out @ [alphabet ! idx]) s')"

definition fromAlphabet :: "'s randInt \<Rightarrow> int \<Rightarrow> string \<Rightarrow> 's \<Rightarrow> string \<times> 's" where
  "fromAlphabet rnd n alphabet s = (if n \<le> 0 then ([], s) else fillFrom rnd alphabet (nat n) [] s)"

definition randString :: "'s randInt \<Rightarrow> int \<Rightarrow> 's \<Rightarrow> string \<times> 's" where
  "randString rnd n = fromAlphabet rnd n alphanumeric"

definition randDigits :: "'s randInt \<Rightarrow> int \<Rightarrow> 's \<Rightarrow> string \<times> 's" where
  "randDigits rnd n = fromAlphabet rnd n digits"

lemma fillFrom_bounds:
  assumes "\<forall>k t i t'. 0 < k \<longrightarrow> rnd k t = (Inr i, t') \<longrightarrow> i < k" "alphabet \<noteq> []"
  shows "length (fst (fillFrom rnd alphabet n out s)) = length out + n
    \<and> set (fst (fillFrom rnd alphabet n out s)) \<subseteq> set out \<union> set alphabet"
proof (induction n arbitrary: out s)
  case (Suc n)
  obtain r s' where r: "rnd (length alphabet) s = (r, s')" by fastforce
  define c where "c = (case r of Inl _ \<Rightarrow> alphabet ! 0 | Inr i \<Rightarrow> alphabet ! i)"
  have "c \<in> set alphabet"
  proof (cases r)
    case (Inr i)
    have "0 < length alphabet" using assms(2) by simp
    with r Inr assms(1) have "i < length alphabet" by blast
    with Inr show ?thesis by (simp add: c_def)
  qed (use assms(2) in \<open>simp add: c_def\<close>)
  moreover have "fillFrom rnd alphabet (Suc n) out s = fillFrom rnd alphabet n (out @ [c]) s'"
    using r by (auto simp: c_def split: sum.split)
  ultimately show ?case using Suc [of "out @ [c]" s'] by auto
qed simp

section \<open>\<open>validatorx\<close>\<close>

text \<open>\<open>strings.SplitN(tag, ",", 2)[0]\<close>\<close>

fun beforeComma :: "string \<Rightarrow> string" where
  "beforeComma [] = []"
| "beforeComma (c # cs) = (if c = CHR '','' then [] else c # beforeComma cs)"

text \<open>The name a field has in messages, from its \<open>json\<close> tag.\<close>

definition fieldName :: "string \<Rightarrow> string" where
  "fieldName tag = (let name = beforeComma tag in if name = ''-'' then [] else name)"

text \<open>
  The library's verdict: no error, or an error with the failing fields (name and rule) when it
  is of the type \<open>ValidationErrors\<close>.
\<close>

definition ValidateStruct :: "('x \<Rightarrow> (go_error \<times> (string \<times> string) list) option) \<Rightarrow> 'x \<Rightarrow> go_error option" where
  "ValidateStruct verdict s =
     (case verdict s of
        None \<Rightarrow> None
      | Some (err, verrs) \<Rightarrow>
          if length verrs > 0 then
            (let (field, tag) = hd verrs
             in Some (App (Cause (WithMetadata (WithMetadata
                  (WithMessage ErrInvalidRequest (''validation failed on field '' @ [CHR 0x27] @ field @ [CHR 0x27]
                     @ '' ('' @ tag @ '')''))
                  ''field'' field) ''rule'' tag) err)))
          else Some (App (Cause ErrInvalidRequest err)))"

section \<open>The logger in a context\<close>

definition logInto :: "'l ptr option \<Rightarrow> 'l ptr \<Rightarrow> 'l ptr option" where
  "logInto ctx l = Some l"

definition logFrom :: "'l \<Rightarrow> 'l ptr option \<Rightarrow> 'l" where
  "logFrom deflt ctx = (case ctx of Some (Some l) \<Rightarrow> l | _ \<Rightarrow> deflt)"

section \<open>\<open>otelx\<close>\<close>

text \<open>A float is its mantissa and binary exponent.\<close>

type_synonym float64 = "int \<times> int"

record TracerConfig =
  tr_ServiceName :: string
  tr_Environment :: string
  tr_OTLPEndpoint :: string
  tr_SampleRatio :: float64
  tr_Insecure :: bool

text \<open>What the tracer provider is built from, and the process-wide globals it sets.\<close>

datatype 'x tracerOption = WithSampler float64 | WithResource string string | WithBatcher 'x duration

record 'x otelGlobals =
  og_provider :: "'x tracerOption list option"
  og_propagators :: "string list"

definition InitTracer ::
    "('s, go_error, unit) op \<Rightarrow> (string \<Rightarrow> bool \<Rightarrow> ('s, go_error, 'x) op) \<Rightarrow> ('x otelGlobals \<Rightarrow> 's \<Rightarrow> 's)
       \<Rightarrow> TracerConfig \<Rightarrow> ('s, go_error, unit) op" where
  "InitTracer newResource newExporter setGlobals cfg =
     andThen (mapErr (Wrapf ''otel resource: %w'' []) newResource)
       (\<lambda>_. let opts = [WithSampler (tr_SampleRatio cfg), WithResource (tr_ServiceName cfg) (tr_Environment cfg)]
            in andThen
                 (if tr_OTLPEndpoint cfg \<noteq> [] then
                    andThen (mapErr (Wrapf ''otlp exporter: %w'' []) (newExporter (tr_OTLPEndpoint cfg) (tr_Insecure cfg)))
                      (\<lambda>exporter. ret (opts @ [WithBatcher exporter 5000000000]))
                  else ret opts)
                 (\<lambda>opts. \<lambda>s. (Inr (), setGlobals \<lparr>og_provider = Some opts,
                              og_propagators = [''tracecontext'', ''baggage'']\<rparr> s)))"

section \<open>Properties\<close>

text \<open>
  Random strings.  Whatever the random source returns, errors included, \<open>String\<close> and
  \<open>Digits\<close> return exactly \<open>n\<close> characters (none for \<open>n\<close> at or below zero), all from their
  alphabet of 62 or 10 distinct characters.
\<close>

lemma random_string_bounds:
  assumes "\<forall>k t i t'. 0 < k \<longrightarrow> rnd k t = (Inr i, t') \<longrightarrow> i < k"
  shows "length (fst (randString rnd n s)) = nat n \<and> set (fst (randString rnd n s)) \<subseteq> set alphanumeric
    \<and> length (fst (randDigits rnd n s)) = nat n \<and> set (fst (randDigits rnd n s)) \<subseteq> set digits
    \<and> distinct alphanumeric \<and> length alphanumeric = 62 \<and> distinct digits \<and> length digits = 10"
proof -
  have ne: "alphanumeric \<noteq> []" "digits \<noteq> []" by (simp_all add: alphanumeric_def digits_def)
  have "distinct alphanumeric \<and> length alphanumeric = 62 \<and> distinct digits \<and> length digits = 10"
    by (simp add: alphanumeric_def digits_def)
  with fillFrom_bounds [OF assms ne(1), of "nat n" "[]" s] fillFrom_bounds [OF assms ne(2), of "nat n" "[]" s]
  show ?thesis by (simp add: randString_def randDigits_def fromAlphabet_def)
qed

text \<open>A source that fails every time.\<close>

lemma random_string_bounds_witness:
  "length (fst (randDigits (\<lambda>_. throw (ErrorString ''entropy'')) 6 ())) = 6"
  using random_string_bounds [of "\<lambda>_. throw (ErrorString ''entropy'')" 6 "()"] by simp

text \<open>
  Validation errors.  A struct that fails validation is an invalid request (400 and
  InvalidArgument, matching \<open>ErrInvalidRequest\<close>); when the library names failing fields, the
  message and the metadata name the first of them and its rule; and the HTTP body is the same
  whatever the library's own error text is.
\<close>

lemma validation_errors:
  assumes "verdict s = Some (err, verrs)"
  shows "\<exists>e. ValidateStruct verdict s = Some (App e)
    \<and> errorsIs (App e) (App ErrInvalidRequest) \<and> HTTPStatus e = 400 \<and> GRPCCode e = InvalidArgument
    \<and> (verrs = [] \<longrightarrow> Message e = ''the request is invalid'' \<and> Metadata e = [])
    \<and> (\<forall>field tag rest. verrs = (field, tag) # rest \<longrightarrow>
         Message e = ''validation failed on field '' @ [CHR 0x27] @ field @ [CHR 0x27] @ '' ('' @ tag @ '')''
         \<and> map_of (Metadata e) = [''field'' \<mapsto> field, ''rule'' \<mapsto> tag])
    \<and> (\<forall>verdict' err'. verdict' s = Some (err', verrs) \<longrightarrow>
         rendered (NewError (ValidateStruct verdict' s)) = rendered (NewError (Some (App e))))"
proof (cases verrs)
  case Nil
  let ?e = "Cause ErrInvalidRequest err"
  have "ValidateStruct verdict s = Some (App ?e)" using assms Nil by (simp add: ValidateStruct_def)
  moreover have "Metadata ?e = []" "Message ?e = ''the request is invalid''"
    "HTTPStatus ?e = 400" "GRPCCode ?e = InvalidArgument"
    by (simp_all add: Metadata_Nil_iff Message_def HTTPStatus_def GRPCCode_def)
      (simp add: Metadata_def copyMap_def sentinel_defs)
  ultimately show ?thesis using Nil by (auto simp: ValidateStruct_def rendered_App map_of_Metadata Metadata_def)
next
  case (Cons f rest)
  obtain field tag where f: "f = (field, tag)" by fastforce
  let ?msg = "''validation failed on field '' @ [CHR 0x27] @ field @ [CHR 0x27] @ '' ('' @ tag @ '')''"
  let ?e0 = "WithMetadata (WithMetadata (WithMessage ErrInvalidRequest ?msg) ''field'' field) ''rule'' tag"
  have v: "ValidateStruct w s = Some (App (Cause ?e0 g))" if "w s = Some (g, verrs)" for w g
    using that Cons f by (simp add: ValidateStruct_def)
  have "map_of (Metadata (Cause ?e0 err)) = [''field'' \<mapsto> field, ''rule'' \<mapsto> tag]"
    by (auto simp: map_of_Metadata fun_eq_iff sentinel_defs)
  moreover have "rendered (NewError (Some (App (Cause ?e0 g)))) = rendered (NewError (Some (App (Cause ?e0 err))))" for g
    by (auto simp: rendered_App map_of_Metadata Metadata_def)
  ultimately show ?thesis using v [of verdict err] assms Cons f v
    by (auto simp: Message_def HTTPStatus_def GRPCCode_def)
qed

lemma validation_errors_witness:
  "\<exists>e. ValidateStruct (\<lambda>_. Some (ErrorString ''Key: Email'', [(''email'', ''required'')])) () = Some (App e)
     \<and> HTTPStatus e = 400 \<and> map_of (Metadata e) ''rule'' = Some ''required''"
  using validation_errors [of "\<lambda>_. Some (ErrorString ''Key: Email'', [(''email'', ''required'')])" "()"
      "ErrorString ''Key: Email''" "[(''email'', ''required'')]"]
  by fastforce

end
