(* ===== verification/Observe.thy ===== *)
theory Observe
  imports Ports
begin

text \<open>
  What the process tells its operators: log levels (\<open>internal/infra/logger\<close>), the GORM log
  bridge (\<open>internal/infra/gorm\<close>), the correlation id in the request context
  (\<open>internal/infra/correlation\<close>) and the metric counters (\<open>internal/infra/metrics\<close>).
  Log records and counters are values of the model; their output format is not modelled.
\<close>

section \<open>Log levels\<close>

datatype SlogLevel = LevelDebug | LevelInfo | LevelWarn | LevelError

definition slogParseLevel :: "(string \<Rightarrow> string) \<Rightarrow> string \<Rightarrow> SlogLevel" where
  "slogParseLevel uni level =
     (let l = ToLower uni level
      in if l = ''debug'' then LevelDebug
         else if l = ''warn'' \<or> l = ''warning'' then LevelWarn
         else if l = ''error'' then LevelError
         else LevelInfo)"

text \<open>The JSON logger of a component: records below its level are dropped.\<close>

fun slogRank :: "SlogLevel \<Rightarrow> int" where
  "slogRank LevelDebug = -4" | "slogRank LevelInfo = 0" | "slogRank LevelWarn = 4" | "slogRank LevelError = 8"

record jsonLogger =
  jl_component :: string
  jl_level :: SlogLevel

definition NewSlogger :: "(string \<Rightarrow> string) \<Rightarrow> string \<Rightarrow> string \<Rightarrow> jsonLogger" where
  "NewSlogger uni component level = \<lparr>jl_component = component, jl_level = slogParseLevel uni level\<rparr>"

record 'e slogLine =
  lr_component :: string
  lr_level :: SlogLevel
  lr_msg :: string
  lr_err :: 'e

definition slogRecord :: "jsonLogger \<Rightarrow> SlogLevel \<Rightarrow> string \<Rightarrow> 'e \<Rightarrow> 'e slogLine list \<Rightarrow> 'e slogLine list" where
  "slogRecord l lvl msg err out =
     (if slogRank (jl_level l) \<le> slogRank lvl
      then out @ [\<lparr>lr_component = jl_component l, lr_level = lvl, lr_msg = msg, lr_err = err\<rparr>] else out)"

text \<open>The levels of \<open>gorm.io/gorm/logger\<close>, in their order.\<close>

datatype LogLevel = Silent | Error | Warn | Info

fun levelRank :: "LogLevel \<Rightarrow> nat" where
  "levelRank Silent = 1" | "levelRank Error = 2" | "levelRank Warn = 3" | "levelRank Info = 4"

lemma levelRank_inject: "levelRank a = levelRank b \<Longrightarrow> a = b"
  by (cases a; cases b) simp_all

instantiation LogLevel :: linorder
begin

definition less_eq_LogLevel :: "LogLevel \<Rightarrow> LogLevel \<Rightarrow> bool" where
  "less_eq_LogLevel a b = (levelRank a \<le> levelRank b)"

definition less_LogLevel :: "LogLevel \<Rightarrow> LogLevel \<Rightarrow> bool" where
  "less_LogLevel a b = (levelRank a < levelRank b)"

instance
  by standard (auto simp: less_eq_LogLevel_def less_LogLevel_def dest: levelRank_inject)

end

definition gormParseLevel :: "string \<Rightarrow> LogLevel" where
  "gormParseLevel level =
     (if level = ''silent'' then Silent
      else if level = ''error'' then Error
      else if level = ''warn'' \<or> level = ''warning'' then Warn
      else Info)"

record slogLogger =
  sl_level :: LogLevel
  sl_slowQuery :: duration

definition Millisecond :: duration where "Millisecond = 1000000"

definition NewGormLogger :: "string \<Rightarrow> slogLogger" where
  "NewGormLogger level = \<lparr>sl_level = gormParseLevel level, sl_slowQuery = 200 * Millisecond\<rparr>"

definition LogMode :: "slogLogger \<Rightarrow> LogLevel \<Rightarrow> slogLogger" where
  "LogMode l level = l\<lparr>sl_level := level\<rparr>"

text \<open>The record a call emits, if any: level and message.\<close>

definition gormInfo :: "slogLogger \<Rightarrow> string \<Rightarrow> (SlogLevel \<times> string) option" where
  "gormInfo l msg = (if sl_level l \<ge> Info then Some (LevelInfo, msg) else None)"

definition gormWarn :: "slogLogger \<Rightarrow> string \<Rightarrow> (SlogLevel \<times> string) option" where
  "gormWarn l msg = (if sl_level l \<ge> Warn then Some (LevelWarn, msg) else None)"

definition gormError :: "slogLogger \<Rightarrow> string \<Rightarrow> (SlogLevel \<times> string) option" where
  "gormError l msg = (if sl_level l \<ge> Error then Some (LevelError, msg) else None)"

text \<open>\<open>logger.ErrRecordNotFound\<close>, the same error as \<open>gorm.ErrRecordNotFound\<close>.\<close>

definition logRecordNotFound :: go_error where
  "logRecordNotFound = ErrorString ''record not found''"

definition Trace :: "slogLogger \<Rightarrow> duration \<Rightarrow> go_error option \<Rightarrow> (SlogLevel \<times> string) option" where
  "Trace l elapsed err =
     (if sl_level l \<le> Silent then None
      else if err \<noteq> None \<and> sl_level l \<ge> Error \<and> \<not> errorsIs (the err) logRecordNotFound
      then Some (LevelError, ''gorm query'')
      else if elapsed > sl_slowQuery l \<and> sl_level l \<ge> Warn then Some (LevelWarn, ''gorm slow query'')
      else if sl_level l \<ge> Info then Some (LevelDebug, ''gorm query'')
      else None)"

section \<open>Correlation ids\<close>

text \<open>The value under the context key; a context without one is None.\<close>

type_synonym corrCtx = "string option"

definition HeaderKey :: string where
  "HeaderKey = ''X-Correlation-ID''"

definition corrGet :: "corrCtx \<Rightarrow> string" where
  "corrGet ctx = (case ctx of Some i \<Rightarrow> i | None \<Rightarrow> [])"

definition corrEnsure :: "string \<Rightarrow> corrCtx \<Rightarrow> corrCtx \<times> string" where
  "corrEnsure fresh ctx =
     (case ctx of Some i \<Rightarrow> if i \<noteq> [] then (ctx, i) else (Some fresh, fresh)
                | None \<Rightarrow> (Some fresh, fresh))"

definition corrWith :: "corrCtx \<Rightarrow> string \<Rightarrow> corrCtx" where
  "corrWith ctx i = (if i = [] then ctx else Some i)"

section \<open>Metrics\<close>

record Metrics =
  httpRequests :: "((string \<times> string \<times> string) \<times> nat) list"
  httpDuration :: "((string \<times> string) \<times> duration list) list"
  WorkerRuns :: "((string \<times> string) \<times> nat) list"

definition newMetrics :: Metrics where
  "newMetrics = \<lparr>httpRequests = [], httpDuration = [], WorkerRuns = []\<rparr>"

text \<open>\<open>vec.WithLabelValues(ls).Inc()\<close> and its value.\<close>

definition counter :: "('k \<times> nat) list \<Rightarrow> 'k \<Rightarrow> nat" where
  "counter vec ls = (case map_of vec ls of None \<Rightarrow> 0 | Some n \<Rightarrow> n)"

definition inc :: "('k \<times> nat) list \<Rightarrow> 'k \<Rightarrow> ('k \<times> nat) list" where
  "inc vec ls = put ls (counter vec ls + 1) vec"

lemma counter_inc [simp]: "counter (inc vec ls) k = counter vec k + (if k = ls then 1 else 0)"
  by (simp add: counter_def inc_def)

definition ObserveHTTP :: "string \<Rightarrow> string \<Rightarrow> nat \<Rightarrow> duration \<Rightarrow> Metrics \<Rightarrow> Metrics" where
  "ObserveHTTP mth path status dur m =
     m\<lparr>httpRequests := inc (httpRequests m) (mth, path, Itoa (word_of_nat status)),
       httpDuration := put (mth, path)
         ((case map_of (httpDuration m) (mth, path) of None \<Rightarrow> [] | Some ds \<Rightarrow> ds) @ [dur]) (httpDuration m)\<rparr>"

definition incWorkerRuns :: "string \<Rightarrow> string \<Rightarrow> Metrics \<Rightarrow> Metrics" where
  "incWorkerRuns job result m = m\<lparr>WorkerRuns := inc (WorkerRuns m) (job, result)\<rparr>"

lemma ObserveHTTP_requests [simp]:
  "httpRequests (ObserveHTTP mth path st d m) = inc (httpRequests m) (mth, path, Itoa (word_of_nat st))"
  by (simp add: ObserveHTTP_def)

lemma level_le [simp]:
  "Silent \<le> l" "l \<le> Info" "Error \<le> l \<longleftrightarrow> l \<noteq> Silent" "Warn \<le> l \<longleftrightarrow> l = Warn \<or> l = Info"
  "Info \<le> l \<longleftrightarrow> l = Info" "l \<le> Silent \<longleftrightarrow> l = Silent"
  by (cases l; simp add: less_eq_LogLevel_def)+

text \<open>
  Which database errors are logged.  At every level but silent, a failed statement other
  than a missing record is logged as an error; a missing record never is; at silent nothing is;
  and raising the level never loses a record that a lower level emitted.
\<close>

lemma gorm_trace_levels:
  "(sl_level l \<noteq> Silent \<and> (\<exists>e. err = Some e \<and> \<not> errorsIs e logRecordNotFound) \<longrightarrow>
      Trace l d err = Some (LevelError, ''gorm query''))
   \<and> ((\<forall>e. err = Some e \<longrightarrow> errorsIs e logRecordNotFound) \<longrightarrow> Trace l d err \<noteq> Some (LevelError, ''gorm query''))
   \<and> (sl_level l = Silent \<longrightarrow> Trace l d err = None)
   \<and> (sl_level l \<le> level \<longrightarrow> Trace l d err \<noteq> None \<longrightarrow> Trace (LogMode l level) d err \<noteq> None)"
  by (cases "sl_level l"; cases level) (auto simp: Trace_def LogMode_def)

lemma gorm_trace_levels_witness:
  "Trace (NewGormLogger ''warn'') 0 (Some (PgError ''23505'')) = Some (LevelError, ''gorm query'')"
  using gorm_trace_levels [of "NewGormLogger ''warn''" "Some (PgError ''23505'')" 0 Info]
  by (simp add: NewGormLogger_def gormParseLevel_def logRecordNotFound_def)

end
