(* ===== verification/Ginx.thy ===== *)
theory Ginx
  imports Observe Render
begin

text \<open>
  The HTTP middleware (\<open>internal/infra/ginx\<close>) and how \<open>registerHTTP\<close> stacks it.  A handler
  is an operation on the request context that ends or panics; \<open>c.Next()\<close> of a middleware is
  the rest of the chain, so what a middleware does after it does not happen when it panics.
\<close>

section \<open>Request context\<close>

text \<open>\<open>'b\<close> is the type of success bodies, \<open>'s\<close> the state behind the handlers.\<close>

datatype 'b respBody = BData 'b | BError ErrorResponse | BHealth string | BReady bool "(string \<times> string) list"

record ('s, 'b) gin =
  gc_method :: string
  gc_FullPath :: string
  gc_param :: string  \<comment> \<open>\<open>c.Param("id")\<close>\<close>
  gc_query :: "(string \<times> string) list"
  gc_body :: string
  gc_header :: string  \<comment> \<open>the inbound correlation header, empty if absent\<close>
  gc_ctx :: corrCtx
  gc_outHeader :: string
  gc_Errors :: "go_error list"
  gc_status :: nat
  gc_written :: "'b respBody option"
  gc_log :: "(string \<times> string \<times> nat \<times> string) list"  \<comment> \<open>"http request" records\<close>
  gc_panics :: "string list"  \<comment> \<open>"panic recovered" records\<close>
  gc_metrics :: Metrics
  gc_state :: 's

type_synonym ('s, 'b) handler = "(('s, 'b) gin, string, unit) op"  \<comment> \<open>\<open>Inl\<close> is a panic\<close>

text \<open>A step without panic.\<close>

definition act :: "(('s, 'b) gin \<Rightarrow> ('s, 'b) gin) \<Rightarrow> ('s, 'b) handler" where
  "act f = (\<lambda>c. (Inr (), f c))"

definition cQuery :: "string \<Rightarrow> ('s, 'b) gin \<Rightarrow> string" where
  "cQuery k c = (case map_of (gc_query c) k of None \<Rightarrow> [] | Some v \<Rightarrow> v)"

definition cError :: "go_error \<Rightarrow> ('s, 'b) gin \<Rightarrow> ('s, 'b) gin" where
  "cError e c = c\<lparr>gc_Errors := gc_Errors c @ [e]\<rparr>"

definition cStatus :: "nat \<Rightarrow> ('s, 'b) gin \<Rightarrow> ('s, 'b) gin" where
  "cStatus st c = c\<lparr>gc_status := st\<rparr>"

text \<open>
  Once a body is written the status line is gone.  gin would append a second body to the first; the
  model keeps the first, which is all that is said of such responses.
\<close>

definition cJSON :: "nat \<Rightarrow> 'b respBody \<Rightarrow> ('s, 'b) gin \<Rightarrow> ('s, 'b) gin" where
  "cJSON st b c = (if gc_written c = None then c\<lparr>gc_status := st, gc_written := Some b\<rparr> else c)"

section \<open>Middleware\<close>

definition opsPaths :: "string list" where
  "opsPaths = [''/liveness'', ''/readiness'', ''/health'', ''/metrics'']"

definition isOps :: "string \<Rightarrow> bool" where
  "isOps path =
     (if path \<in> set opsPaths then True
      else length path \<ge> 7 \<and> (take 7 path = ''/debug/'' \<or> (length path \<ge> 9 \<and> take 9 path = ''/swagger/'')))"

definition CorrelationMiddleware :: "string \<Rightarrow> ('s, 'b) handler \<Rightarrow> ('s, 'b) handler" where
  "CorrelationMiddleware fresh next =
     andThen (act (\<lambda>c.
        let i = gc_header c;
            (ctx, i) = (if i \<noteq> [] then (corrWith (gc_ctx c) i, i) else corrEnsure fresh (gc_ctx c))
        in c\<lparr>gc_ctx := ctx, gc_outHeader := i\<rparr>))
     (\<lambda>_. next)"

definition LoggerMiddleware :: "('s, 'b) handler \<Rightarrow> ('s, 'b) handler" where
  "LoggerMiddleware next = (\<lambda>c.
     if isOps (gc_FullPath c) then next c
     else andThen next (\<lambda>_. act (\<lambda>c.
            c\<lparr>gc_log := gc_log c @ [(gc_method c, gc_FullPath c, gc_status c, corrGet (gc_ctx c))]\<rparr>)) c)"

definition MetricsMiddleware :: "duration \<Rightarrow> ('s, 'b) handler \<Rightarrow> ('s, 'b) handler" where
  "MetricsMiddleware dur next = (\<lambda>c.
     let path = gc_FullPath c
     in if path = [] \<or> isOps path then next c
        else andThen next (\<lambda>_. act (\<lambda>c.
            c\<lparr>gc_metrics := ObserveHTTP (gc_method c) path (gc_status c) dur (gc_metrics c)\<rparr>)) c)"

definition ErrorMiddleware :: "('s, 'b) handler \<Rightarrow> ('s, 'b) handler" where
  "ErrorMiddleware next =
     andThen next (\<lambda>_. act (\<lambda>c.
        if gc_Errors c = [] \<or> gc_written c \<noteq> None then c
        else let he = NewError (Some (last (gc_Errors c))) in cJSON (he_status he) (BError (he_body he)) c))"

definition Recovery :: "('s, 'b) handler \<Rightarrow> ('s, 'b) handler" where
  "Recovery next = (\<lambda>c.
     case next c of
       (Inl p, c') \<Rightarrow>
         (let c'' = c'\<lparr>gc_panics := gc_panics c' @ [p]\<rparr>; he = NewError None
          in (Inr (), cJSON (he_status he) (BError (he_body he)) c''))
     | r \<Rightarrow> r)"

text \<open>
  The stack of \<open>registerHTTP\<close>, outermost first.  The OpenTelemetry middleware is the argument
  \<open>tracing\<close>.
\<close>

definition httpChain ::
    "string \<Rightarrow> duration \<Rightarrow> (('s, 'b) handler \<Rightarrow> ('s, 'b) handler) \<Rightarrow> ('s, 'b) handler \<Rightarrow> ('s, 'b) handler" where
  "httpChain fresh dur tracing h =
     Recovery (CorrelationMiddleware fresh (tracing (LoggerMiddleware (MetricsMiddleware dur (ErrorMiddleware h)))))"

section \<open>Health\<close>

definition LivenessHandler :: "('s, 'b) handler" where
  "LivenessHandler = act (cJSON StatusOK (BHealth ''ok''))"

text \<open>The verdicts of the checks, in the order the map iteration yields them.\<close>

definition readiness :: "(go_error \<Rightarrow> string) \<Rightarrow> (string \<times> go_error option) list \<Rightarrow> bool \<times> (string \<times> string) list" where
  "readiness foreign checks =
     fold (\<lambda>(name, err) (ready, details).
             case err of
               Some e \<Rightarrow> (False, put name (ErrorText foreign e) details)
             | None \<Rightarrow> (ready, put name ''ok'' details))
       checks (True, [])"

definition ReadinessHandler :: "(go_error \<Rightarrow> string) \<Rightarrow> (string \<times> go_error option) list \<Rightarrow> ('s, 'b) handler" where
  "ReadinessHandler foreign checks =
     (let (ready, details) = readiness foreign checks;
          status = (if \<not> ready then StatusServiceUnavailable else StatusOK)
      in act (cJSON status (BReady ready details)))"

section \<open>Lemmas\<close>

lemma act_apply [simp]: "act f c = (Inr (), f c)"
  by (simp add: act_def)

lemma cError_simps [simp]:
  "gc_Errors (cError e c) = gc_Errors c @ [e]" "gc_written (cError e c) = gc_written c"
  "gc_status (cError e c) = gc_status c" "gc_state (cError e c) = gc_state c"
  "gc_metrics (cError e c) = gc_metrics c" "gc_log (cError e c) = gc_log c" "gc_ctx (cError e c) = gc_ctx c"
  "gc_method (cError e c) = gc_method c" "gc_FullPath (cError e c) = gc_FullPath c"
  "gc_outHeader (cError e c) = gc_outHeader c"
  by (simp_all add: cError_def)

lemma cJSON_simps [simp]:
  "gc_Errors (cJSON st b c) = gc_Errors c" "gc_state (cJSON st b c) = gc_state c"
  "gc_metrics (cJSON st b c) = gc_metrics c" "gc_log (cJSON st b c) = gc_log c" "gc_ctx (cJSON st b c) = gc_ctx c"
  "gc_method (cJSON st b c) = gc_method c" "gc_FullPath (cJSON st b c) = gc_FullPath c"
  "gc_outHeader (cJSON st b c) = gc_outHeader c"
  "gc_written (cJSON st b c) = (if gc_written c = None then Some b else gc_written c)"
  "gc_status (cJSON st b c) = (if gc_written c = None then st else gc_status c)"
  by (simp_all add: cJSON_def)

lemma readiness_result:
  "fst (readiness foreign checks) \<longleftrightarrow> (\<forall>c \<in> set checks. snd c = None)"
proof -
  have "fst (fold (\<lambda>(name, err) (ready, details).
             case err of Some e \<Rightarrow> (False, put name (ErrorText foreign e) details)
             | None \<Rightarrow> (ready, put name ''ok'' details)) cs (r, d))
    \<longleftrightarrow> r \<and> (\<forall>c \<in> set cs. snd c = None)" for cs :: "(string \<times> go_error option) list" and r d
    by (induction cs arbitrary: r d) (fastforce split: option.splits)+
  then show ?thesis by (simp add: readiness_def)
qed

lemma NewError_None [simp]:
  "he_status (NewError None) = 500" "he_body (NewError None) = \<lparr>er_code = ''internal'',
     er_message = ''internal server error'', er_metadata = None\<rparr>"
  by (simp_all add: NewError_def HTTPStatus_def Code_def Message_def Metadata_Nil_iff Let_def)

text \<open>A request before any handler has run.\<close>

definition fresh :: "('s, 'b) gin \<Rightarrow> bool" where
  "fresh c \<longleftrightarrow> gc_Errors c = [] \<and> gc_written c = None \<and> gc_ctx c = None"

text \<open>
  How a handler that does not panic is answered: an error is rendered in place of a missing
  body.  The handler must leave path and method alone and write at most through \<open>cJSON\<close>.
\<close>

definition answered :: "('s, 'b) gin \<Rightarrow> ('s, 'b) gin" where
  "answered c =
     (if gc_Errors c = [] \<or> gc_written c \<noteq> None then c
      else let he = NewError (Some (last (gc_Errors c))) in cJSON (he_status he) (BError (he_body he)) c)"

lemma ErrorMiddleware_Inr: "h c = (Inr (), c') \<Longrightarrow> ErrorMiddleware h c = (Inr (), answered c')"
  by (simp add: ErrorMiddleware_def answered_def)

lemma ErrorMiddleware_Inl: "h c = (Inl p, c') \<Longrightarrow> ErrorMiddleware h c = (Inl p, c')"
  by (simp add: ErrorMiddleware_def)

lemma answered_simps [simp]:
  "gc_method (answered c) = gc_method c" "gc_FullPath (answered c) = gc_FullPath c"
  "gc_state (answered c) = gc_state c" "gc_metrics (answered c) = gc_metrics c" "gc_log (answered c) = gc_log c"
  "gc_ctx (answered c) = gc_ctx c" "gc_outHeader (answered c) = gc_outHeader c"
  by (simp_all add: answered_def Let_def)

definition corrId :: "string \<Rightarrow> ('s, 'b) gin \<Rightarrow> string" where
  "corrId uid c = (if gc_header c \<noteq> [] then gc_header c else uid)"

definition entered :: "string \<Rightarrow> ('s, 'b) gin \<Rightarrow> ('s, 'b) gin" where
  "entered uid c = c\<lparr>gc_ctx := Some (corrId uid c), gc_outHeader := corrId uid c\<rparr>"

lemma entered_simps [simp]:
  "gc_FullPath (entered uid c) = gc_FullPath c" "gc_method (entered uid c) = gc_method c"
  "gc_ctx (entered uid c) = Some (corrId uid c)" "gc_outHeader (entered uid c) = corrId uid c"
  "gc_Errors (entered uid c) = gc_Errors c" "gc_written (entered uid c) = gc_written c"
  "gc_status (entered uid c) = gc_status c" "gc_state (entered uid c) = gc_state c"
  "gc_param (entered uid c) = gc_param c" "gc_query (entered uid c) = gc_query c"
  "gc_body (entered uid c) = gc_body c" "gc_metrics (entered uid c) = gc_metrics c"
  "gc_log (entered uid c) = gc_log c" "gc_panics (entered uid c) = gc_panics c"
  by (simp_all add: entered_def)

lemma CorrelationMiddleware_fresh:
  "gc_ctx c = None \<Longrightarrow> CorrelationMiddleware uid next c = next (entered uid c)"
  by (auto simp: CorrelationMiddleware_def corrEnsure_def corrWith_def entered_def corrId_def Let_def
      andThen_def)

lemma chain_Inr:
  assumes "gc_ctx c = None" "tracing = (\<lambda>g. g)" "h (entered uid c) = (Inr (), c1)"
    and "gc_FullPath c1 = gc_FullPath c" "gc_FullPath c \<noteq> []" "\<not> isOps (gc_FullPath c)"
  shows "\<exists>c2. httpChain uid dur tracing h c = (Inr (), c2)
    \<and> gc_status c2 = gc_status (answered c1) \<and> gc_written c2 = gc_written (answered c1)
    \<and> gc_state c2 = gc_state c1 \<and> gc_outHeader c2 = gc_outHeader c1 \<and> gc_panics c2 = gc_panics (answered c1)
    \<and> gc_log c2 = gc_log c1 @ [(gc_method c1, gc_FullPath c, gc_status (answered c1), corrGet (gc_ctx c1))]
    \<and> gc_metrics c2 = ObserveHTTP (gc_method c1) (gc_FullPath c) (gc_status (answered c1)) dur (gc_metrics c1)"
proof -
  let ?e = "entered uid c" and ?a = "answered c1"
  let ?b = "?a\<lparr>gc_metrics := ObserveHTTP (gc_method ?a) (gc_FullPath c) (gc_status ?a) dur (gc_metrics ?a)\<rparr>"
  have 1: "ErrorMiddleware h ?e = (Inr (), ?a)" by (rule ErrorMiddleware_Inr) (rule assms(3))
  have 2: "MetricsMiddleware dur (ErrorMiddleware h) ?e = (Inr (), ?b)"
    using assms(5,6) 1 by (simp add: MetricsMiddleware_def)
  have 3: "LoggerMiddleware (MetricsMiddleware dur (ErrorMiddleware h)) ?e
      = (Inr (), ?b\<lparr>gc_log := gc_log ?b @ [(gc_method ?b, gc_FullPath ?b, gc_status ?b, corrGet (gc_ctx ?b))]\<rparr>)"
    using assms(6) 2 by (simp add: LoggerMiddleware_def)
  show ?thesis
    using assms(4) by (simp add: httpChain_def Recovery_def assms(2) CorrelationMiddleware_fresh [OF assms(1)] 3)
qed

lemma chain_Inl:
  assumes "gc_ctx c = None" "tracing = (\<lambda>g. g)" "h (entered uid c) = (Inl p, c1)"
    and "gc_FullPath c \<noteq> []" "\<not> isOps (gc_FullPath c)"
  shows "httpChain uid dur tracing h c =
    (Inr (), cJSON 500 (BError (he_body (NewError None))) (c1\<lparr>gc_panics := gc_panics c1 @ [p]\<rparr>))"
proof -
  let ?e = "entered uid c"
  have 1: "ErrorMiddleware h ?e = (Inl p, c1)" by (rule ErrorMiddleware_Inl) (rule assms(3))
  have 2: "MetricsMiddleware dur (ErrorMiddleware h) ?e = (Inl p, c1)"
    using assms(4,5) 1 by (simp add: MetricsMiddleware_def)
  have 3: "LoggerMiddleware (MetricsMiddleware dur (ErrorMiddleware h)) ?e = (Inl p, c1)"
    using assms(5) 2 by (simp add: LoggerMiddleware_def)
  show ?thesis
    by (simp add: httpChain_def Recovery_def assms(2) CorrelationMiddleware_fresh [OF assms(1)] 3)
qed

section \<open>Properties\<close>

text \<open>
  Readiness.  The endpoint answers 200 exactly when every dependency check succeeded, 503
  otherwise, and never anything else.
\<close>

lemma readiness_status:
  assumes "gc_written c = None"
  shows "\<exists>ready details. ReadinessHandler foreign checks c
      = (Inr (), c\<lparr>gc_status := (if ready then 200 else 503), gc_written := Some (BReady ready details)\<rparr>)
    \<and> (ready \<longleftrightarrow> (\<forall>k \<in> set checks. snd k = None))"
proof -
  obtain ready details where r: "readiness foreign checks = (ready, details)" by fastforce
  then have "ready \<longleftrightarrow> (\<forall>k \<in> set checks. snd k = None)" using readiness_result [of foreign checks] by simp
  moreover have "ReadinessHandler foreign checks c
      = (Inr (), c\<lparr>gc_status := (if ready then 200 else 503), gc_written := Some (BReady ready details)\<rparr>)"
    using assms by (simp add: ReadinessHandler_def r cJSON_def)
  ultimately show ?thesis by blast
qed

definition sampleGin :: "(unit, unit) gin" where
  "sampleGin = \<lparr>gc_method = ''GET'', gc_FullPath = ''/api/v1/accounts'', gc_param = [], gc_query = [], gc_body = [],
     gc_header = [], gc_ctx = None, gc_outHeader = [], gc_Errors = [], gc_status = 200, gc_written = None,
     gc_log = [], gc_panics = [], gc_metrics = newMetrics, gc_state = ()\<rparr>"

lemma readiness_status_witness:
  "gc_status (snd (ReadinessHandler (\<lambda>_. ''down'') [(''redis'', None), (''postgres'', Some (DriverErr ''refused''))] sampleGin)) = 503"
proof -
  have "gc_written sampleGin = None" by (simp add: sampleGin_def)
  from readiness_status [OF this, of "\<lambda>_. ''down''" "[(''redis'', None), (''postgres'', Some (DriverErr ''refused''))]"]
  show ?thesis by auto
qed

text \<open>
  C36: a panicking handler.  The client gets the bare internal error with status 500 (unless a
  response was already written) and the panic is logged, but the request appears neither in
  the request log nor in the metrics: both are recorded after \<open>c.Next()\<close> and Recovery is
  outside them.
\<close>

theorem panic_answered_not_observed:
  assumes "gc_ctx c = None" "tracing = (\<lambda>g. g)" "h (entered uid c) = (Inl p, c1)"
    and "gc_FullPath c \<noteq> []" "\<not> isOps (gc_FullPath c)"
  shows "\<exists>c2. httpChain uid dur tracing h c = (Inr (), c2)
    \<and> (gc_written c1 = None \<longrightarrow> gc_status c2 = 500
         \<and> gc_written c2 = Some (BError \<lparr>er_code = ''internal'', er_message = ''internal server error'', er_metadata = None\<rparr>))
    \<and> gc_panics c2 = gc_panics c1 @ [p] \<and> gc_log c2 = gc_log c1 \<and> gc_metrics c2 = gc_metrics c1"
  using chain_Inl [of c tracing h uid p c1 dur] assms by (simp add: cJSON_def)

theorem panic_answered_not_observed_witness:
  "\<exists>c2. httpChain ''id'' 5 (\<lambda>g. g) (throw ''boom'') sampleGin = (Inr (), c2) \<and> gc_status c2 = 500
     \<and> gc_metrics c2 = newMetrics"
proof -
  have a: "gc_ctx sampleGin = None" "gc_FullPath sampleGin \<noteq> []" "\<not> isOps (gc_FullPath sampleGin)"
    by (simp_all add: sampleGin_def isOps_def opsPaths_def)
  have b: "throw ''boom'' (entered ''id'' sampleGin) = (Inl ''boom'', entered ''id'' sampleGin)" by simp
  have c: "gc_written (entered ''id'' sampleGin) = None" "gc_metrics (entered ''id'' sampleGin) = newMetrics"
    by (simp_all add: entered_def sampleGin_def)
  from panic_answered_not_observed [of sampleGin "\<lambda>g. g" "throw ''boom''" "''id''" "''boom''" "entered ''id'' sampleGin" 5]
    a b c show ?thesis by fastforce
qed

end
