(* ===== verification/GrpcHandler.thy ===== *)
theory GrpcHandler
  imports UseCaseProps Render
begin

text \<open>
  The gRPC adapter (\<open>internal/adapter/grpc\<close>): messages, enum and entity mappers and the five
  methods.  \<open>timestamppb.New\<close> is the argument \<open>ts\<close>; the generated getters read a message's
  field, so messages are records.
\<close>

section \<open>Messages\<close>

text \<open>A protobuf enum is an int32.\<close>

type_synonym pbStatus = goint32

record 'ts pbAccount =
  pa_Id :: string
  pa_Email :: string
  pa_FirstName :: string
  pa_LastName :: string
  pa_Status :: pbStatus
  pa_CreatedAt :: 'ts
  pa_UpdatedAt :: 'ts

record pbCreateRequest =
  pc_Email :: string
  pc_Password :: string
  pc_FirstName :: string
  pc_LastName :: string

record pbListRequest =
  pl_Status :: "pbStatus ptr"
  pl_Limit :: goint32
  pl_Offset :: goint32

record 'ts pbListResponse =
  pr_Accounts :: "'ts pbAccount ptr list"
  pr_Total :: goint32

record pbUpdateRequest =
  pu_Id :: string
  pu_FirstName :: "string ptr"
  pu_LastName :: "string ptr"
  pu_Status :: "pbStatus ptr"

section \<open>Mappers\<close>

definition toProtoStatus :: "AccountStatus \<Rightarrow> pbStatus" where
  "toProtoStatus s = scast s"

definition toDomainStatus :: "pbStatus \<Rightarrow> AccountStatus" where
  "toDomainStatus s = scast s"

definition toProtoAccount :: "(time \<Rightarrow> 'ts) \<Rightarrow> account ptr \<Rightarrow> 'ts pbAccount ptr" where
  "toProtoAccount ts p =
     (case p of
        None \<Rightarrow> None
      | Some a \<Rightarrow> Some \<lparr>pa_Id = ID a, pa_Email = Email a, pa_FirstName = FirstName a, pa_LastName = LastName a,
          pa_Status = toProtoStatus (Status a), pa_CreatedAt = ts (CreatedAt a), pa_UpdatedAt = ts (UpdatedAt a)\<rparr>)"

section \<open>Methods\<close>

text \<open>
  \<open>account.ID\<close> of a nil account panics.  A gRPC server has no recovery interceptor here, so a
  panic is neither a response nor an error.
\<close>

datatype 'a outcome = Resp 'a | Panics

definition grpcCreateAccount :: "'s AccountUseCase \<Rightarrow> (pbCreateRequest, 's, string outcome) unary" where
  "grpcCreateAccount uc req =
     andThen (uc_Create uc \<lparr>cr_Email = pc_Email req, cr_Password = pc_Password req, cr_FirstName = pc_FirstName req,
                            cr_LastName = pc_LastName req, cr_Status = 0\<rparr>)
       (\<lambda>account. case account of None \<Rightarrow> ret Panics | Some a \<Rightarrow> ret (Resp (ID a)))"

definition grpcGetAccount :: "(time \<Rightarrow> 'ts) \<Rightarrow> 's AccountUseCase \<Rightarrow> (string, 's, 'ts pbAccount ptr) unary" where
  "grpcGetAccount ts uc i = andThen (uc_Get uc i) (\<lambda>account. ret (toProtoAccount ts account))"

definition pbFilter :: "pbListRequest \<Rightarrow> ListAccountFilter" where
  "pbFilter req =
     (let flt = \<lparr>lf_Status = None, lf_Limit = scast (pl_Limit req), lf_Offset = scast (pl_Offset req)\<rparr>
      in case pl_Status req of None \<Rightarrow> flt | Some st \<Rightarrow> flt\<lparr>lf_Status := Some (toDomainStatus st)\<rparr>)"

definition grpcListAccounts :: "(time \<Rightarrow> 'ts) \<Rightarrow> 's AccountUseCase \<Rightarrow> (pbListRequest, 's, 'ts pbListResponse) unary" where
  "grpcListAccounts ts uc req =
     andThen (uc_List uc (pbFilter req))
       (\<lambda>(accounts, total). ret \<lparr>pr_Accounts = append_all (\<lambda>a. toProtoAccount ts (Some a)) accounts,
                                 pr_Total = scast total\<rparr>)"

definition pbUpdate :: "pbUpdateRequest \<Rightarrow> UpdateAccountRequest" where
  "pbUpdate req =
     (let domReq = \<lparr>ur_ID = pu_Id req, ur_FirstName = pu_FirstName req, ur_LastName = pu_LastName req, ur_Status = None\<rparr>
      in case pu_Status req of None \<Rightarrow> domReq | Some st \<Rightarrow> domReq\<lparr>ur_Status := Some (toDomainStatus st)\<rparr>)"

definition grpcUpdateAccount :: "(time \<Rightarrow> 'ts) \<Rightarrow> 's AccountUseCase \<Rightarrow> (pbUpdateRequest, 's, 'ts pbAccount ptr) unary" where
  "grpcUpdateAccount ts uc req = andThen (uc_Update uc (pbUpdate req)) (\<lambda>account. ret (toProtoAccount ts account))"

definition grpcDeleteAccount :: "'s AccountUseCase \<Rightarrow> (string, 's, unit) unary" where
  "grpcDeleteAccount uc i = andThen (uc_Delete uc i) (\<lambda>_. ret ())"

section \<open>Properties\<close>

lemma scast_bits: "scast (scast (q :: goint32) :: goint) = q"
  by (rule bit_word_eqI) (simp add: bit_simps min_def)

lemma scast_numerals: "(scast (1 :: goint32) :: goint) = 1" "(scast (2 :: goint32) :: goint) = 2"
  "(scast (3 :: goint32) :: goint) = 3" "(scast (4 :: goint32) :: goint) = 4" "(scast (0 :: goint32) :: goint) = 0"
  "(scast (1 :: goint) :: goint32) = 1" "(scast (2 :: goint) :: goint32) = 2"
  "(scast (3 :: goint) :: goint32) = 3" "(scast (4 :: goint) :: goint32) = 4"
  by simp_all

text \<open>
  The status mappers.  Every wire status survives the round trip through the domain, every
  valid domain status survives the round trip through the wire, and the wire value 0
  (unspecified) maps to no valid status, so an update that sends it is refused.
\<close>

lemma grpc_status_roundtrip:
  "toProtoStatus (toDomainStatus p) = p
   \<and> (Valid s \<longrightarrow> toDomainStatus (toProtoStatus s) = s)
   \<and> \<not> Valid (toDomainStatus 0)
   \<and> (Valid (toDomainStatus p) \<longleftrightarrow> p \<in> {1, 2, 3, 4})"
proof -
  have rt: "toProtoStatus (toDomainStatus q) = q" for q
    by (simp add: toProtoStatus_def toDomainStatus_def scast_bits)
  have v: "Valid t \<Longrightarrow> toDomainStatus (toProtoStatus t) = t" for t
    unfolding toDomainStatus_def toProtoStatus_def by (rule scast_valid)
  have w: "Valid (toDomainStatus q) \<longleftrightarrow> q \<in> {1, 2, 3, 4}" for q
  proof
    assume "Valid (toDomainStatus q)"
    then consider "toDomainStatus q = 1" | "toDomainStatus q = 2" | "toDomainStatus q = 3" | "toDomainStatus q = 4"
      by (auto simp: Valid_iff)
    then show "q \<in> {1, 2, 3, 4}"
      using rt [of q] by cases (simp_all add: toProtoStatus_def scast_numerals)
  next
    assume "q \<in> {1, 2, 3, 4}"
    then consider "q = 1" | "q = 2" | "q = 3" | "q = 4" by blast
    then show "Valid (toDomainStatus q)" by cases (simp_all add: toDomainStatus_def Valid_iff)
  qed
  have "\<not> Valid (toDomainStatus 0)" using w [of 0] by simp
  with rt v w show ?thesis by blast
qed

lemma grpc_status_roundtrip_witness:
  "Valid AccountStatusBlocked \<and> toDomainStatus (toProtoStatus AccountStatusBlocked) = AccountStatusBlocked"
proof -
  have "Valid AccountStatusBlocked" by (simp add: Valid_iff status_defs)
  with grpc_status_roundtrip [of 0 AccountStatusBlocked] show ?thesis by blast
qed

text \<open>
  C37: ListAccounts returns the page of the use case in order, and its total as an int32: equal
  to the total below 2147483648, reduced modulo 2 to the 32nd from there on.
\<close>

theorem grpc_list_total:
  assumes "uc_List uc (pbFilter req) s = (Inr (as, n), s')"
  shows "\<exists>resp. grpcListAccounts ts uc req s = (Inr resp, s')
    \<and> pr_Accounts resp = map (\<lambda>a. toProtoAccount ts (Some a)) as
    \<and> uint (pr_Total resp) = uint n mod 2 ^ 32
    \<and> (0 \<le> sint n \<and> sint n < 2147483648 \<longrightarrow> sint (pr_Total resp) = sint n)"
proof -
  have "(scast n :: goint32) = ucast n"
    by (rule bit_word_eqI) (simp add: bit_simps min_def)
  then have "uint (scast n :: goint32) = uint n mod 2 ^ 32"
    by (simp only: unsigned_ucast_eq take_bit_eq_mod) simp
  moreover have "0 \<le> sint n \<and> sint n < 2147483648 \<longrightarrow> sint (scast n :: goint32) = sint n"
    by (auto simp: signed_scast_eq signed_take_bit_int_eq_self)
  ultimately show ?thesis using assms by (simp add: grpcListAccounts_def)
qed

theorem grpc_list_total_witness:
  "\<exists>resp s'. grpcListAccounts (\<lambda>t. t) (accountUseCase asciiOnly plainUC 7 ''u1'')
       \<lparr>pl_Status = None, pl_Limit = 10, pl_Offset = 0\<rparr> sampleWorld = (Inr resp, s') \<and> sint (pr_Total resp) = 1"
proof -
  have "\<exists>as s'. uc_List (accountUseCase asciiOnly plainUC 7 ''u1'')
       (pbFilter \<lparr>pl_Status = None, pl_Limit = 10, pl_Offset = 0\<rparr>) sampleWorld = (Inr (as, 1), s')"
    by (simp add: accountUseCase_def ucList_def pbFilter_def liftRepo_def onPart_def gorm_eval gormList_def pgGormCount_def pgGormFind_def
        andThen_def mapErr_def Let_def hasStatus_def)
  then obtain as s' where "uc_List (accountUseCase asciiOnly plainUC 7 ''u1'')
       (pbFilter \<lparr>pl_Status = None, pl_Limit = 10, pl_Offset = 0\<rparr>) sampleWorld = (Inr (as, 1), s')" by blast
  from grpc_list_total [OF this, of "\<lambda>t. t"] show ?thesis by auto
qed

text \<open>
  CreateAccount through the interceptor chain of \<open>registerGRPC\<close>, over every use case whose
  ports keep their contracts.  It never panics; a response carries the id of the account that
  is now stored, active whatever the caller is; and a response is only given to a message that
  passed validation, with an email that was free and a password that passed the policy.
\<close>

lemma grpc_create_stores:
  assumes "use_case uc view enc encp"
    and "ErrorInterceptor isStatus (ValidationInterceptor validate text (grpcCreateAccount (accountUseCase uni uc now uid)))
           req s = (Inr r, s')"
  shows "r = Resp uid \<and> validate req = None
    \<and> (\<exists>a. view s' = (view s)(uid \<mapsto> enc a) \<and> ID a = uid \<and> Email a = pc_Email req \<and> Status a = AccountStatusActive)
    \<and> view s uid = None \<and> \<not> emailTaken (view s) (pc_Email req)
    \<and> pw_IsValidPassword (dp_passwords uc) (pc_Password req) = Inr True"
proof -
  let ?req = "\<lparr>cr_Email = pc_Email req, cr_Password = pc_Password req, cr_FirstName = pc_FirstName req,
                            cr_LastName = pc_LastName req, cr_Status = 0\<rparr>"
  from assms(2) have v: "validate req = None"
    and h: "grpcCreateAccount (accountUseCase uni uc now uid) req s = (Inr r, s')"
    by (auto simp: ErrorInterceptor_def ValidationInterceptor_def elim!: mapErr_InrE split: option.splits)
  from h obtain p where c: "ucCreate uni uc now uid ?req s = (Inr p, s')"
    and r: "r = (case p of None \<Rightarrow> Panics | Some a \<Rightarrow> Resp (ID a))"
    by (auto simp: grpcCreateAccount_def accountUseCase_def elim!: andThen_InrE split: option.splits)
  from use_case.ucCreate_ok [OF assms(1) c] obtain hashed where
    p: "p = Some (newAccount uid now hashed ?req)" and st: "view s uid = None" "\<not> emailTaken (view s) (pc_Email req)"
    "view s' = (view s)(uid \<mapsto> enc (newAccount uid now hashed ?req))"
    "pw_IsValidPassword (dp_passwords uc) (pc_Password req) = Inr True" by auto
  have "Status (newAccount uid now hashed ?req) = AccountStatusActive"
    by (simp add: newAccount_def Valid_iff Let_def)
  with v r p st show ?thesis by auto
qed

definition samplePb :: pbCreateRequest where
  "samplePb = \<lparr>pc_Email = ''bob@x.io'', pc_Password = ''longenough'', pc_FirstName = ''Bob'', pc_LastName = ''Ray''\<rparr>"

lemma grpc_create_stores_witness:
  "\<exists>s' a. ErrorInterceptor sampleIsStatus (ValidationInterceptor (\<lambda>_. None) (\<lambda>_. [])
       (grpcCreateAccount (accountUseCase asciiOnly plainUC 7 ''u1''))) samplePb sampleWorld = (Inr (Resp ''u1''), s')
     \<and> ((tableView \<circ> pgRows) \<circ> w_db) s' ''u1'' = Some (gormEnc a) \<and> Status a = AccountStatusActive"
proof -
  let ?req = "\<lparr>cr_Email = ''bob@x.io'', cr_Password = ''longenough'', cr_FirstName = ''Bob'', cr_LastName = ''Ray'', cr_Status = 0\<rparr>"
  obtain s' where "ucCreate asciiOnly plainUC 7 ''u1'' ?req sampleWorld
      = (Inr (Some (newAccount ''u1'' 7 ''$2a$longenough'' ?req)), s')"
    using plain_create_runs [of sampleWorld asciiOnly ?req "''u1''" 7]
    by (auto simp: spent_def sampleWorld_def sampleRow_def)
  then have r: "ErrorInterceptor sampleIsStatus (ValidationInterceptor (\<lambda>_. None) (\<lambda>_. [])
       (grpcCreateAccount (accountUseCase asciiOnly plainUC 7 ''u1''))) samplePb sampleWorld = (Inr (Resp ''u1''), s')"
    by (simp add: ErrorInterceptor_def ValidationInterceptor_def grpcCreateAccount_def accountUseCase_def samplePb_def)
  from grpc_create_stores [OF plainUC.use_case_axioms r] r show ?thesis by fastforce
qed

end
