(* ===== verification/HttpHandler.thy ===== *)
theory HttpHandler
  imports Ginx UseCaseProps
begin

text \<open>
  The REST adapter (\<open>internal/adapter/http\<close>): wire objects, mappers and the five handlers.
  JSON binding (gin's ShouldBindJSON with its validation tags) is a parameter.
\<close>

section \<open>Wire objects and mappers\<close>

record AccountResponse =
  ar_ID :: string
  ar_Email :: string
  ar_FirstName :: string
  ar_LastName :: string
  ar_FullName :: string
  ar_Status :: string
  ar_CreatedAt :: string
  ar_UpdatedAt :: string

record httpCreateRequest =
  hc_Email :: string
  hc_Password :: string
  hc_FirstName :: string
  hc_LastName :: string
  hc_Status :: goint

record httpUpdateRequest =
  hu_FirstName :: "string ptr"
  hu_LastName :: "string ptr"
  hu_Status :: "goint ptr"

record ListAccountsResponse =
  lp_Accounts :: "AccountResponse list"
  lp_Total :: goint

datatype wire = WAccount AccountResponse | WList ListAccountsResponse

definition createToDomain :: "httpCreateRequest \<Rightarrow> CreateAccountRequest" where
  "createToDomain r = \<lparr>cr_Email = hc_Email r, cr_Password = hc_Password r, cr_FirstName = hc_FirstName r,
     cr_LastName = hc_LastName r, cr_Status = hc_Status r\<rparr>"

definition updateToDomain :: "httpUpdateRequest \<Rightarrow> string \<Rightarrow> UpdateAccountRequest" where
  "updateToDomain r i =
     (let out = \<lparr>ur_ID = i, ur_FirstName = hu_FirstName r, ur_LastName = hu_LastName r, ur_Status = None\<rparr>
      in case hu_Status r of None \<Rightarrow> out | Some st \<Rightarrow> out\<lparr>ur_Status := Some st\<rparr>)"

definition fromDomain :: "account ptr \<Rightarrow> AccountResponse" where
  "fromDomain p =
     (case p of
        None \<Rightarrow> \<lparr>ar_ID = [], ar_Email = [], ar_FirstName = [], ar_LastName = [], ar_FullName = [],
                 ar_Status = [], ar_CreatedAt = [], ar_UpdatedAt = []\<rparr>
      | Some a \<Rightarrow> \<lparr>ar_ID = ID a, ar_Email = Email a, ar_FirstName = FirstName a, ar_LastName = LastName a,
                 ar_FullName = FullName a, ar_Status = StatusString (Status a),
                 ar_CreatedAt = FormatRFC3339 (CreatedAt a), ar_UpdatedAt = FormatRFC3339 (UpdatedAt a)\<rparr>)"

definition fromDomainList :: "account list \<Rightarrow> AccountResponse list" where
  "fromDomainList as = append_all (\<lambda>a. fromDomain (Some a)) as"

definition atoiDefault :: "string \<Rightarrow> goint \<Rightarrow> goint" where
  "atoiDefault s def =
     (if s = [] then def else case Atoi s of Inl err \<Rightarrow> def | Inr v \<Rightarrow> v)"

section \<open>Handlers\<close>

text \<open>Call the use case on the state behind the handlers.\<close>

definition callUC :: "('s, go_error, 'a) op \<Rightarrow> ('a \<Rightarrow> ('s, wire) gin \<Rightarrow> ('s, wire) gin) \<Rightarrow> ('s, wire) handler" where
  "callUC m k = (\<lambda>c.
     case m (gc_state c) of
       (Inl err, s') \<Rightarrow> (Inr (), cError err (c\<lparr>gc_state := s'\<rparr>))
     | (Inr a, s') \<Rightarrow> (Inr (), k a (c\<lparr>gc_state := s'\<rparr>)))"

definition httpCreate :: "(string \<Rightarrow> go_error + httpCreateRequest) \<Rightarrow> 's AccountUseCase \<Rightarrow> ('s, wire) handler" where
  "httpCreate bind uc = (\<lambda>c.
     case bind (gc_body c) of
       Inl err \<Rightarrow> (Inr (), cError (App (Cause ErrInvalidRequest err)) c)
     | Inr req \<Rightarrow> callUC (uc_Create uc (createToDomain req))
                   (\<lambda>account. cJSON StatusCreated (BData (WAccount (fromDomain account)))) c)"

definition httpGet :: "'s AccountUseCase \<Rightarrow> ('s, wire) handler" where
  "httpGet uc = (\<lambda>c.
     callUC (uc_Get uc (gc_param c)) (\<lambda>account. cJSON StatusOK (BData (WAccount (fromDomain account)))) c)"

text \<open>\<open>Atoi\<close>'s error as a Go error.\<close>

definition atoiError :: "string \<Rightarrow> num_error \<Rightarrow> go_error" where
  "atoiError s e = Wrapf ''strconv.Atoi: parsing %q: %w'' [s]
     (ErrorString (case e of ErrSyntax \<Rightarrow> ''invalid syntax'' | ErrRange \<Rightarrow> ''value out of range''))"

definition listFilter :: "('s, wire) gin \<Rightarrow> go_error + ListAccountFilter" where
  "listFilter c =
     (let flt = \<lparr>lf_Status = None, lf_Limit = atoiDefault (cQuery ''limit'' c) 0,
                    lf_Offset = atoiDefault (cQuery ''offset'' c) 0\<rparr>;
          raw = cQuery ''status'' c
      in if raw \<noteq> [] then
           case Atoi raw of
             Inl err \<Rightarrow> Inl (App (WithMessage (Cause ErrInvalidRequest (atoiError raw err)) ''invalid status''))
           | Inr v \<Rightarrow> Inr (flt\<lparr>lf_Status := Some v\<rparr>)
         else Inr flt)"

definition httpList :: "'s AccountUseCase \<Rightarrow> ('s, wire) handler" where
  "httpList uc = (\<lambda>c.
     case listFilter c of
       Inl err \<Rightarrow> (Inr (), cError err c)
     | Inr flt \<Rightarrow> callUC (uc_List uc flt)
         (\<lambda>(accounts, total). cJSON StatusOK
            (BData (WList \<lparr>lp_Accounts = fromDomainList accounts, lp_Total = total\<rparr>))) c)"

definition httpUpdate :: "(string \<Rightarrow> go_error + httpUpdateRequest) \<Rightarrow> 's AccountUseCase \<Rightarrow> ('s, wire) handler" where
  "httpUpdate bind uc = (\<lambda>c.
     case bind (gc_body c) of
       Inl err \<Rightarrow> (Inr (), cError (App (Cause ErrInvalidRequest err)) c)
     | Inr req \<Rightarrow> callUC (uc_Update uc (updateToDomain req (gc_param c)))
                   (\<lambda>account. cJSON StatusOK (BData (WAccount (fromDomain account)))) c)"

definition httpDelete :: "'s AccountUseCase \<Rightarrow> ('s, wire) handler" where
  "httpDelete uc = (\<lambda>c.
     callUC (uc_Delete uc (gc_param c)) (\<lambda>_. cStatus StatusNoContent) c)"

text \<open>The routes, by method and route template.\<close>

definition RegisterRoutes ::
    "string \<Rightarrow> (string \<Rightarrow> go_error + httpCreateRequest) \<Rightarrow> (string \<Rightarrow> go_error + httpUpdateRequest)
       \<Rightarrow> 's AccountUseCase \<Rightarrow> ((string \<times> string) \<times> ('s, wire) handler) list" where
  "RegisterRoutes rg bindCreate bindUpdate uc =
     (let g = rg @ ''/accounts'' in
      [((''POST'', g), httpCreate bindCreate uc),
       ((''GET'', g @ ''/:id''), httpGet uc),
       ((''GET'', g), httpList uc),
       ((''PATCH'', g @ ''/:id''), httpUpdate bindUpdate uc),
       ((''DELETE'', g @ ''/:id''), httpDelete uc)])"

section \<open>Lemmas\<close>

lemma callUC_spec:
  "callUC m k c = (Inr (), case m (gc_state c) of
     (Inl err, s') \<Rightarrow> cError err (c\<lparr>gc_state := s'\<rparr>) | (Inr a, s') \<Rightarrow> k a (c\<lparr>gc_state := s'\<rparr>))"
  by (simp add: callUC_def split: prod.split sum.split)

lemma answered_cError:
  "gc_Errors c = [] \<Longrightarrow> gc_written c = None \<Longrightarrow>
     gc_status (answered (cError e c)) = he_status (NewError (Some e))
     \<and> gc_written (answered (cError e c)) = Some (BError (he_body (NewError (Some e))))
     \<and> gc_state (answered (cError e c)) = gc_state c"
  by (simp add: answered_def Let_def)

lemma answered_cJSON:
  "gc_Errors c = [] \<Longrightarrow> gc_written c = None \<Longrightarrow>
     gc_status (answered (cJSON st b c)) = st \<and> gc_written (answered (cJSON st b c)) = Some b
     \<and> gc_state (answered (cJSON st b c)) = gc_state c"
  by (simp add: answered_def)

lemma atoiDefault_Itoa: "atoiDefault (Itoa n) d = n"
proof -
  have "Itoa n \<noteq> []"
  proof
    assume "Itoa n = []"
    with Atoi_Itoa_id [of n] show False by (simp add: Atoi_def)
  qed
  then show ?thesis by (simp add: atoiDefault_def Atoi_Itoa_id)
qed

text \<open>What the client sees of the context after the chain.\<close>

definition response :: "('s, wire) gin \<Rightarrow> nat \<times> wire respBody option" where
  "response c = (gc_status c, gc_written c)"

text \<open>A request on an API route that no middleware has seen yet.\<close>

definition request :: "('s, 'b) gin \<Rightarrow> bool" where
  "request c \<longleftrightarrow> gc_ctx c = None \<and> gc_Errors c = [] \<and> gc_written c = None
     \<and> gc_FullPath c \<noteq> [] \<and> \<not> isOps (gc_FullPath c)"

section \<open>Properties\<close>

text \<open>
  C6: the answer to POST /accounts through the whole middleware stack.  A body that does not
  bind is 400 without a call of the use case; an error of the use case is the status and body
  of its AppError; a success is 201 with the account.  The state is the use case's, the
  correlation id is echoed, and the request is counted once under the status the client saw.
\<close>

theorem http_create_answers:
  assumes "request c" "tracing = (\<lambda>g. g)"
  shows "\<exists>c2. httpChain uid dur tracing (httpCreate bind uc) c = (Inr (), c2)
    \<and> (case bind (gc_body c) of
         Inl e \<Rightarrow> gc_status c2 = 400 \<and> gc_state c2 = gc_state c
           \<and> gc_written c2 = Some (BError \<lparr>er_code = ''invalid_request'', er_message = ''the request is invalid'', er_metadata = None\<rparr>)
       | Inr req \<Rightarrow>
           (case uc_Create uc (createToDomain req) (gc_state c) of
              (Inl err, s') \<Rightarrow> gc_state c2 = s' \<and> gc_status c2 = he_status (NewError (Some err))
                \<and> gc_written c2 = Some (BError (he_body (NewError (Some err))))
            | (Inr a, s') \<Rightarrow> gc_state c2 = s' \<and> gc_status c2 = 201
                \<and> gc_written c2 = Some (BData (WAccount (fromDomain a)))))
    \<and> gc_outHeader c2 = corrId uid c
    \<and> counter (httpRequests (gc_metrics c2)) (gc_method c, gc_FullPath c, Itoa (word_of_nat (gc_status c2)))
        = counter (httpRequests (gc_metrics c)) (gc_method c, gc_FullPath c, Itoa (word_of_nat (gc_status c2))) + 1"
proof -
  let ?e = "entered uid c"
  from assms(1) have r: "gc_ctx c = None" "gc_Errors ?e = []" "gc_written ?e = None"
    "gc_FullPath c \<noteq> []" "\<not> isOps (gc_FullPath c)" by (simp_all add: request_def)
  obtain c1 where h: "httpCreate bind uc ?e = (Inr (), c1)"
    by (cases "bind (gc_body c)") (auto simp: httpCreate_def callUC_spec)
  have frame: "gc_FullPath c1 = gc_FullPath c" "gc_outHeader c1 = corrId uid c" "gc_method c1 = gc_method c"
    "gc_metrics c1 = gc_metrics c"
    using h by (auto simp: httpCreate_def callUC_spec split: sum.splits prod.splits)
  have ans: "case bind (gc_body c) of
         Inl e \<Rightarrow> gc_status (answered c1) = 400 \<and> gc_state c1 = gc_state c
           \<and> gc_written (answered c1) = Some (BError \<lparr>er_code = ''invalid_request'', er_message = ''the request is invalid'', er_metadata = None\<rparr>)
       | Inr req \<Rightarrow>
           (case uc_Create uc (createToDomain req) (gc_state c) of
              (Inl err, s') \<Rightarrow> gc_state c1 = s' \<and> gc_status (answered c1) = he_status (NewError (Some err))
                \<and> gc_written (answered c1) = Some (BError (he_body (NewError (Some err))))
            | (Inr a, s') \<Rightarrow> gc_state c1 = s' \<and> gc_status (answered c1) = 201
                \<and> gc_written (answered c1) = Some (BData (WAccount (fromDomain a))))"
    using h r(2,3)
    by (auto simp: httpCreate_def callUC_spec answered_def Let_def NewError_def HTTPStatus_def Code_def Message_def
        Metadata_Nil_iff Metadata_def copyMap_def sentinel_defs split: sum.splits prod.splits)
  from chain_Inr [of c tracing "httpCreate bind uc" uid c1 dur] r assms(2) h frame ans
  show ?thesis by (fastforce split: sum.splits prod.splits)
qed

definition sampleHttp :: "(pg world, wire) gin" where
  "sampleHttp = \<lparr>gc_method = ''POST'', gc_FullPath = ''/api/v1/accounts'', gc_param = [], gc_query = [(''status'', ''active'')],
     gc_body = ''{}'', gc_header = [], gc_ctx = None, gc_outHeader = [], gc_Errors = [], gc_status = 200,
     gc_written = None, gc_log = [], gc_panics = [], gc_metrics = newMetrics, gc_state = sampleWorld\<rparr>"

definition sampleBody :: httpCreateRequest where
  "sampleBody = \<lparr>hc_Email = ''bob@x.io'', hc_Password = ''longenough'', hc_FirstName = ''Bob'',
     hc_LastName = ''Ray'', hc_Status = 9\<rparr>"

lemma request_sampleHttp: "request sampleHttp"
  by (simp add: request_def sampleHttp_def isOps_def opsPaths_def)

theorem http_create_answers_witness:
  "\<exists>c2. httpChain ''id'' 5 (\<lambda>g. g) (httpCreate (\<lambda>_. Inr sampleBody) (accountUseCase asciiOnly plainUC 7 ''u1''))
      sampleHttp = (Inr (), c2) \<and> gc_status c2 = 201"
proof -
  have "createToDomain sampleBody = sampleReq" by (simp add: createToDomain_def sampleBody_def sampleReq_def)
  moreover obtain s' where "ucCreate asciiOnly plainUC 7 ''u1'' sampleReq sampleWorld
      = (Inr (Some (newAccount ''u1'' 7 ''$2a$longenough'' sampleReq)), s')" using sample_create by blast
  moreover have "gc_state sampleHttp = sampleWorld" by (simp add: sampleHttp_def)
  ultimately show ?thesis
    using http_create_answers [OF request_sampleHttp refl, of "''id''" 5 "\<lambda>_. Inr sampleBody"
        "accountUseCase asciiOnly plainUC 7 ''u1''"]
    by (fastforce simp: accountUseCase_def)
qed

text \<open>
  The query of GET /accounts.  Integers printed in decimal are read back as the filter's
  limit, offset and status, whatever their size or sign; a limit or offset that is not an
  integer counts as 0; a status that is not an integer is refused with 400.
\<close>

lemma http_list_query:
  "(cQuery ''limit'' c = Itoa l \<and> cQuery ''offset'' c = Itoa n \<and> cQuery ''status'' c = Itoa st \<longrightarrow>
      listFilter c = Inr \<lparr>lf_Status = Some st, lf_Limit = l, lf_Offset = n\<rparr>)
   \<and> (cQuery ''status'' c = [] \<longrightarrow> (\<exists>e1 e2. Atoi (cQuery ''limit'' c) = Inl e1 \<and> Atoi (cQuery ''offset'' c) = Inl e2) \<longrightarrow>
      listFilter c = Inr \<lparr>lf_Status = None, lf_Limit = 0, lf_Offset = 0\<rparr>)
   \<and> (cQuery ''status'' c \<noteq> [] \<longrightarrow> (\<exists>e. Atoi (cQuery ''status'' c) = Inl e) \<longrightarrow>
      (\<exists>a. listFilter c = Inl (App a) \<and> Code a = ''invalid_request'' \<and> HTTPStatus a = 400 \<and> Message a = ''invalid status''))"
proof -
  have "Itoa st \<noteq> []"
  proof
    assume "Itoa st = []"
    with Atoi_Itoa_id [of st] show False by (simp add: Atoi_def)
  qed
  then show ?thesis
    by (auto simp: listFilter_def Let_def atoiDefault_Itoa Atoi_Itoa_id Code_def HTTPStatus_def Message_def)
      (simp_all add: atoiDefault_def)
qed

lemma http_list_query_witness:
  "\<exists>a. listFilter sampleHttp = Inl (App a) \<and> HTTPStatus a = 400"
proof -
  have q: "cQuery ''status'' sampleHttp = ''active''" by (simp add: cQuery_def sampleHttp_def)
  moreover have "Atoi ''active'' = Inl ErrSyntax" by code_simp
  ultimately have "cQuery ''status'' sampleHttp \<noteq> []" "\<exists>e. Atoi (cQuery ''status'' sampleHttp) = Inl e" by simp_all
  with http_list_query [of sampleHttp 0 0 0] show ?thesis by blast
qed

end
