(* ===== verification/Kafka.thy ===== *)
theory Kafka
  imports Ports
begin

text \<open>
  The Kafka consumer (\<open>internal/adapter/kafka/consumer.go\<close>): the loop of \<open>Consumer.Run\<close> over a
  \<open>kafka.Reader\<close>.  The reader and the JSON decoder of the type parameter are parameters; what
  the loop relies on of a reader of one partition is the locale \<open>partition_reader\<close>.
\<close>

section \<open>The code\<close>

record kafkaMessage =
  km_Topic :: string
  km_Partition :: goint
  km_Offset :: goint
  km_Value :: string

record ReaderConfig =
  rc_Brokers :: "string list"
  rc_Topic :: string
  rc_GroupID :: string
  rc_MinBytes :: goint
  rc_MaxBytes :: goint

definition NewReader :: "string list \<Rightarrow> string \<Rightarrow> string \<Rightarrow> ReaderConfig" where
  "NewReader brokers topic groupID =
     \<lparr>rc_Brokers = brokers, rc_Topic = topic, rc_GroupID = groupID, rc_MinBytes = 1, rc_MaxBytes = push_bit 20 10\<rparr>"

record 's KafkaReader =
  kr_FetchMessage :: "('s, go_error, kafkaMessage) op"
  kr_CommitMessages :: "kafkaMessage \<Rightarrow> ('s, go_error, unit) op"

record ('s, 'm) Consumer =
  co_reader :: "'s KafkaReader"
  co_unmarshal :: "string \<Rightarrow> go_error + 'm"
  co_handle :: "'m \<Rightarrow> ('s, go_error, unit) op"
  co_log :: "string \<Rightarrow> kafkaMessage \<Rightarrow> go_error \<Rightarrow> 's \<Rightarrow> 's"

definition Canceled :: go_error where
  "Canceled = ErrorString ''context canceled''"

definition NewConsumer ::
    "'s KafkaReader \<Rightarrow> (string \<Rightarrow> go_error + 'm) \<Rightarrow> ('m \<Rightarrow> ('s, go_error, unit) op)
       \<Rightarrow> (string \<Rightarrow> kafkaMessage \<Rightarrow> go_error \<Rightarrow> 's \<Rightarrow> 's) \<Rightarrow> ('s, 'm) Consumer" where
  "NewConsumer reader unmarshal handle lg =
     \<lparr>co_reader = reader, co_unmarshal = unmarshal, co_handle = handle, co_log = lg\<rparr>"

text \<open>One turn of the loop: go round again, or return.\<close>

datatype turn = Again | Return "go_error option"

definition loopBody :: "('s, 'm) Consumer \<Rightarrow> 's \<Rightarrow> turn \<times> 's" where
  "loopBody c s =
     (case kr_FetchMessage (co_reader c) s of
        (Inl err, s1) \<Rightarrow> (if errorsIs err Canceled then Return None else Return (Some err), s1)
      | (Inr m, s1) \<Rightarrow>
          (case co_unmarshal c (km_Value m) of
             Inl err \<Rightarrow> (Again, co_log c ''kafka: failed to unmarshal message'' m err s1)
           | Inr msg \<Rightarrow>
               (case co_handle c msg s1 of
                  (Inl err, s2) \<Rightarrow> (Again, co_log c ''kafka: failed to handle message'' m err s2)
                | (Inr _, s2) \<Rightarrow>
                    (case kr_CommitMessages (co_reader c) m s2 of
                       (Inl err, s3) \<Rightarrow>
                         if errorsIs err Canceled then (Return None, s3)
                         else (Again, co_log c ''kafka: failed to commit message'' m err s3)
                     | (Inr _, s3) \<Rightarrow> (Again, s3)))))"

lemma loopBody_return:
  assumes "loopBody c u = (Return r, t)"
  shows "case r of
         Some e \<Rightarrow> kr_FetchMessage (co_reader c) u = (Inl e, t) \<and> \<not> errorsIs e Canceled
       | None \<Rightarrow> (\<exists>e. errorsIs e Canceled \<and> (kr_FetchMessage (co_reader c) u = (Inl e, t)
           \<or> (\<exists>m u1 x u2. kr_FetchMessage (co_reader c) u = (Inr m, u1) \<and> co_unmarshal c (km_Value m) = Inr x
                \<and> co_handle c x u1 = (Inr (), u2) \<and> kr_CommitMessages (co_reader c) m u2 = (Inl e, t))))"
  using assms by (auto simp: loopBody_def split: sum.splits prod.splits if_splits)

text \<open>The loop may run for ever: None.\<close>

partial_function (option) Run :: "('s, 'm) Consumer \<Rightarrow> 's \<Rightarrow> (go_error option \<times> 's) option" where
  "Run c s = (case loopBody c s of (t, s') \<Rightarrow> (case t of Again \<Rightarrow> Run c s' | Return r \<Rightarrow> Some (r, s')))"

section \<open>Runs\<close>

inductive consumes :: "('s, 'm) Consumer \<Rightarrow> 's \<Rightarrow> 's \<Rightarrow> bool" for c where
  turned: "loopBody c s = (Again, s') \<Longrightarrow> consumes c s s'"

inductive_simps consumes_iff: "consumes c s s'"

lemma Run_again: "loopBody c s = (Again, s') \<Longrightarrow> Run c s = Run c s'"
  by (simp add: Run.simps)

lemma Run_return: "loopBody c s = (Return r, s') \<Longrightarrow> Run c s = Some (r, s')"
  by (simp add: Run.simps)

lemma Run_consumes: "(consumes c)\<^sup>*\<^sup>* s t \<Longrightarrow> Run c s = Run c t"
  by (induction rule: rtranclp_induct) (auto simp: consumes_iff Run_again)

lemma Run_result:
  assumes "Run c s = Some (r, t)"
  shows "\<exists>u. (consumes c)\<^sup>*\<^sup>* s u \<and> loopBody c u = (Return r, t)"
proof -
  let ?P = "\<lambda>c s y. \<exists>u. (consumes c)\<^sup>*\<^sup>* s u \<and> loopBody c u = (Return (fst y), snd y)"
  have "?P c s (r, t)"
  proof (rule Run.raw_induct [OF _ assms, where P = ?P])
    fix Run' :: "('s, 'm) Consumer \<Rightarrow> 's \<Rightarrow> (go_error option \<times> 's) option" and c s y
    assume ih: "\<And>c s y. Run' c s = Some y \<Longrightarrow> ?P c s y"
      and eq: "(case loopBody c s of (t, s') \<Rightarrow> (case t of Again \<Rightarrow> Run' c s' | Return r \<Rightarrow> Some (r, s'))) = Some y"
    obtain b s' where b: "loopBody c s = (b, s')" by fastforce
    show "?P c s y"
    proof (cases b)
      case Again
      with eq b ih obtain u where u: "(consumes c)\<^sup>*\<^sup>* s' u" "loopBody c u = (Return (fst y), snd y)" by fastforce
      moreover have "consumes c s s'" using b Again by (simp add: consumes_iff)
      ultimately show ?thesis by (meson converse_rtranclp_into_rtranclp)
    next
      case (Return x)
      with eq b have "loopBody c s = (Return (fst y), snd y)" by auto
      then show ?thesis by blast
    qed
  qed
  then show ?thesis by simp
qed

section \<open>A reader of one partition\<close>

text \<open>
  \<open>plog s\<close> is the partition's log, \<open>pos s\<close> the offset the reader fetches next and \<open>com s\<close> the
  group's committed offset: where a consumer starts after a restart.  Committing message \<open>m\<close>
  commits the offset after it, never moving backwards.  The handler and the logger are not
  the reader.
\<close>

locale partition_reader =
  fixes c :: "('s, 'm) Consumer" and plog :: "'s \<Rightarrow> string list" and pos :: "'s \<Rightarrow> nat" and com :: "'s \<Rightarrow> nat"
  assumes fetch_ok: "kr_FetchMessage (co_reader c) s = (Inr m, s') \<Longrightarrow>
        pos s < length (plog s) \<and> sint (km_Offset m) = int (pos s) \<and> km_Value m = plog s ! pos s
        \<and> plog s' = plog s \<and> pos s' = Suc (pos s) \<and> com s' = com s"
    and fetch_err: "kr_FetchMessage (co_reader c) s = (Inl e, s') \<Longrightarrow> plog s' = plog s \<and> pos s' = pos s \<and> com s' = com s"
    and commit_ok: "kr_CommitMessages (co_reader c) m s = (Inr u, s') \<Longrightarrow>
        plog s' = plog s \<and> pos s' = pos s \<and> com s' = max (com s) (Suc (nat (sint (km_Offset m))))"
    and commit_err: "kr_CommitMessages (co_reader c) m s = (Inl e, s') \<Longrightarrow>
        plog s' = plog s \<and> pos s' = pos s \<and> (com s' = com s \<or> com s' = max (com s) (Suc (nat (sint (km_Offset m)))))"
    and handle_keeps: "keeps plog (co_handle c x)" "keeps pos (co_handle c x)" "keeps com (co_handle c x)"
    and log_keeps: "plog (co_log c t m e s) = plog s" "pos (co_log c t m e s) = pos s" "com (co_log c t m e s) = com s"
begin

lemma handle_same: "co_handle c x s = (r, s') \<Longrightarrow> plog s' = plog s \<and> pos s' = pos s \<and> com s' = com s"
  by (intro conjI) (erule keepsD [OF handle_keeps(1)] keepsD [OF handle_keeps(2)] keepsD [OF handle_keeps(3)])+

text \<open>What one turn does to the position and the committed offset.\<close>

lemma turn_effect:
  assumes "loopBody c s = (b, s')"
  shows "plog s' = plog s \<and> pos s \<le> pos s' \<and> pos s' \<le> Suc (pos s)
     \<and> (b = Again \<longrightarrow> pos s < length (plog s) \<and> pos s' = Suc (pos s))
     \<and> (com s' = com s \<or> com s' = max (com s) (Suc (pos s)) \<and> pos s < length (plog s)
         \<and> (\<exists>x t t'. co_unmarshal c (plog s ! pos s) = Inr x \<and> co_handle c x t = (Inr (), t')))"
proof (cases "kr_FetchMessage (co_reader c) s")
  case (Pair f s1)
  show ?thesis
  proof (cases f)
    case (Inl e)
    have "s' = s1" "b \<noteq> Again" using Pair Inl assms by (auto simp: loopBody_def split: if_splits)
    with fetch_err [of s e s1] Pair Inl show ?thesis by simp
  next
    case (Inr m)
    with Pair have f: "pos s < length (plog s)" "sint (km_Offset m) = int (pos s)" "km_Value m = plog s ! pos s"
      "plog s1 = plog s" "pos s1 = Suc (pos s)" "com s1 = com s" using fetch_ok [of s m s1] by simp_all
    show ?thesis
    proof (cases "co_unmarshal c (km_Value m)")
      case (Inl e)
      with Pair Inr assms f show ?thesis by (auto simp: loopBody_def log_keeps)
    next
      case d: (Inr x)
      obtain h s2 where h: "co_handle c x s1 = (h, s2)" by fastforce
      note hs = handle_same [OF h]
      show ?thesis
      proof (cases h)
        case (Inl e)
        with Pair Inr d h hs assms f show ?thesis by (auto simp: loopBody_def log_keeps)
      next
        case ok: (Inr u)
        obtain k s3 where k: "kr_CommitMessages (co_reader c) m s2 = (k, s3)" by fastforce
        from k have ks: "plog s3 = plog s2 \<and> pos s3 = pos s2 \<and> (com s3 = com s2 \<or> com s3 = max (com s2) (Suc (nat (sint (km_Offset m)))))"
          by (cases k) (auto dest: commit_ok commit_err)
        have "b = Again \<or> (\<exists>r. b = Return r)" by (cases b) auto
        moreover have "plog s' = plog s3" "pos s' = pos s3" "com s' = com s3"
          using Pair Inr d h ok k assms by (auto simp: loopBody_def log_keeps split: sum.splits if_splits)
        ultimately show ?thesis using ks hs f d h ok by auto
      qed
    qed
  qed
qed

lemma consumes_pos:
  "consumes c s s' \<Longrightarrow> plog s' = plog s \<and> pos s' = Suc (pos s) \<and> pos s < length (plog s)"
  using turn_effect by (fastforce simp: consumes_iff)

lemma consumes_steps: "(consumes c)\<^sup>*\<^sup>* s t \<Longrightarrow> plog t = plog s \<and> pos s \<le> pos t"
  by (induction rule: rtranclp_induct) (auto dest: consumes_pos)

text \<open>A finite log is consumed in finitely many turns: the loop returns.\<close>

lemma Run_returns: "\<exists>r t. Run c s = Some (r, t)"
proof (induction "length (plog s) - pos s" arbitrary: s rule: less_induct)
  case less
  obtain b s' where b: "loopBody c s = (b, s')" by fastforce
  show ?case
  proof (cases b)
    case Again
    with turn_effect [OF b] have "length (plog s') - pos s' < length (plog s) - pos s" by auto
    from less [OF this] show ?thesis using Run_again b Again by metis
  next
    case (Return r)
    then show ?thesis using Run_return b by fastforce
  qed
qed

end

text \<open>
  The handler as a function of its own part \<open>hst\<close> of the state, which reader and logger leave
  alone.  \<open>deliverAll\<close> is what that part has become after a list of values: the reference for a run.
\<close>

definition deliverAll :: "(string \<Rightarrow> go_error + 'm) \<Rightarrow> ('m \<Rightarrow> ('h, go_error, unit) op) \<Rightarrow> string list \<Rightarrow> 'h \<Rightarrow> 'h" where
  "deliverAll unmarshal h =
     fold (\<lambda>v hs. case unmarshal v of Inl e \<Rightarrow> hs | Inr x \<Rightarrow> snd (h x hs))"

lemma deliverAll_simps [simp]:
  "deliverAll unmarshal h [] hs = hs"
  "deliverAll unmarshal h [v] hs = (case unmarshal v of Inl e \<Rightarrow> hs | Inr x \<Rightarrow> snd (h x hs))"
  "deliverAll unmarshal h (vs @ ws) hs = deliverAll unmarshal h ws (deliverAll unmarshal h vs hs)"
  by (simp_all add: deliverAll_def)

locale handled_partition = partition_reader c plog pos com
  for c :: "('s, 'm) Consumer" and plog pos com +
  fixes hst :: "'s \<Rightarrow> 'h" and h :: "'m \<Rightarrow> ('h, go_error, unit) op"
  assumes reader_hst: "keeps hst (kr_FetchMessage (co_reader c))" "keeps hst (kr_CommitMessages (co_reader c) m)"
    and handle_hst: "co_handle c x s = (r, s') \<Longrightarrow> h x (hst s) = (r, hst s')"
    and log_hst: "hst (co_log c t m e s) = hst s"
begin

abbreviation passed :: "'s \<Rightarrow> 's \<Rightarrow> string list" where
  "passed s t \<equiv> take (pos t - pos s) (drop (pos s) (plog s))"

text \<open>A turn that fetched hands over the fetched message.\<close>

lemma turn_handled:
  assumes "loopBody c s = (b, s')" "kr_FetchMessage (co_reader c) s = (Inr m, s1)"
  shows "pos s' = Suc (pos s) \<and> hst s' = deliverAll (co_unmarshal c) h [plog s ! pos s] (hst s)"
proof -
  from fetch_ok [OF assms(2)] have f: "km_Value m = plog s ! pos s" "pos s1 = Suc (pos s)" by blast+
  have hs1: "hst s1 = hst s" by (rule keepsD [OF reader_hst(1) assms(2)])
  show ?thesis
  proof (cases "co_unmarshal c (plog s ! pos s)")
    case (Inl e)
    with assms f hs1 show ?thesis by (auto simp: loopBody_def log_keeps log_hst)
  next
    case (Inr x)
    obtain z s2 where z: "co_handle c x s1 = (z, s2)" by fastforce
    obtain k s3 where k: "kr_CommitMessages (co_reader c) m s2 = (k, s3)" by fastforce
    from handle_same [OF z] handle_hst [OF z] have s2: "pos s2 = pos s1" "h x (hst s1) = (z, hst s2)" by blast+
    have s3: "hst s3 = hst s2" by (rule keepsD [OF reader_hst(2) k])
    have "pos s3 = pos s2" using k by (cases k) (auto dest: commit_ok commit_err)
    note s3 = s3 this
    have "pos s' = pos s2 \<and> hst s' = hst s2"
      using assms f Inr z k s3 by (auto simp: loopBody_def log_keeps log_hst split: sum.splits if_splits)
    with s2 f hs1 Inr show ?thesis by simp
  qed
qed

lemma turn_delivers:
  assumes "loopBody c s = (b, s')"
  shows "pos s \<le> pos s' \<and> plog s' = plog s \<and> hst s' = deliverAll (co_unmarshal c) h (passed s s') (hst s)"
proof (cases "kr_FetchMessage (co_reader c) s")
  case (Pair f s1)
  show ?thesis
  proof (cases f)
    case (Inl e)
    then have "s' = s1" using Pair assms by (auto simp: loopBody_def split: if_splits)
    with fetch_err [of s e s1] keepsD [OF reader_hst(1) Pair] Pair Inl show ?thesis by simp
  next
    case (Inr m)
    from turn_handled [OF assms Pair [unfolded Inr]] have t: "pos s' = Suc (pos s)"
      "hst s' = deliverAll (co_unmarshal c) h [plog s ! pos s] (hst s)" by blast+
    have "pos s < length (plog s)" using fetch_ok [OF Pair [unfolded Inr]] by blast
    then have "passed s s' = [plog s ! pos s]" by (simp add: t(1) take_Suc_conv_app_nth)
    with t turn_effect [OF assms] show ?thesis by simp
  qed
qed

lemma passed_trans:
  assumes "pos s \<le> pos t" "pos t \<le> pos u" "plog t = plog s"
  shows "passed s u = passed s t @ passed t u"
proof -
  have "pos u - pos s = (pos t - pos s) + (pos u - pos t)" using assms by simp
  then show ?thesis using assms by (simp only: take_add drop_drop) simp
qed

lemma consumes_delivers:
  assumes "(consumes c)\<^sup>*\<^sup>* s t"
  shows "pos s \<le> pos t \<and> plog t = plog s \<and> hst t = deliverAll (co_unmarshal c) h (passed s t) (hst s)"
  using assms
proof (induction rule: rtranclp_induct)
  case (step t u)
  from turn_delivers [of t Again u] step(2)
  have u: "pos t \<le> pos u" "plog u = plog t" "hst u = deliverAll (co_unmarshal c) h (passed t u) (hst t)"
    by (auto simp: consumes_iff)
  from step(3) u(1,2) have "passed s u = passed s t @ passed t u" by (intro passed_trans) auto
  with step(3) u show ?case by simp
qed simp

lemma Run_delivers:
  "\<exists>r t u. Run c s = Some (r, t) \<and> (consumes c)\<^sup>*\<^sup>* s u \<and> loopBody c u = (Return r, t) \<and> plog u = plog s
     \<and> hst t = deliverAll (co_unmarshal c) h (passed s t) (hst s)"
proof -
  obtain r t where r: "Run c s = Some (r, t)" using Run_returns by blast
  from Run_result [OF this] obtain u where u: "(consumes c)\<^sup>*\<^sup>* s u" "loopBody c u = (Return r, t)" by blast
  note s = consumes_delivers [OF u(1)] and t = turn_delivers [OF u(2)]
  from s t have "passed s t = passed s u @ passed u t" by (intro passed_trans) auto
  with s t have "hst t = deliverAll (co_unmarshal c) h (passed s t) (hst s)" by simp
  with r u s show ?thesis by blast
qed

lemma Run_delivers_all:
  assumes "\<And>u e u'. plog u = plog s \<Longrightarrow> kr_FetchMessage (co_reader c) u = (Inl e, u') \<Longrightarrow> length (plog u) \<le> pos u"
    and "\<And>m u e u'. kr_CommitMessages (co_reader c) m u = (Inl e, u') \<Longrightarrow> \<not> errorsIs e Canceled"
  shows "\<exists>r t. Run c s = Some (r, t) \<and> hst t = deliverAll (co_unmarshal c) h (drop (pos s) (plog s)) (hst s)"
proof -
  from Run_delivers obtain r t u where run: "Run c s = Some (r, t)" "(consumes c)\<^sup>*\<^sup>* s u" "loopBody c u = (Return r, t)"
    and u: "plog u = plog s" and hst: "hst t = deliverAll (co_unmarshal c) h (passed s t) (hst s)" by blast
  have "\<exists>e. kr_FetchMessage (co_reader c) u = (Inl e, t)"
    using run(3) assms(2) by (auto simp: loopBody_def split: sum.splits prod.splits if_splits)
  then obtain e where e: "kr_FetchMessage (co_reader c) u = (Inl e, t)" by blast
  from assms(1) [OF u e] fetch_err [OF e] u have "length (plog s) \<le> pos t" by simp
  then have "passed s t = drop (pos s) (plog s)" by simp
  with run(1) hst show ?thesis by auto
qed

end

section \<open>A broker\<close>

text \<open>One partition with its log; the context is cancelled when the log is drained.\<close>

record 'h broker =
  bk_log :: "string list"
  bk_pos :: nat
  bk_com :: nat
  bk_commits :: "go_error option list"  \<comment> \<open>outcomes of the next commits\<close>
  bk_errors :: "(string \<times> goint) list"
  bk_handler :: 'h

definition brokerFetch :: "('h broker, go_error, kafkaMessage) op" where
  "brokerFetch = (\<lambda>b. if bk_pos b < length (bk_log b) \<and> bk_pos b < 2 ^ 63
     then (Inr \<lparr>km_Topic = ''account.events'', km_Partition = 0, km_Offset = word_of_nat (bk_pos b), km_Value = bk_log b ! bk_pos b\<rparr>,
           b\<lparr>bk_pos := Suc (bk_pos b)\<rparr>)
     else (Inl Canceled, b))"

definition brokerCommit :: "kafkaMessage \<Rightarrow> ('h broker, go_error, unit) op" where
  "brokerCommit m = (\<lambda>b. case bk_commits b of
     Some e # cs \<Rightarrow> (Inl e, b\<lparr>bk_commits := cs\<rparr>)
   | None # cs \<Rightarrow> (Inr (), b\<lparr>bk_commits := cs, bk_com := max (bk_com b) (Suc (nat (sint (km_Offset m))))\<rparr>)
   | [] \<Rightarrow> (Inr (), b\<lparr>bk_com := max (bk_com b) (Suc (nat (sint (km_Offset m))))\<rparr>))"

definition brokerReader :: "'h broker KafkaReader" where
  "brokerReader = \<lparr>kr_FetchMessage = brokerFetch, kr_CommitMessages = brokerCommit\<rparr>"

definition brokerConsumer ::
    "(string \<Rightarrow> go_error + 'm) \<Rightarrow> ('m \<Rightarrow> ('h, go_error, unit) op) \<Rightarrow> ('h broker, 'm) Consumer" where
  "brokerConsumer unmarshal h = NewConsumer brokerReader unmarshal
     (\<lambda>x. onPart bk_handler (\<lambda>hs b. b\<lparr>bk_handler := hs\<rparr>) (h x))
     (\<lambda>t m e b. b\<lparr>bk_errors := bk_errors b @ [(t, km_Offset m)]\<rparr>)"

lemma sint_offset: "n < 2 ^ 63 \<Longrightarrow> sint (word_of_nat n :: goint) = int n"
  by (simp add: signed_of_nat signed_take_bit_int_eq_self)

interpretation bkr: partition_reader "brokerConsumer unmarshal h" bk_log bk_pos bk_com
  for unmarshal :: "string \<Rightarrow> go_error + 'm" and h :: "'m \<Rightarrow> ('h, go_error, unit) op"
  by unfold_locales
    (auto simp: brokerConsumer_def NewConsumer_def brokerReader_def brokerFetch_def brokerCommit_def keeps_def onPart_def
      sint_offset split: if_splits list.splits option.splits prod.splits)

interpretation bkh: handled_partition "brokerConsumer unmarshal h" bk_log bk_pos bk_com bk_handler h
  for unmarshal :: "string \<Rightarrow> go_error + 'm" and h :: "'m \<Rightarrow> ('h, go_error, unit) op"
  by unfold_locales
    (auto simp: brokerConsumer_def NewConsumer_def brokerReader_def brokerFetch_def brokerCommit_def keeps_def onPart_def
      split: if_splits list.splits option.splits prod.splits)

section \<open>Properties\<close>

text \<open>
  C30: when and how the loop ends.  Over every reader whose log is finite (and which therefore
  reports an error once it is drained), Run returns, whatever the decoder, the handler and the
  commits answer.  It returns nil exactly when its last turn met a cancelled context, in the fetch
  or in the commit of a message handled in that turn, and otherwise the error of the last fetch;
  no other failed commit ends it.
\<close>

theorem kafka_run_returns:
  assumes "partition_reader c plog pos com"
  shows "\<exists>r t u. Run c s = Some (r, t) \<and> (consumes c)\<^sup>*\<^sup>* s u
    \<and> (case r of
         Some e \<Rightarrow> kr_FetchMessage (co_reader c) u = (Inl e, t) \<and> \<not> errorsIs e Canceled
       | None \<Rightarrow> (\<exists>e. errorsIs e Canceled \<and> (kr_FetchMessage (co_reader c) u = (Inl e, t)
           \<or> (\<exists>m u1 x u2. kr_FetchMessage (co_reader c) u = (Inr m, u1) \<and> co_unmarshal c (km_Value m) = Inr x
                \<and> co_handle c x u1 = (Inr (), u2) \<and> kr_CommitMessages (co_reader c) m u2 = (Inl e, t)))))"
proof -
  obtain r t where r: "Run c s = Some (r, t)" using partition_reader.Run_returns [OF assms] by blast
  from Run_result [OF this] obtain u where u: "(consumes c)\<^sup>*\<^sup>* s u" "loopBody c u = (Return r, t)" by blast
  from loopBody_return [OF u(2)] r u(1) show ?thesis by blast
qed

definition sampleBroker :: "string list broker" where
  "sampleBroker = \<lparr>bk_log = [''bad'', ''good''], bk_pos = 0, bk_com = 0, bk_commits = [], bk_errors = [], bk_handler = []\<rparr>"

definition keepGood :: "string \<Rightarrow> (string list, go_error, unit) op" where
  "keepGood v = (\<lambda>hs. if v = ''bad'' then (Inl (ErrorString ''rejected''), hs) else (Inr (), hs @ [v]))"

theorem kafka_run_returns_witness:
  "\<exists>r t. Run (brokerConsumer Inr keepGood) sampleBroker = Some (r, t)"
  using kafka_run_returns [OF bkr.partition_reader_axioms [of Inr keepGood], of sampleBroker] by blast

text \<open>
  Commit after handle.  In one turn the committed offset moves only to the offset after the
  message just fetched, and only if that message was decoded and its handler returned nil.
\<close>

lemma kafka_commit_after_handle:
  assumes "partition_reader c plog pos com" "loopBody c s = (b, s')" "com s' \<noteq> com s"
  shows "com s' = max (com s) (Suc (pos s))
    \<and> (\<exists>x t t'. co_unmarshal c (plog s ! pos s) = Inr x \<and> co_handle c x t = (Inr (), t'))"
  using partition_reader.turn_effect [OF assms(1,2)] assms(3) by blast

lemma sample_turn1: "loopBody (brokerConsumer Inr keepGood) sampleBroker =
    (Again, sampleBroker\<lparr>bk_pos := 1, bk_errors := [(''kafka: failed to handle message'', 0)]\<rparr>)"
  by (simp add: loopBody_def brokerConsumer_def NewConsumer_def brokerReader_def brokerFetch_def sampleBroker_def
      onPart_def keepGood_def)

lemma sample_turn2: "loopBody (brokerConsumer Inr keepGood) (sampleBroker\<lparr>bk_pos := 1, bk_errors := es\<rparr>) =
    (Again, sampleBroker\<lparr>bk_pos := 2, bk_com := 2, bk_errors := es, bk_handler := [''good'']\<rparr>)"
  by (simp add: loopBody_def brokerConsumer_def NewConsumer_def brokerReader_def brokerFetch_def brokerCommit_def
      sampleBroker_def onPart_def keepGood_def)

lemma kafka_commit_after_handle_witness:
  "\<exists>x. (Inr ''good'' :: go_error + string) = Inr x \<and> (\<exists>t t'. co_handle (brokerConsumer Inr keepGood) x t = (Inr (), t'))"
proof -
  have "bk_com (sampleBroker\<lparr>bk_pos := 2, bk_com := 2, bk_errors := [], bk_handler := [''good'']\<rparr>)
      \<noteq> bk_com (sampleBroker\<lparr>bk_pos := 1, bk_errors := []\<rparr>)" by (simp add: sampleBroker_def)
  from kafka_commit_after_handle [OF bkr.partition_reader_axioms sample_turn2 this] show ?thesis
    by (simp add: sampleBroker_def brokerConsumer_def NewConsumer_def)
qed

text \<open>
  C32: a failed message is passed over.  When a turn leaves a message uncommitted (it did not
  decode, or its handler failed) and any later turn of the same run commits, the committed
  offset is beyond the failed message: after a restart it is not delivered again.
\<close>

theorem kafka_failed_message_skipped:
  assumes "partition_reader c plog pos com"
    and "consumes c s s1" "com s1 = com s" "(consumes c)\<^sup>*\<^sup>* s1 t" "consumes c t t'" "com t' \<noteq> com t"
  shows "pos s < com t'"
proof -
  have "Suc (pos s) \<le> pos t"
    using partition_reader.consumes_pos [OF assms(1,2)] partition_reader.consumes_steps [OF assms(1,4)] by simp
  moreover from assms(5) have "loopBody c t = (Again, t')" by (simp add: consumes_iff)
  from partition_reader.turn_effect [OF assms(1) this] assms(6) have "com t' = max (com t) (Suc (pos t))" by blast
  ultimately show ?thesis by simp
qed

theorem kafka_failed_message_skipped_witness:
  "\<exists>t. (consumes (brokerConsumer Inr keepGood))\<^sup>*\<^sup>* sampleBroker t \<and> bk_handler t = [''good''] \<and> 0 < bk_com t"
proof -
  let ?s1 = "sampleBroker\<lparr>bk_pos := 1, bk_errors := [(''kafka: failed to handle message'', 0)]\<rparr>"
  let ?t = "sampleBroker\<lparr>bk_pos := 2, bk_com := 2, bk_errors := [(''kafka: failed to handle message'', 0)], bk_handler := [''good'']\<rparr>"
  have c: "consumes (brokerConsumer Inr keepGood) sampleBroker ?s1" "consumes (brokerConsumer Inr keepGood) ?s1 ?t"
    by (simp_all only: consumes_iff sample_turn1 sample_turn2)
  have "bk_com ?s1 = bk_com sampleBroker" "bk_com ?t \<noteq> bk_com ?s1" by (simp_all add: sampleBroker_def)
  with kafka_failed_message_skipped [OF bkr.partition_reader_axioms c(1) _ rtranclp.rtrancl_refl c(2)]
  have "bk_pos sampleBroker < bk_com ?t" by blast
  then have "0 < bk_com ?t" by (simp add: sampleBroker_def)
  moreover have "(consumes (brokerConsumer Inr keepGood))\<^sup>*\<^sup>* sampleBroker ?t"
    by (rule converse_rtranclp_into_rtranclp, rule c(1), rule r_into_rtranclp, rule c(2))
  moreover have "bk_handler ?t = [''good'']" by simp
  ultimately show ?thesis by blast
qed

text \<open>
  C31: the loop against its reference.  Over every reader of a partition, with commits failing or
  not, the handler is given exactly the messages from the position of the start to that of the
  return, in order and once each, except those that do not decode.  If the fetch fails only on a
  drained log and no commit reports a cancellation, these are all the messages of the log.
\<close>

theorem kafka_run_delivers:
  assumes "handled_partition c plog pos com hst h"
  shows "\<exists>r t. Run c s = Some (r, t)
    \<and> hst t = deliverAll (co_unmarshal c) h (take (pos t - pos s) (drop (pos s) (plog s))) (hst s)
    \<and> ((\<forall>u e u'. plog u = plog s \<longrightarrow> kr_FetchMessage (co_reader c) u = (Inl e, u') \<longrightarrow> length (plog u) \<le> pos u) \<longrightarrow>
       (\<forall>m u e u'. kr_CommitMessages (co_reader c) m u = (Inl e, u') \<longrightarrow> \<not> errorsIs e Canceled) \<longrightarrow>
       hst t = deliverAll (co_unmarshal c) h (drop (pos s) (plog s)) (hst s))"
  using handled_partition.Run_delivers [OF assms, of s] handled_partition.Run_delivers_all [OF assms, of s] by fastforce

text \<open>A run whose only commit fails.\<close>

definition lossyBroker :: "string list broker" where
  "lossyBroker = sampleBroker\<lparr>bk_commits := [Some (ErrorString ''broken pipe'')]\<rparr>"

theorem kafka_run_delivers_witness:
  "\<exists>r t. Run (brokerConsumer Inr keepGood) lossyBroker = Some (r, t)
     \<and> bk_handler t = deliverAll Inr keepGood (take (bk_pos t) [''bad'', ''good'']) []"
  using kafka_run_delivers [OF bkh.handled_partition_axioms [of Inr keepGood], of lossyBroker]
  by (auto simp: lossyBroker_def sampleBroker_def brokerConsumer_def NewConsumer_def)

end
