(* ===== verification/Servers.thy ===== *)
theory Servers
  imports Config Ginx GrpcHandler HttpHandler Kafka
begin

text \<open>
  The servers and their lifecycle: \<open>internal/infra/httpserver\<close>, \<open>internal/infra/grpcserver\<close>,
  \<open>internal/infra/fxutil\<close>, and how \<open>internal/apps/server\<close> mounts routes and interceptors.
  net/http, grpc-go and fx are outside: a server is what the code builds, and a lifecycle is the
  list of hooks appended to it.
\<close>

section \<open>Lifecycle hooks\<close>

record 's hook =
  OnStart :: "('s, go_error, unit) op"
  OnStop :: "('s, go_error, unit) op"

type_synonym 's lifecycle = "'s hook list"

record 's Lifecycled =
  lc_Start :: "('s, go_error, unit) op"
  lc_Stop :: "('s, go_error, unit) op"

definition fxRegister :: "'s lifecycle \<Rightarrow> 's Lifecycled \<Rightarrow> 's lifecycle" where
  "fxRegister lc c = lc @ [\<lparr>OnStart = lc_Start c, OnStop = lc_Stop c\<rparr>]"

definition fxAppend :: "'s lifecycle \<Rightarrow> ('s, go_error, unit) op \<Rightarrow> ('s, go_error, unit) op \<Rightarrow> 's lifecycle" where
  "fxAppend lc onStart onStop = lc @ [\<lparr>OnStart = onStart, OnStop = onStop\<rparr>]"

section \<open>\<open>httpserver\<close>\<close>

text \<open>Routes are method and path; \<open>'h\<close> is what a middleware or handler is.\<close>

type_synonym route = "string \<times> string"

record 'h httpServer =
  hs_middlewares :: "'h list"
  hs_addr :: string
  hs_ReadHeaderTimeout :: duration

definition newHTTPServer :: "string \<Rightarrow> 'h list \<Rightarrow> 'h httpServer" where
  "newHTTPServer addr middlewares = \<lparr>hs_middlewares = middlewares, hs_addr = addr, hs_ReadHeaderTimeout = 10 * Second\<rparr>"

definition ErrServerClosed :: go_error where
  "ErrServerClosed = ErrorString ''http: Server closed''"

text \<open>The state of one running server: whether its goroutine was started, its health, its log.\<close>

datatype ServingStatus = SERVING | NOT_SERVING

record serverState =
  sv_serving :: bool
  sv_listening :: bool
  sv_health :: "string \<rightharpoonup> ServingStatus"
  sv_log :: "string list"

definition svLog :: "string \<Rightarrow> serverState \<Rightarrow> serverState" where
  "svLog msg s = s\<lparr>sv_log := sv_log s @ [msg]\<rparr>"

text \<open>
  \<open>srv\<close> updates the part of the process state that is this server; what it calls of net/http
  (below, of net and grpc-go) may change any of it.
\<close>

definition httpStart :: "((serverState \<Rightarrow> serverState) \<Rightarrow> 's \<Rightarrow> 's) \<Rightarrow> ('s, go_error, unit) op" where
  "httpStart srv = (\<lambda>s. (Inr (), srv (svLog ''http server started'') (srv (\<lambda>x. x\<lparr>sv_serving := True\<rparr>) s)))"

text \<open>What the goroutine does with the result of \<open>ListenAndServe\<close>.\<close>

definition httpServed :: "go_error option \<Rightarrow> serverState \<Rightarrow> serverState" where
  "httpServed err s =
     (case err of
        Some e \<Rightarrow> if \<not> errorsIs e ErrServerClosed then svLog ''http server stopped with error'' s else s
      | None \<Rightarrow> s)"

definition httpStop :: "((serverState \<Rightarrow> serverState) \<Rightarrow> 's \<Rightarrow> 's) \<Rightarrow> ('s, go_error, unit) op \<Rightarrow> ('s, go_error, unit) op" where
  "httpStop srv shutdown = (\<lambda>s. shutdown (srv (svLog ''http server stopping'') s))"

section \<open>\<open>grpcserver\<close>\<close>

record ('i, 'h) grpcConfig =
  gc_unary :: "'i list"
  gc_stats :: "'h list"
  gc_reflection :: bool

type_synonym ('i, 'h) grpcOption = "('i, 'h) grpcConfig \<Rightarrow> ('i, 'h) grpcConfig"

definition WithUnaryInterceptors :: "'i list \<Rightarrow> ('i, 'h) grpcOption" where
  "WithUnaryInterceptors i c = c\<lparr>gc_unary := gc_unary c @ i\<rparr>"

definition WithStatsHandler :: "'h \<Rightarrow> ('i, 'h) grpcOption" where
  "WithStatsHandler h c = c\<lparr>gc_stats := gc_stats c @ [h]\<rparr>"

definition WithReflection :: "('i, 'h) grpcOption" where
  "WithReflection c = c\<lparr>gc_reflection := True\<rparr>"

datatype ('i, 'h) serverOption = ChainUnaryInterceptor "'i list" | StatsHandler 'h

record ('i, 'h) grpcServer =
  gs_opts :: "('i, 'h) serverOption list"
  gs_services :: "string list"
  gs_addr :: string

definition newGRPCServer :: "string \<Rightarrow> ('i, 'h) grpcOption list \<Rightarrow> ('i, 'h) grpcServer" where
  "newGRPCServer addr opts =
     (let c = fold (\<lambda>opt c. opt c) opts \<lparr>gc_unary = [], gc_stats = [], gc_reflection = False\<rparr>;
          serverOpts = (if length (gc_unary c) > 0 then [ChainUnaryInterceptor (gc_unary c)] else []);
          serverOpts = fold (\<lambda>h os. os @ [StatsHandler h]) (gc_stats c) serverOpts
      in \<lparr>gs_opts = serverOpts,
          gs_services = ''grpc.health.v1.Health'' # (if gc_reflection c then [''grpc.reflection''] else []),
          gs_addr = addr\<rparr>)"

definition setServing :: "ServingStatus \<Rightarrow> serverState \<Rightarrow> serverState" where
  "setServing st s = s\<lparr>sv_health := (sv_health s)([] \<mapsto> st)\<rparr>"

text \<open>\<open>listen\<close> is \<open>net.Listen\<close> on the server's address.\<close>

definition grpcStart :: "((serverState \<Rightarrow> serverState) \<Rightarrow> 's \<Rightarrow> 's) \<Rightarrow> ('s, go_error, unit) op \<Rightarrow> ('s, go_error, unit) op" where
  "grpcStart srv listen =
     andThen listen
       (\<lambda>_ s. let s = srv (\<lambda>x. x\<lparr>sv_listening := True\<rparr>) s;
                  s = srv (setServing SERVING) s;
                  s = srv (\<lambda>x. x\<lparr>sv_serving := True\<rparr>) s
              in (Inr (), srv (svLog ''grpc server started'') s))"

definition grpcServed :: "go_error option \<Rightarrow> serverState \<Rightarrow> serverState" where
  "grpcServed err s = (case err of Some e \<Rightarrow> svLog ''grpc server stopped with error'' s | None \<Rightarrow> s)"

definition grpcStop :: "((serverState \<Rightarrow> serverState) \<Rightarrow> 's \<Rightarrow> 's) \<Rightarrow> ('s \<Rightarrow> 's) \<Rightarrow> ('s, go_error, unit) op" where
  "grpcStop srv gracefulStop =
     (\<lambda>s. (Inr (), gracefulStop (srv (setServing NOT_SERVING) (srv (svLog ''grpc server stopping'') s))))"

section \<open>Routes (\<open>ginx/ops.go\<close>)\<close>

definition RegisterHealth :: "route list \<Rightarrow> route list" where
  "RegisterHealth r = r @ [(''GET'', ''/liveness''), (''GET'', ''/health''), (''GET'', ''/readiness'')]"

definition RegisterMetrics :: "route list \<Rightarrow> route list" where
  "RegisterMetrics r = r @ [(''GET'', ''/metrics'')]"

definition RegisterPprof :: "route list \<Rightarrow> route list" where
  "RegisterPprof r =
     (let g = ''/debug/pprof''
      in r @ [(''GET'', g @ ''/''), (''GET'', g @ ''/cmdline''), (''GET'', g @ ''/profile''), (''GET'', g @ ''/symbol''),
              (''POST'', g @ ''/symbol''), (''GET'', g @ ''/trace''), (''GET'', g @ ''/:profile'')])"

definition RegisterSwagger :: "route list \<Rightarrow> route list" where
  "RegisterSwagger r = r @ [(''GET'', ''/swagger/*any'')]"

section \<open>The API process (\<open>apps/server\<close>)\<close>

datatype middleware = MRecovery | MCorrelation | MTracing string | MLogger | MMetrics | MError

record apiServer =
  ap_server :: "middleware httpServer"
  ap_routes :: "route list"

definition registerHTTP ::
    "Config \<Rightarrow> (string \<Rightarrow> go_error + httpCreateRequest) \<Rightarrow> (string \<Rightarrow> go_error + httpUpdateRequest)
       \<Rightarrow> 's AccountUseCase \<Rightarrow> apiServer" where
  "registerHTTP cfg bindCreate bindUpdate uc =
     (let api = newHTTPServer (ac_HTTPAddr (cf_App cfg))
            [MRecovery, MCorrelation, MTracing (tc_ServiceName (cf_Telemetry cfg)), MLogger, MMetrics, MError];
          engine = RegisterMetrics (RegisterHealth []);
          engine = (if ac_PprofEnabled (cf_App cfg) then RegisterPprof engine else engine);
          engine = (if ac_SwaggerEnabled (cf_App cfg) then RegisterSwagger engine else engine)
      in \<lparr>ap_server = api, ap_routes = engine @ map fst (RegisterRoutes ''/api/v1'' bindCreate bindUpdate uc)\<rparr>)"

text \<open>What a middleware does; \<open>uid\<close>, \<open>dur\<close> and \<open>tracing\<close> as in the middleware definitions.\<close>

fun applyMiddleware ::
    "string \<Rightarrow> duration \<Rightarrow> (string \<Rightarrow> ('s, 'b) handler \<Rightarrow> ('s, 'b) handler) \<Rightarrow> middleware \<Rightarrow> ('s, 'b) handler \<Rightarrow> ('s, 'b) handler" where
  "applyMiddleware uid dur tracing MRecovery = Recovery"
| "applyMiddleware uid dur tracing MCorrelation = CorrelationMiddleware uid"
| "applyMiddleware uid dur tracing (MTracing name) = tracing name"
| "applyMiddleware uid dur tracing MLogger = LoggerMiddleware"
| "applyMiddleware uid dur tracing MMetrics = MetricsMiddleware dur"
| "applyMiddleware uid dur tracing MError = ErrorMiddleware"

text \<open>\<open>grpcx.NewErrorInterceptor()\<close>, the validation interceptor, and the otelgrpc handler.\<close>

datatype interceptor = IError | IValidation
datatype statsHandler = OtelStats

text \<open>\<open>validatorOK\<close> is \<open>protovalidate.New()\<close>.  The result: the server and the address of its health port.\<close>

definition registerGRPC :: "go_error option \<Rightarrow> Config \<Rightarrow> go_error + (interceptor, statsHandler) grpcServer \<times> string \<times> route list" where
  "registerGRPC validatorErr cfg =
     (case validatorErr of
        Some err \<Rightarrow> Inl err
      | None \<Rightarrow>
          (let srv = newGRPCServer (ac_GRPCAddr (cf_App cfg))
                 [WithReflection, WithStatsHandler OtelStats, WithUnaryInterceptors [IError, IValidation]];
               srv = srv\<lparr>gs_services := gs_services srv @ [''account.v1.AccountService'']\<rparr>
           in Inr (srv, ac_GRPCHealthAddr (cf_App cfg), RegisterMetrics (RegisterHealth []))))"

fun applyInterceptor ::
    "(go_error \<Rightarrow> bool) \<Rightarrow> ('req \<Rightarrow> go_error option) \<Rightarrow> (go_error \<Rightarrow> string) \<Rightarrow> interceptor
       \<Rightarrow> ('req, 's, 'resp) unary \<Rightarrow> ('req, 's, 'resp) unary" where
  "applyInterceptor isStatus validate rend IError = ErrorInterceptor isStatus"
| "applyInterceptor isStatus validate rend IValidation = ValidationInterceptor validate rend"

section \<open>Lemmas\<close>

lemma fold_snoc [simp]: "fold (\<lambda>h os. os @ [f h]) hs os = os @ map f hs"
  by (induction hs arbitrary: os) simp_all

text \<open>The middleware list, applied outermost first, is the chain the handlers are verified under.\<close>

lemma registered_chain:
  "foldr (applyMiddleware uid dur tracing) (hs_middlewares (ap_server (registerHTTP cfg b1 b2 uc))) h
     = httpChain uid dur (tracing (tc_ServiceName (cf_Telemetry cfg))) h"
  by (simp add: registerHTTP_def newHTTPServer_def Let_def httpChain_def)

lemma registered_interceptors:
  assumes "registerGRPC None cfg = Inr (srv, addr, probes)"
  shows "gs_opts srv = [ChainUnaryInterceptor [IError, IValidation], StatsHandler OtelStats]"
    and "foldr (applyInterceptor isStatus validate rend) [IError, IValidation] h
      = ErrorInterceptor isStatus (ValidationInterceptor validate rend h)"
  using assms by (auto simp: registerGRPC_def newGRPCServer_def WithReflection_def WithStatsHandler_def
      WithUnaryInterceptors_def Let_def)

section \<open>Properties\<close>

text \<open>
  The routes of the API server.  Exactly the account routes are logged and measured: each
  other route is one \<open>isOps\<close> excludes.  No route is mounted twice; the profiler and the API
  browser are reachable only when their configuration flag is set; and the middleware stack is
  the one the handlers' properties speak of.
\<close>

lemma api_routes_observed:
  assumes "api = registerHTTP cfg bindCreate bindUpdate uc"
  shows "(\<forall>r \<in> set (ap_routes api). isOps (snd r) \<longleftrightarrow> take 16 (snd r) \<noteq> ''/api/v1/accounts'')
    \<and> distinct (ap_routes api)
    \<and> ((\<exists>r \<in> set (ap_routes api). take 7 (snd r) = ''/debug/'') \<longleftrightarrow> ac_PprofEnabled (cf_App cfg))
    \<and> ((\<exists>r \<in> set (ap_routes api). take 9 (snd r) = ''/swagger/'') \<longleftrightarrow> ac_SwaggerEnabled (cf_App cfg))
    \<and> foldr (applyMiddleware uid dur tracing) (hs_middlewares (ap_server api)) h
        = httpChain uid dur (tracing (tc_ServiceName (cf_Telemetry cfg))) h"
proof -
  let ?ops = "[(''GET'', ''/liveness''), (''GET'', ''/health''), (''GET'', ''/readiness''), (''GET'', ''/metrics'')]"
  let ?api = "[(''POST'', ''/api/v1/accounts''), (''GET'', ''/api/v1/accounts/:id''), (''GET'', ''/api/v1/accounts''),
     (''PATCH'', ''/api/v1/accounts/:id''), (''DELETE'', ''/api/v1/accounts/:id'')]"
  have "map fst (RegisterRoutes ''/api/v1'' bindCreate bindUpdate uc) = ?api"
    by (simp add: RegisterRoutes_def Let_def)
  then have r: "ap_routes api = (?ops @ (if ac_PprofEnabled (cf_App cfg) then RegisterPprof [] else []))
      @ (if ac_SwaggerEnabled (cf_App cfg) then RegisterSwagger [] else []) @ ?api"
    by (simp add: assms registerHTTP_def Let_def RegisterHealth_def RegisterMetrics_def RegisterPprof_def RegisterSwagger_def)
  have "\<forall>r \<in> set (ap_routes api). isOps (snd r) \<longleftrightarrow> take 16 (snd r) \<noteq> ''/api/v1/accounts''"
    unfolding r
    by (cases "ac_PprofEnabled (cf_App cfg)"; cases "ac_SwaggerEnabled (cf_App cfg)")
      (simp_all add: RegisterPprof_def RegisterSwagger_def isOps_def opsPaths_def Let_def)
  moreover have "distinct (ap_routes api)"
    unfolding r
    by (cases "ac_PprofEnabled (cf_App cfg)"; cases "ac_SwaggerEnabled (cf_App cfg)")
      (simp_all add: RegisterPprof_def RegisterSwagger_def Let_def)
  moreover have "(\<exists>r \<in> set (ap_routes api). take 7 (snd r) = ''/debug/'') \<longleftrightarrow> ac_PprofEnabled (cf_App cfg)"
    unfolding r
    by (cases "ac_PprofEnabled (cf_App cfg)"; cases "ac_SwaggerEnabled (cf_App cfg)")
      (simp_all add: RegisterPprof_def RegisterSwagger_def Let_def)
  moreover have "(\<exists>r \<in> set (ap_routes api). take 9 (snd r) = ''/swagger/'') \<longleftrightarrow> ac_SwaggerEnabled (cf_App cfg)"
    unfolding r
    by (cases "ac_PprofEnabled (cf_App cfg)"; cases "ac_SwaggerEnabled (cf_App cfg)")
      (simp_all add: RegisterPprof_def RegisterSwagger_def Let_def)
  ultimately show ?thesis by (simp add: assms registered_chain)
qed

definition quietConfig :: Config where
  "quietConfig = defaultConfig\<lparr>cf_App := (cf_App defaultConfig)\<lparr>ac_PprofEnabled := False\<rparr>\<rparr>"

lemma api_routes_observed_witness:
  "\<not> (\<exists>r \<in> set (ap_routes (registerHTTP quietConfig (\<lambda>_. Inr sampleBody) (\<lambda>_. Inl Canceled)
        (accountUseCase asciiOnly plainUC 7 ''u1''))). take 7 (snd r) = ''/debug/'')"
proof -
  have "\<not> ac_PprofEnabled (cf_App quietConfig)" by (simp add: quietConfig_def)
  with api_routes_observed [OF refl, of quietConfig "\<lambda>_. Inr sampleBody" "\<lambda>_. Inl Canceled"
      "accountUseCase asciiOnly plainUC 7 ''u1''"] show ?thesis by blast
qed

text \<open>
  The gRPC server.  If the validator can be built, the server runs exactly the error
  interceptor around the validation interceptor around the handler, with tracing outside, and
  serves the account service, health and reflection; if not, nothing is registered and the
  boot fails.  Interceptor options accumulate: chaining more of them never drops one.
\<close>

lemma grpc_server_chain:
  "(case registerGRPC verr cfg of
      Inl e \<Rightarrow> verr = Some e
    | Inr (srv, health, probes) \<Rightarrow> verr = None
        \<and> gs_opts srv = [ChainUnaryInterceptor [IError, IValidation], StatsHandler OtelStats]
        \<and> foldr (applyInterceptor isStatus validate rend) [IError, IValidation] h
            = ErrorInterceptor isStatus (ValidationInterceptor validate rend h)
        \<and> set (gs_services srv) = {''grpc.health.v1.Health'', ''grpc.reflection'', ''account.v1.AccountService''}
        \<and> (\<forall>r \<in> set probes. isOps (snd r)))
   \<and> gs_opts (newGRPCServer addr [WithUnaryInterceptors ics, WithUnaryInterceptors jcs])
       = (if ics @ jcs = [] then [] else [ChainUnaryInterceptor (ics @ jcs)])"
  by (auto simp: registerGRPC_def newGRPCServer_def WithReflection_def WithStatsHandler_def WithUnaryInterceptors_def
      Let_def RegisterHealth_def RegisterMetrics_def isOps_def opsPaths_def split: option.split)

lemma grpc_server_chain_witness:
  "registerGRPC (Some Canceled) defaultConfig = Inl Canceled
   \<and> gs_opts (newGRPCServer '':9090'' [WithUnaryInterceptors [IError], WithUnaryInterceptors [IValidation]]
        :: (interceptor, statsHandler) grpcServer) = [ChainUnaryInterceptor [IError, IValidation]]"
  using grpc_server_chain [where verr = "Some Canceled" and cfg = defaultConfig and isStatus = sampleIsStatus
      and validate = "\<lambda>_ :: unit. None" and rend = "\<lambda>_. []" and h = "\<lambda>_ s. (Inr (), s :: unit)"
      and addr = "'':9090''" and ics = "[IError]" and jcs = "[IValidation]"]
  by (auto simp: registerGRPC_def)

end
