(* ===== verification/ReadThrough.thy ===== *)
theory ReadThrough
  imports CacheEffects
begin

text \<open>
  What the use case reads when a cache may stand in front of the repository.  \<open>held s i\<close> is what
  the cache would return for the account with id \<open>i\<close>.  A read by id returns the durable account
  or what is held; a held value was held before, or is the durable account of the moment it was
  loaded.  The contract is interpreted on the wiring of the composition root and, with nothing
  held, on the uncached one.
\<close>

section \<open>The contract\<close>

locale read_through = use_case uc view enc encp
  for uc :: "'s AccountDeps" and view enc encp +
  fixes held :: "'s \<Rightarrow> string \<rightharpoonup> account ptr"
  assumes get_value: "repo_GetByID (dp_repo uc) i s = (Inr p, s') \<Longrightarrow>
        (\<exists>a. p = Some a \<and> view s i = Some a) \<or> held s i = Some p"
    and get_absent: "repo_GetByID (dp_repo uc) i s = (Inl e, s') \<Longrightarrow>
        errorsIs e (App ErrAccountNotFound) \<Longrightarrow> view s i = None"
    and get_holds: "repo_GetByID (dp_repo uc) j s = (r, s') \<Longrightarrow> held s' i = Some p \<Longrightarrow>
        held s i = Some p \<or> (j = i \<and> p \<noteq> None \<and> view s i = p)"
    and list_value: "repo_List (dp_repo uc) f s = (Inr (as, n), s') \<Longrightarrow>
        set as \<subseteq> ran (view s) \<and> (\<forall>a \<in> set as. \<forall>st. lf_Status f = Some st \<longrightarrow> scast (Status a) = (scast st :: goint32))"
    and email_holds: "repo_GetByEmail (dp_repo uc) m s = (r, s') \<Longrightarrow> held s' \<subseteq>\<^sub>m held s"
    and list_holds: "repo_List (dp_repo uc) f s = (l, s') \<Longrightarrow> held s' \<subseteq>\<^sub>m held s"
    and create_holds: "repo_Create (dp_repo uc) a s = (c, s') \<Longrightarrow> held s' \<subseteq>\<^sub>m held s"
    and update_holds: "repo_Update (dp_repo uc) p' s = (u, s') \<Longrightarrow> held s' \<subseteq>\<^sub>m held s"
    and delete_holds: "repo_Delete (dp_repo uc) i s = (d, s') \<Longrightarrow> held s' \<subseteq>\<^sub>m held s"
    and limiter_holds: "dp_limiter uc lr s = (v, s') \<Longrightarrow> held s' \<subseteq>\<^sub>m held s"
    and log_holds: "held (dp_log uc msg i s) \<subseteq>\<^sub>m held s"
    and tx_holds: "dp_tx uc body s = (Inr q, s') \<Longrightarrow>
        \<exists>s0 s1. view s0 = view s \<and> held s0 \<subseteq>\<^sub>m held s \<and> body s0 = (Inr q, s1) \<and> held s' \<subseteq>\<^sub>m held s1"
    and failed_tx_holds: "dp_tx uc body s = (Inl e, s') \<Longrightarrow> held s' \<subseteq>\<^sub>m held s
        \<or> (\<exists>s0 x s1. view s0 = view s \<and> held s0 \<subseteq>\<^sub>m held s \<and> body s0 = (x, s1) \<and> held s' \<subseteq>\<^sub>m held s1)"
begin

text \<open>What a transaction leaves in the cache, however it ends.\<close>

lemma tx_cases:
  assumes "dp_tx uc body s = (x, s')"
  obtains (shrunk) "held s' \<subseteq>\<^sub>m held s"
    | (ran) s0 y s1 where "view s0 = view s" "held s0 \<subseteq>\<^sub>m held s" "body s0 = (y, s1)" "held s' \<subseteq>\<^sub>m held s1"
proof (cases x)
  case (Inl e)
  from failed_tx_holds [OF assms [unfolded Inl]] shrunk ran show thesis by blast
next
  case (Inr q)
  from tx_holds [OF assms [unfolded Inr]] ran show thesis by blast
qed

lemma createBody_holds: "createBody uc a s = (x, s') \<Longrightarrow> held s' \<subseteq>\<^sub>m held s"
proof -
  assume "createBody uc a s = (x, s')"
  then have "(\<exists>y. repo_GetByEmail (dp_repo uc) (Email a) s = (y, s'))
    \<or> (\<exists>y z s1. repo_GetByEmail (dp_repo uc) (Email a) s = (y, s1) \<and> repo_Create (dp_repo uc) a s1 = (z, s'))"
    by (fastforce simp: createBody_def ensureEmailFree_def andThen_def split: prod.splits sum.splits if_splits)
  then show ?thesis by (auto dest: email_holds create_holds intro: map_le_trans)
qed

lemma ucCreate_holds: "ucCreate uni uc now uid req s = (x, s') \<Longrightarrow> held s' \<subseteq>\<^sub>m held s"
proof -
  let ?lr = "\<lparr>lq_Action = RateLimitActionCreateAccount, lq_Key = ToLower uni (cr_Email req)\<rparr>"
  assume "ucCreate uni uc now uid req s = (x, s')"
  then have "\<exists>v s1. dp_limiter uc ?lr s = (v, s1) \<and> (s' = s1 \<or> (\<exists>a y s2. dp_tx uc (createBody uc a) s1 = (y, s2)
      \<and> (s' = s2 \<or> (\<exists>msg i. s' = dp_log uc msg i s2))))"
    by (auto simp: ucCreate_def logInfo_def andThen_def mapErr_def split: prod.splits sum.splits if_splits) metis+
  then obtain v s1 where lim: "dp_limiter uc ?lr s = (v, s1)" and
    rest: "s' = s1 \<or> (\<exists>a y s2. dp_tx uc (createBody uc a) s1 = (y, s2) \<and> (s' = s2 \<or> (\<exists>msg i. s' = dp_log uc msg i s2)))"
    by blast
  have "held s2 \<subseteq>\<^sub>m held s1" if "dp_tx uc (createBody uc a) s1 = (y, s2)" for a y s2
    using that by (cases rule: tx_cases) (auto dest: createBody_holds intro: map_le_trans)
  with limiter_holds [OF lim] rest log_holds show ?thesis by (metis map_le_trans)
qed

lemma ucDelete_holds: "ucDelete uc i s = (x, s') \<Longrightarrow> held s' \<subseteq>\<^sub>m held s"
proof -
  assume "ucDelete uc i s = (x, s')"
  then have "s' = s \<or> (\<exists>y s2. dp_tx uc (deleteBody uc i) s = (y, s2) \<and> (s' = s2 \<or> (\<exists>msg i. s' = dp_log uc msg i s2)))"
    by (auto simp: ucDelete_def logInfo_def andThen_def split: prod.splits sum.splits if_splits)
  moreover have "held s2 \<subseteq>\<^sub>m held s" if "dp_tx uc (deleteBody uc i) s = (y, s2)" for y s2
    using that by (cases rule: tx_cases)
      (auto simp: deleteBody_def andThen_def dest: delete_holds intro: map_le_trans split: prod.splits sum.splits)
  ultimately show ?thesis using log_holds by (metis map_le_refl map_le_trans)
qed

text \<open>Update holds at most what was held, or what its read-back loaded of the account it updates.\<close>

lemma ucUpdate_holds:
  assumes "ucUpdate uc now req s = (x, s')" "held s' i = Some p" "i \<noteq> ur_ID req"
  shows "held s i = Some p"
proof -
  consider "s' = s" | y where "dp_tx uc (updateBody uc now req) s = (y, s')"
    using assms(1) by (auto simp: ucUpdate_def andThen_ret_right split: if_splits)
  then show ?thesis
  proof cases
    case 2
    from 2 show ?thesis
    proof (cases rule: tx_cases)
      case (ran s0 y s1)
      then obtain y1 s2 where u: "repo_Update (dp_repo uc) (updateParams now req) s0 = (y1, s2)"
        and g: "s1 = s2 \<or> (\<exists>z. repo_GetByID (dp_repo uc) (ur_ID req) s2 = (z, s1))"
        by (auto simp: updateBody_def andThen_def split: prod.splits sum.splits)
      have "held s1 i = Some p" using ran(4) assms(2) by (rule map_le_SomeD)
      with g assms(3) have "held s2 i = Some p" by (auto dest: get_holds)
      with update_holds [OF u] ran(2) show ?thesis by (auto dest: map_le_SomeD)
    qed (use assms(2) in \<open>auto dest: map_le_SomeD\<close>)
  qed (use assms(2) in simp)
qed

text \<open>The account Update returns is the stored one, or one the cache held before.\<close>

lemma ucUpdate_value:
  assumes "ucUpdate uc now req s = (Inr p, s')"
  shows "(\<exists>a. view s (ur_ID req) = Some a \<and> p = Some (patch (encp (updateParams now req)) a))
    \<or> held s (ur_ID req) = Some p"
proof -
  from assms have tx: "dp_tx uc (updateBody uc now req) s = (Inr p, s')"
    by (auto simp: ucUpdate_def andThen_ret_right split: if_splits)
  from tx_holds [OF tx] obtain t0 t1 where v: "view t0 = view s" and h: "held t0 \<subseteq>\<^sub>m held s"
    and body: "updateBody uc now req t0 = (Inr p, t1)" by blast
  from body obtain t2 u where u: "repo_Update (dp_repo uc) (updateParams now req) t0 = (Inr u, t2)"
    and g: "repo_GetByID (dp_repo uc) (ur_ID req) t2 = (Inr p, t1)"
    by (auto simp: updateBody_def elim!: andThen_InrE)
  from get_value [OF g] show ?thesis
  proof
    assume "held t2 (ur_ID req) = Some p"
    with update_holds [OF u] h show ?thesis by (auto dest: map_le_SomeD)
  qed (use update_ok [OF u] v in \<open>auto simp: updateParams_def\<close>)
qed

lemma ucGet_value:
  assumes "ucGet uc i s = (Inr p, s')"
  shows "(\<exists>a. p = Some a \<and> view s i = Some a) \<or> held s i = Some p"
  using assms get_value by (auto simp: ucGet_def split: if_splits)

lemma ucGet_absent: "ucGet uc i s = (Inl e, s') \<Longrightarrow> errorsIs e (App ErrAccountNotFound) \<Longrightarrow> view s i = None"
  by (auto simp: ucGet_def idRequired_def errorsIs_App dest: get_absent split: if_splits)

lemma ucGet_holds:
  "ucGet uc j s = (r, s') \<Longrightarrow> held s' i = Some p \<Longrightarrow> held s i = Some p \<or> (j = i \<and> p \<noteq> None \<and> view s i = p)"
  by (auto simp: ucGet_def dest: get_holds split: if_splits)

lemma ucList_holds: "ucList uc f s = (l, s') \<Longrightarrow> held s' \<subseteq>\<^sub>m held s"
  by (simp add: ucList_def list_holds)

end

section \<open>The wiring of the composition root\<close>

definition idHeld :: "'d world \<Rightarrow> string \<rightharpoonup> account ptr" where
  "idHeld s i = live (w_cache s) (AccountCacheKeyByID i)"

lemma idHeld_le: "live (w_cache s') \<subseteq>\<^sub>m live (w_cache s) \<Longrightarrow> idHeld s' \<subseteq>\<^sub>m idHeld s"
  by (auto simp: map_le_def idHeld_def dom_def)

lemma idHeld_same: "w_cache s' = w_cache s \<Longrightarrow> idHeld s' = idHeld s"
  by (simp add: fun_eq_iff idHeld_def)

lemma worldTx_runs:
  assumes "worldTx body s = (x, s')"
  shows "\<exists>y s1. body s = (y, s1) \<and> w_cache s' = w_cache s1 \<and> (\<forall>q. x = Inr q \<longrightarrow> y = Inr q)"
  using assms by (auto simp: worldTx_def split: prod.splits sum.splits list.splits option.splits)

lemma worldSet_err: "lc_Set worldCache k v t s = (Inl e, s') \<Longrightarrow> noApp e"
  by (auto simp: memCache_def onPart_def memSet_def split: if_splits prod.splits)

context coherent_backend
begin

lemma cachedGetByID_value:
  assumes "cachedGetByID d i s = (Inr p, s')"
  shows "(\<exists>a. p = Some a \<and> view s i = Some a) \<or> entries s (AccountCacheKeyByID i) = Some p"
  using assms [unfolded cachedGetByID_def cache_is inner_is cacheManager_simps]
proof (cases rule: GetOnce_ok)
  case (load s1 s2)
  with get_ok [OF load(3)] show ?thesis by simp
qed simp

lemma cachedGetByID_absent:
  assumes "cachedGetByID d i s = (Inl e, s')" "errorsIs e (App ErrAccountNotFound)"
    and "\<And>k v t u e' u'. lc_Set lc k v t u = (Inl e', u') \<Longrightarrow> noApp e'"
  shows "view s i = None"
proof -
  obtain x s1 where g: "lc_Get lc (AccountCacheKeyByID i) s = (x, s1)" by fastforce
  have v: "view s1 = view s" using rest_keeps(1) g by (rule keepsD)
  from assms(1) g consider "repo_GetByID inner i s1 = (Inl e, s')"
    | w s2 where "lc_Set lc (AccountCacheKeyByID i) w (cd_ttl d) s2 = (Inl e, s')"
    by (cases x) (auto simp: cachedGetByID_def cache_is inner_is GetOnce_def elim!: andThen_InlE)
  then show ?thesis
  proof cases
    case 1
    from get_notfound [OF 1 assms(2)] v show ?thesis by simp
  next
    case 2
    from assms(3) [OF 2] assms(2) show ?thesis by simp
  qed
qed

lemma cachedGetByID_holds:
  assumes "cachedGetByID d j s = (r, s')" "entries s' (AccountCacheKeyByID i) = Some p"
  shows "entries s (AccountCacheKeyByID i) = Some p \<or> (j = i \<and> p \<noteq> None \<and> view s i = p)"
proof (cases r)
  case (Inl e)
  from assms(1) [unfolded Inl cachedGetByID_def cache_is inner_is cacheManager_simps] show ?thesis
  proof (cases rule: GetOnce_err)
    case (loader s1)
    with keepsD [OF inner_entries(2) loader(3)] assms(2) show ?thesis by (auto dest: map_le_SomeD)
  next
    case (store s1 s2 v)
    from store(5) [OF assms(2)] keepsD [OF inner_entries(2) store(3)] store(1,2) get_ok [OF store(3)]
    show ?thesis by (auto dest: map_le_SomeD)
  qed
next
  case (Inr v)
  from assms(1) [unfolded Inr cachedGetByID_def cache_is inner_is cacheManager_simps] show ?thesis
  proof (cases rule: GetOnce_ok)
    case hit
    with assms(2) show ?thesis by (auto dest: map_le_SomeD)
  next
    case (load s1 s2)
    from load(5) [OF assms(2)] keepsD [OF inner_entries(2) load(3)] load(1,2) get_ok [OF load(3)]
    show ?thesis by (auto dest: map_le_SomeD)
  qed
qed

text \<open>No other operation adds an entry under an id key.\<close>

lemma cachedGetByEmail_holds:
  assumes "cachedGetByEmail uni d m s = (r, s')" "entries s' (AccountCacheKeyByID i) = Some p"
  shows "entries s (AccountCacheKeyByID i) = Some p"
proof (cases r)
  case (Inl e)
  from assms(1) [unfolded Inl cachedGetByEmail_def cache_is inner_is cacheManager_simps] show ?thesis
  proof (cases rule: GetOnce_err)
    case (loader s1)
    with keepsD [OF inner_entries(3) loader(3)] assms(2) show ?thesis by (auto dest: map_le_SomeD)
  next
    case (store s1 s2 v)
    from store(5) [OF assms(2)] keepsD [OF inner_entries(3) store(3)] store(1)
    show ?thesis by (auto dest: map_le_SomeD)
  qed
next
  case (Inr v)
  from assms(1) [unfolded Inr cachedGetByEmail_def cache_is inner_is cacheManager_simps] show ?thesis
  proof (cases rule: GetOnce_ok)
    case hit
    with assms(2) show ?thesis by (auto dest: map_le_SomeD)
  next
    case (load s1 s2)
    from load(5) [OF assms(2)] keepsD [OF inner_entries(3) load(3)] load(1)
    show ?thesis by (auto dest: map_le_SomeD)
  qed
qed

lemma invalidate_entries: "invalidate d k s = (r, s') \<Longrightarrow> entries s' \<subseteq>\<^sub>m entries s"
  by (auto dest: invalidate_spec)

lemma cachedUpdate_entries:
  assumes "cachedUpdate d p s = (r, s')" shows "entries s' \<subseteq>\<^sub>m entries s"
proof -
  from assms obtain x s1 where u: "repo_Update inner p s = (x, s1)"
    and i: "s' = s1 \<or> (\<exists>y. invalidate d (AccountCacheKeyByID (up_ID p)) s1 = (y, s'))"
    by (auto simp: cachedUpdate_def inner_is andThen_def split: prod.splits sum.splits)
  from i keepsD [OF inner_entries(4) u] show ?thesis by (auto dest: invalidate_entries)
qed

lemma cachedDelete_entries:
  assumes "cachedDelete d i s = (r, s')" shows "entries s' \<subseteq>\<^sub>m entries s"
proof -
  from assms obtain x s1 where u: "repo_Delete inner i s = (x, s1)"
    and i: "s' = s1 \<or> (\<exists>y. invalidate d (AccountCacheKeyByID i) s1 = (y, s'))"
    by (auto simp: cachedDelete_def inner_is andThen_def split: prod.splits sum.splits)
  from i keepsD [OF inner_entries(5) u] show ?thesis by (auto dest: invalidate_entries)
qed

end

lemma world_read_through:
  assumes "account_repository r view enc encp"
    and "use_case (worldUC (worldRepo uni r ttl)) (view \<circ> w_db) enc encp"
  shows "read_through (worldUC (worldRepo uni r ttl)) (view \<circ> w_db) enc encp idHeld"
proof -
  note cb = world_coherent_backend [OF assms(1), where ttl = ttl]
  note cached = coherent_backend.cachedGetByID_value [OF cb] coherent_backend.cachedGetByID_holds [OF cb]
    coherent_backend.cachedGetByEmail_holds [OF cb, where uni = uni]
  have lim: "held_lr" if "held_lr \<equiv> (worldLimiter lr s = (v, s') \<longrightarrow> idHeld s' = idHeld s)" for held_lr lr v and s s' :: "'a world"
    unfolding that by (auto intro!: idHeld_same dest: keepsD [OF worldLimiter_keeps(2)])
  have inner: "cd_inner (worldDeps r ttl) = liftRepo r" by (simp add: worldDeps_def)
  have keep: "idHeld s' \<subseteq>\<^sub>m idHeld s" if "w_cache s' = w_cache s" for s s' :: "'a world"
    using idHeld_same [OF that] by simp
  show ?thesis
  proof (intro read_through.intro assms(2) read_through_axioms.intro)
    fix i s p s' assume "repo_GetByID (dp_repo (worldUC (worldRepo uni r ttl))) i s = (Inr p, s')"
    then have "cachedGetByID (worldDeps r ttl) i s = (Inr p, s')" by (simp add: worldRepo_def)
    from cached(1) [OF this] show "(\<exists>a. p = Some a \<and> (view \<circ> w_db) s i = Some a) \<or> idHeld s i = Some p"
      by (simp add: idHeld_def)
  next
    fix i s e s' assume "repo_GetByID (dp_repo (worldUC (worldRepo uni r ttl))) i s = (Inl e, s')"
      and e: "errorsIs e (App ErrAccountNotFound)"
    then have "cachedGetByID (worldDeps r ttl) i s = (Inl e, s')" by (simp add: worldRepo_def)
    from coherent_backend.cachedGetByID_absent [OF cb this e worldSet_err]
    show "(view \<circ> w_db) s i = None" .
  next
    fix j s x s' i p assume "repo_GetByID (dp_repo (worldUC (worldRepo uni r ttl))) j s = (x, s')" "idHeld s' i = Some p"
    then have "cachedGetByID (worldDeps r ttl) j s = (x, s')" "(live \<circ> w_cache) s' (AccountCacheKeyByID i) = Some p"
      by (simp_all add: worldRepo_def idHeld_def)
    from cached(2) [OF this] show "idHeld s i = Some p \<or> (j = i \<and> p \<noteq> None \<and> (view \<circ> w_db) s i = p)"
      by (simp add: idHeld_def)
  next
    fix f s as n s' assume "repo_List (dp_repo (worldUC (worldRepo uni r ttl))) f s = (Inr (as, n), s')"
    then have "repo_List (liftRepo r) f s = (Inr (as, n), s')" by (simp add: worldRepo_def cachedList_def inner)
    from account_repository.list_sound [OF account_repository.lifted [OF assms(1)] this]
    show "set as \<subseteq> ran ((view \<circ> w_db) s) \<and> (\<forall>a \<in> set as. \<forall>st. lf_Status f = Some st \<longrightarrow> scast (Status a) = (scast st :: goint32))" .
  next
    fix m s x s' assume "repo_GetByEmail (dp_repo (worldUC (worldRepo uni r ttl))) m s = (x, s')"
    then have "cachedGetByEmail uni (worldDeps r ttl) m s = (x, s')" by (simp add: worldRepo_def)
    from cached(3) [OF this] show "idHeld s' \<subseteq>\<^sub>m idHeld s" by (auto simp: map_le_def idHeld_def dom_def)
  next
    fix f s l s' assume "repo_List (dp_repo (worldUC (worldRepo uni r ttl))) f s = (l, s')"
    then have "repo_List (liftRepo r) f s = (l, s')" by (simp add: worldRepo_def cachedList_def inner)
    from keepsD [OF account_repository.lifted_keeps_cache(6) [OF assms(1)] this] show "idHeld s' \<subseteq>\<^sub>m idHeld s" by (rule keep)
  next
    fix a s c s' assume "repo_Create (dp_repo (worldUC (worldRepo uni r ttl))) a s = (c, s')"
    then have "repo_Create (liftRepo r) a s = (c, s')" by (simp add: worldRepo_def cachedCreate_def inner)
    from keepsD [OF account_repository.lifted_keeps_cache(1) [OF assms(1)] this] show "idHeld s' \<subseteq>\<^sub>m idHeld s" by (rule keep)
  next
    fix p s u s' assume "repo_Update (dp_repo (worldUC (worldRepo uni r ttl))) p s = (u, s')"
    then have "cachedUpdate (worldDeps r ttl) p s = (u, s')" by (simp add: worldRepo_def)
    from coherent_backend.cachedUpdate_entries [OF cb this] show "idHeld s' \<subseteq>\<^sub>m idHeld s" by (intro idHeld_le) simp
  next
    fix i s u s' assume "repo_Delete (dp_repo (worldUC (worldRepo uni r ttl))) i s = (u, s')"
    then have "cachedDelete (worldDeps r ttl) i s = (u, s')" by (simp add: worldRepo_def)
    from coherent_backend.cachedDelete_entries [OF cb this] show "idHeld s' \<subseteq>\<^sub>m idHeld s" by (intro idHeld_le) simp
  next
    fix lr s v s' assume "dp_limiter (worldUC (worldRepo uni r ttl)) lr s = (v, s')"
    then have "worldLimiter lr s = (v, s')" by simp
    from keepsD [OF worldLimiter_keeps(2) this] show "idHeld s' \<subseteq>\<^sub>m idHeld s" by (rule keep)
  next
    fix body s q s' assume "dp_tx (worldUC (worldRepo uni r ttl)) body s = (Inr q, s')"
    then have tx: "worldTx body s = (Inr q, s')" by simp
    from worldTx_runs [OF this] obtain s1 where "body s = (Inr q, s1)" "w_cache s' = w_cache s1" by auto
    then show "\<exists>s0 s1. (view \<circ> w_db) s0 = (view \<circ> w_db) s \<and> idHeld s0 \<subseteq>\<^sub>m idHeld s \<and> body s0 = (Inr q, s1) \<and> idHeld s' \<subseteq>\<^sub>m idHeld s1"
      using keep map_le_refl by blast
  next
    fix body s e s' assume "dp_tx (worldUC (worldRepo uni r ttl)) body s = (Inl e, s')"
    then have tx: "worldTx body s = (Inl e, s')" by simp
    from worldTx_runs [OF this] obtain y s1 where "body s = (y, s1)" "w_cache s' = w_cache s1" by auto
    then show "idHeld s' \<subseteq>\<^sub>m idHeld s \<or> (\<exists>s0 x s1. (view \<circ> w_db) s0 = (view \<circ> w_db) s \<and> idHeld s0 \<subseteq>\<^sub>m idHeld s \<and> body s0 = (x, s1) \<and> idHeld s' \<subseteq>\<^sub>m idHeld s1)"
      using keep map_le_refl by blast
  next
    fix msg i and s :: "'a world" show "idHeld (dp_log (worldUC (worldRepo uni r ttl)) msg i s) \<subseteq>\<^sub>m idHeld s"
      by (simp add: info_def)
  qed
qed

interpretation wired: read_through gormUC "(tableView \<circ> pgRows) \<circ> w_db" gormEnc gormEncp idHeld
  by (rule world_read_through, rule pgg.gorm.account_repository_axioms, rule gormUC.use_case_axioms)


section \<open>The uncached wirings\<close>

sublocale use_case_reads \<subseteq> uncached: read_through uc view enc encp "\<lambda>_. Map.empty"
proof (intro read_through.intro use_case_axioms read_through_axioms.intro)
  fix body s q s' assume "dp_tx uc body s = (Inr q, s')"
  from tx_done [OF this] show "\<exists>s0 s1. view s0 = view s \<and> Map.empty \<subseteq>\<^sub>m Map.empty \<and> body s0 = (Inr q, s1) \<and> Map.empty \<subseteq>\<^sub>m Map.empty"
    by auto
qed (auto dest: get_ok get_notfound list_sound)

end
