(* ===== verification/Service.thy ===== *)
theory Service
  imports Servers ReadThrough
begin

text \<open>
  The API process as one thing: a request comes in over REST or gRPC, passes the router and the
  middleware or the interceptors as \<open>apps/server\<close> mounts them, and reaches the use case.  Both
  transports are shown to be decodings and encodings of one interface, \<open>perform\<close>, and that
  interface to implement a store of accounts.
\<close>

section \<open>Requests\<close>

text \<open>\<open>rq_path\<close> is the route template the router matched, empty if none.\<close>

record restRequest =
  rq_method :: string
  rq_path :: string
  rq_id :: string
  rq_query :: "(string \<times> string) list"
  rq_body :: string
  rq_header :: string

datatype rpcRequest =
    CreateAccountRPC pbCreateRequest
  | GetAccountRPC string
  | ListAccountsRPC pbListRequest
  | UpdateAccountRPC pbUpdateRequest
  | DeleteAccountRPC string

datatype 'ts rpcReply =
    CreatedReply "string outcome"
  | AccountReply "'ts pbAccount ptr"
  | PageReply "'ts pbListResponse"
  | DeletedReply

datatype call = Rest restRequest | Rpc rpcRequest

datatype 'ts answer =
    Http nat "wire respBody option"
  | RpcOK "'ts rpcReply"
  | RpcErr go_error

text \<open>What the clock and the id generator yield while a request is served.\<close>

record moment =
  mo_now :: time
  mo_id :: string
  mo_corr :: string
  mo_dur :: duration

text \<open>
  A deployment: the configuration, the ports of the use case and the library functions the
  transports take.
\<close>

record ('s, 'ts) site =
  st_cfg :: Config
  st_uni :: "string \<Rightarrow> string"
  st_uc :: "'s AccountDeps"
  st_bindCreate :: "string \<Rightarrow> go_error + httpCreateRequest"
  st_bindUpdate :: "string \<Rightarrow> go_error + httpUpdateRequest"
  st_isStatus :: "go_error \<Rightarrow> bool"
  st_validate :: "rpcRequest \<Rightarrow> go_error option"
  st_text :: "go_error \<Rightarrow> string"
  st_ts :: "time \<Rightarrow> 'ts"

definition useCaseOf :: "('s, 'ts) site \<Rightarrow> moment \<Rightarrow> 's AccountUseCase" where
  "useCaseOf st mo = accountUseCase (st_uni st) (st_uc st) (mo_now mo) (mo_id mo)"

section \<open>Serving\<close>

definition ginContext :: "restRequest \<Rightarrow> Metrics \<Rightarrow> 's \<Rightarrow> ('s, wire) gin" where
  "ginContext rq m s = \<lparr>gc_method = rq_method rq, gc_FullPath = rq_path rq, gc_param = rq_id rq, gc_query = rq_query rq,
     gc_body = rq_body rq, gc_header = rq_header rq, gc_ctx = None, gc_outHeader = [], gc_Errors = [], gc_status = 200,
     gc_written = None, gc_log = [], gc_panics = [], gc_metrics = m, gc_state = s\<rparr>"

text \<open>The account routes; None is a path the router does not have among them.\<close>

definition serveREST :: "('s, 'ts) site \<Rightarrow> moment \<Rightarrow> restRequest \<Rightarrow> 's \<times> Metrics \<Rightarrow> ('ts answer \<times> 's \<times> Metrics) option" where
  "serveREST st mo rq = (\<lambda>(s, m).
     let uc = useCaseOf st mo;
         api = registerHTTP (st_cfg st) (st_bindCreate st) (st_bindUpdate st) uc
     in case map_of (RegisterRoutes ''/api/v1'' (st_bindCreate st) (st_bindUpdate st) uc) (rq_method rq, rq_path rq) of
          None \<Rightarrow> None
        | Some h \<Rightarrow>
            (let c = snd (foldr (applyMiddleware (mo_corr mo) (mo_dur mo) (\<lambda>_ g. g)) (hs_middlewares (ap_server api)) h
                       (ginContext rq m s))
             in Some (Http (gc_status c) (gc_written c), gc_state c, gc_metrics c)))"

definition accountService :: "(time \<Rightarrow> 'ts) \<Rightarrow> 's AccountUseCase \<Rightarrow> (rpcRequest, 's, 'ts rpcReply) unary" where
  "accountService ts uc rq =
     (case rq of
        CreateAccountRPC r \<Rightarrow> andThen (grpcCreateAccount uc r) (\<lambda>x. ret (CreatedReply x))
      | GetAccountRPC i \<Rightarrow> andThen (grpcGetAccount ts uc i) (\<lambda>x. ret (AccountReply x))
      | ListAccountsRPC r \<Rightarrow> andThen (grpcListAccounts ts uc r) (\<lambda>x. ret (PageReply x))
      | UpdateAccountRPC r \<Rightarrow> andThen (grpcUpdateAccount ts uc r) (\<lambda>x. ret (AccountReply x))
      | DeleteAccountRPC i \<Rightarrow> andThen (grpcDeleteAccount uc i) (\<lambda>_. ret DeletedReply))"

definition interceptors :: "(interceptor, statsHandler) grpcServer \<Rightarrow> interceptor list" where
  "interceptors srv = concat (map (\<lambda>opt. case opt of ChainUnaryInterceptor is \<Rightarrow> is | StatsHandler _ \<Rightarrow> []) (gs_opts srv))"

definition serveRPC :: "('s, 'ts) site \<Rightarrow> moment \<Rightarrow> rpcRequest \<Rightarrow> 's \<Rightarrow> ('ts answer \<times> 's) option" where
  "serveRPC st mo rq s =
     (case registerGRPC None (st_cfg st) of
        Inl _ \<Rightarrow> None
      | Inr (srv, _) \<Rightarrow>
          (case foldr (applyInterceptor (st_isStatus st) (st_validate st) (st_text st)) (interceptors srv)
                  (accountService (st_ts st) (useCaseOf st mo)) rq s of
             (Inl e, s') \<Rightarrow> Some (RpcErr e, s')
           | (Inr reply, s') \<Rightarrow> Some (RpcOK reply, s')))"

definition serve :: "('s, 'ts) site \<Rightarrow> moment \<Rightarrow> call \<Rightarrow> 's \<times> Metrics \<Rightarrow> ('ts answer \<times> 's \<times> Metrics) option" where
  "serve st mo rq = (\<lambda>(s, m). case rq of
     Rest r \<Rightarrow> serveREST st mo r (s, m)
   | Rpc r \<Rightarrow> map_option (\<lambda>(ans, s'). (ans, s', m)) (serveRPC st mo r s))"

section \<open>The interface behind both transports\<close>

datatype action =
    DoCreate CreateAccountRequest
  | DoGet string
  | DoList ListAccountFilter
  | DoUpdate UpdateAccountRequest
  | DoDelete string

datatype outcomeOf = OneAccount "account ptr" | Page "account list" goint | Gone

definition perform :: "'s AccountUseCase \<Rightarrow> action \<Rightarrow> ('s, go_error, outcomeOf) op" where
  "perform uc ac =
     (case ac of
        DoCreate r \<Rightarrow> andThen (uc_Create uc r) (\<lambda>p. ret (OneAccount p))
      | DoGet i \<Rightarrow> andThen (uc_Get uc i) (\<lambda>p. ret (OneAccount p))
      | DoList f \<Rightarrow> andThen (uc_List uc f) (\<lambda>(as, n). ret (Page as n))
      | DoUpdate r \<Rightarrow> andThen (uc_Update uc r) (\<lambda>p. ret (OneAccount p))
      | DoDelete i \<Rightarrow> andThen (uc_Delete uc i) (\<lambda>_. ret Gone))"

text \<open>What a request asks for: None if it is not routed, an error if it is malformed.\<close>

definition restAction :: "('s, 'ts) site \<Rightarrow> restRequest \<Rightarrow> (go_error + action) option" where
  "restAction st rq =
     (let g = ''/api/v1/accounts''; item = ''/api/v1/accounts/:id''; m = rq_method rq; p = rq_path rq in
      if m = ''POST'' \<and> p = g
      then Some (case st_bindCreate st (rq_body rq) of
          Inl e \<Rightarrow> Inl (App (Cause ErrInvalidRequest e)) | Inr r \<Rightarrow> Inr (DoCreate (createToDomain r)))
      else if m = ''GET'' \<and> p = item then Some (Inr (DoGet (rq_id rq)))
      else if m = ''GET'' \<and> p = g then Some (map_sum id DoList (listFilter (ginContext rq newMetrics ())))
      else if m = ''PATCH'' \<and> p = item
      then Some (case st_bindUpdate st (rq_body rq) of
          Inl e \<Rightarrow> Inl (App (Cause ErrInvalidRequest e)) | Inr r \<Rightarrow> Inr (DoUpdate (updateToDomain r (rq_id rq))))
      else if m = ''DELETE'' \<and> p = item then Some (Inr (DoDelete (rq_id rq)))
      else None)"

definition rpcAction :: "rpcRequest \<Rightarrow> action" where
  "rpcAction rq =
     (case rq of
        CreateAccountRPC r \<Rightarrow> DoCreate \<lparr>cr_Email = pc_Email r, cr_Password = pc_Password r, cr_FirstName = pc_FirstName r,
          cr_LastName = pc_LastName r, cr_Status = 0\<rparr>
      | GetAccountRPC i \<Rightarrow> DoGet i
      | ListAccountsRPC r \<Rightarrow> DoList (pbFilter r)
      | UpdateAccountRPC r \<Rightarrow> DoUpdate (pbUpdate r)
      | DeleteAccountRPC i \<Rightarrow> DoDelete i)"

definition callAction :: "('s, 'ts) site \<Rightarrow> call \<Rightarrow> (go_error + action) option" where
  "callAction st rq =
     (case rq of
        Rest r \<Rightarrow> restAction st r
      | Rpc r \<Rightarrow> Some (case st_validate st r of
          Some e \<Rightarrow> Inl (GrpcStatus InvalidArgument (st_text st e)) | None \<Rightarrow> Inr (rpcAction r)))"

text \<open>How the outcome is answered.\<close>

definition restAnswer :: "bool \<Rightarrow> go_error + outcomeOf \<Rightarrow> 'ts answer" where
  "restAnswer creating x =
     (case x of
        Inl e \<Rightarrow> Http (he_status (NewError (Some e))) (Some (BError (he_body (NewError (Some e)))))
      | Inr (OneAccount p) \<Rightarrow> Http (if creating then StatusCreated else StatusOK) (Some (BData (WAccount (fromDomain p))))
      | Inr (Page as n) \<Rightarrow> Http StatusOK (Some (BData (WList \<lparr>lp_Accounts = fromDomainList as, lp_Total = n\<rparr>)))
      | Inr Gone \<Rightarrow> Http StatusNoContent None)"

definition rpcStatus :: "(go_error \<Rightarrow> bool) \<Rightarrow> go_error \<Rightarrow> go_error" where
  "rpcStatus isStatus err =
     (case extractApp err of
        (ae, True) \<Rightarrow> GrpcStatus (GRPCCode ae) (Message ae)
      | (_, False) \<Rightarrow> if isStatus err then err else GrpcStatus Internal ''internal server error'')"

definition rpcAnswer :: "('s, 'ts) site \<Rightarrow> bool \<Rightarrow> go_error + outcomeOf \<Rightarrow> 'ts answer" where
  "rpcAnswer st creating x =
     (case x of
        Inl e \<Rightarrow> RpcErr (rpcStatus (st_isStatus st) e)
      | Inr (OneAccount p) \<Rightarrow>
          RpcOK (if creating then CreatedReply (case p of None \<Rightarrow> Panics | Some a \<Rightarrow> Resp (ID a))
                 else AccountReply (toProtoAccount (st_ts st) p))
      | Inr (Page as n) \<Rightarrow>
          RpcOK (PageReply \<lparr>pr_Accounts = map (\<lambda>a. toProtoAccount (st_ts st) (Some a)) as, pr_Total = scast n\<rparr>)
      | Inr Gone \<Rightarrow> RpcOK DeletedReply)"

definition creates :: "action \<Rightarrow> bool" where
  "creates ac = (case ac of DoCreate _ \<Rightarrow> True | _ \<Rightarrow> False)"

definition answerOf :: "('s, 'ts) site \<Rightarrow> call \<Rightarrow> bool \<Rightarrow> go_error + outcomeOf \<Rightarrow> 'ts answer" where
  "answerOf st rq = (case rq of Rest _ \<Rightarrow> restAnswer | Rpc _ \<Rightarrow> rpcAnswer st)"

section \<open>REST is the interface\<close>

text \<open>How a handler writes an outcome.\<close>

definition render :: "bool \<Rightarrow> outcomeOf \<Rightarrow> ('s, wire) gin \<Rightarrow> ('s, wire) gin" where
  "render creating x =
     (case x of
        OneAccount p \<Rightarrow> cJSON (if creating then StatusCreated else StatusOK) (BData (WAccount (fromDomain p)))
      | Page as n \<Rightarrow> cJSON StatusOK (BData (WList \<lparr>lp_Accounts = fromDomainList as, lp_Total = n\<rparr>))
      | Gone \<Rightarrow> cStatus StatusNoContent)"

definition handles :: "(go_error + action) \<Rightarrow> 's AccountUseCase \<Rightarrow> ('s, wire) handler" where
  "handles d uc c = (case d of
     Inl e \<Rightarrow> (Inr (), cError e c)
   | Inr ac \<Rightarrow> callUC (perform uc ac) (render (creates ac)) c)"

lemma callUC_perform:
  "callUC (uc_Create uc r) (\<lambda>p. cJSON StatusCreated (BData (WAccount (fromDomain p)))) = callUC (perform uc (DoCreate r)) (render True)"
  "callUC (uc_Get uc i) (\<lambda>p. cJSON StatusOK (BData (WAccount (fromDomain p)))) = callUC (perform uc (DoGet i)) (render False)"
  "callUC (uc_List uc f) (\<lambda>(as, n). cJSON StatusOK (BData (WList \<lparr>lp_Accounts = fromDomainList as, lp_Total = n\<rparr>)))
     = callUC (perform uc (DoList f)) (render False)"
  "callUC (uc_Update uc ur) (\<lambda>p. cJSON StatusOK (BData (WAccount (fromDomain p)))) = callUC (perform uc (DoUpdate ur)) (render False)"
  "callUC (uc_Delete uc i) (\<lambda>_. cStatus StatusNoContent) = callUC (perform uc (DoDelete i)) (render False)"
  by (auto simp: fun_eq_iff callUC_spec perform_def render_def andThen_def split: prod.splits sum.splits)

lemma listFilter_context:
  "listFilter (entered uid (ginContext rq m s)) = listFilter (ginContext rq newMetrics ())"
  by (simp add: listFilter_def cQuery_def ginContext_def)

lemma ginContext_simps [simp]:
  "gc_FullPath (ginContext rq m s) = rq_path rq" "gc_method (ginContext rq m s) = rq_method rq"
  "gc_ctx (ginContext rq m s) = None" "gc_Errors (ginContext rq m s) = []" "gc_written (ginContext rq m s) = None"
  "gc_status (ginContext rq m s) = 200" "gc_state (ginContext rq m s) = s" "gc_metrics (ginContext rq m s) = m"
  "gc_param (ginContext rq m s) = rq_id rq" "gc_body (ginContext rq m s) = rq_body rq"
  by (simp_all add: ginContext_def)

lemma route_handles:
  assumes "map_of (RegisterRoutes ''/api/v1'' (st_bindCreate st) (st_bindUpdate st) uc) (rq_method rq, rq_path rq) = Some h"
  shows "\<exists>d. restAction st rq = Some d \<and> h (entered uid (ginContext rq m s)) = handles d uc (entered uid (ginContext rq m s))
    \<and> rq_path rq \<noteq> [] \<and> \<not> isOps (rq_path rq)"
  using assms
  by (auto simp: RegisterRoutes_def Let_def restAction_def handles_def creates_def httpCreate_def httpGet_def httpList_def
      httpUpdate_def httpDelete_def callUC_perform listFilter_context isOps_def opsPaths_def
      split: if_splits sum.splits)

lemma unrouted:
  "map_of (RegisterRoutes ''/api/v1'' (st_bindCreate st) (st_bindUpdate st) uc) (rq_method rq, rq_path rq) = None
    \<longleftrightarrow> restAction st rq = None"
  by (auto simp: RegisterRoutes_def Let_def restAction_def)

text \<open>The request is counted under the status the client saw.\<close>

lemma serveREST_action:
  assumes "restAction st rq = Some d"
  shows "\<exists>m'. serveREST st mo rq (s, m) = Some
    (case d of
       Inl e \<Rightarrow> (restAnswer False (Inl e), s, m')
     | Inr ac \<Rightarrow> (case perform (useCaseOf st mo) ac s of (x, s') \<Rightarrow> (restAnswer (creates ac) x, s', m')))"
proof -
  let ?uc = "useCaseOf st mo" and ?c = "ginContext rq m s" and ?e = "entered (mo_corr mo) (ginContext rq m s)"
  from assms unrouted [of st ?uc rq] obtain h where
    h: "map_of (RegisterRoutes ''/api/v1'' (st_bindCreate st) (st_bindUpdate st) ?uc) (rq_method rq, rq_path rq) = Some h"
    by fastforce
  from route_handles [OF h, of "mo_corr mo" m s] assms have
    hd: "h ?e = handles d ?uc ?e" and path: "rq_path rq \<noteq> []" "\<not> isOps (rq_path rq)" by auto
  obtain c1 where c1: "handles d ?uc ?e = (Inr (), c1)"
    by (cases d) (auto simp: handles_def callUC_spec)
  have frame: "gc_FullPath c1 = rq_path rq"
    using c1 by (auto simp: handles_def callUC_spec render_def cStatus_def split: sum.splits prod.splits outcomeOf.splits)
  from chain_Inr [of ?c "\<lambda>g. g" h "mo_corr mo" c1 "mo_dur mo"] hd c1 frame path obtain c2 where
    c2: "httpChain (mo_corr mo) (mo_dur mo) (\<lambda>g. g) h ?c = (Inr (), c2)" "gc_status c2 = gc_status (answered c1)"
      "gc_written c2 = gc_written (answered c1)" "gc_state c2 = gc_state c1" by auto
  have ans: "(Http (gc_status (answered c1)) (gc_written (answered c1)), gc_state c1) =
      (case d of Inl e \<Rightarrow> (restAnswer False (Inl e), s)
       | Inr ac \<Rightarrow> (case perform ?uc ac s of (x, s') \<Rightarrow> (restAnswer (creates ac) x, s')))"
    using c1
    by (auto simp: handles_def callUC_spec render_def restAnswer_def answered_def Let_def cStatus_def
        split: sum.splits prod.splits outcomeOf.splits)
  show ?thesis
    using h c2 ans
    by (auto simp: serveREST_def Let_def registered_chain split: sum.splits prod.splits)
qed

section \<open>gRPC is the interface\<close>

lemma interceptors_registered:
  "\<exists>srv rest. registerGRPC None cfg = Inr (srv, rest) \<and> interceptors srv = [IError, IValidation]"
  by (simp add: registerGRPC_def newGRPCServer_def WithReflection_def WithStatsHandler_def WithUnaryInterceptors_def
      interceptors_def Let_def)

lemma accountService_perform:
  "accountService ts uc rq s =
     (case perform uc (rpcAction rq) s of
        (Inl e, s') \<Rightarrow> (Inl e, s')
      | (Inr (OneAccount p), s') \<Rightarrow>
          (Inr (if creates (rpcAction rq) then CreatedReply (case p of None \<Rightarrow> Panics | Some a \<Rightarrow> Resp (ID a))
                else AccountReply (toProtoAccount ts p)), s')
      | (Inr (Page as n), s') \<Rightarrow>
          (Inr (PageReply \<lparr>pr_Accounts = map (\<lambda>a. toProtoAccount ts (Some a)) as, pr_Total = scast n\<rparr>), s')
      | (Inr Gone, s') \<Rightarrow> (Inr DeletedReply, s'))"
  by (cases rq) (auto simp: accountService_def perform_def rpcAction_def creates_def grpcCreateAccount_def grpcGetAccount_def
      grpcListAccounts_def grpcUpdateAccount_def grpcDeleteAccount_def andThen_def
      split: prod.splits sum.splits option.splits)

lemma serveRPC_action:
  "serveRPC st mo rq s = Some
    (case st_validate st rq of
       Some e \<Rightarrow> (rpcAnswer st False (Inl (GrpcStatus InvalidArgument (st_text st e))), s)
     | None \<Rightarrow> (case perform (useCaseOf st mo) (rpcAction rq) s of
         (x, s') \<Rightarrow> (rpcAnswer st (creates (rpcAction rq)) x, s')))"
proof -
  obtain srv rest where "registerGRPC None (st_cfg st) = Inr (srv, rest)" "interceptors srv = [IError, IValidation]"
    using interceptors_registered [of "st_cfg st"] by blast
  then show ?thesis
    by (auto simp: serveRPC_def ErrorInterceptor_def ValidationInterceptor_def accountService_perform mapErr_def
        rpcAnswer_def rpcStatus_def split: option.splits prod.splits sum.splits outcomeOf.splits)
qed

lemma answerOf_simps [simp]: "answerOf st (Rest r) = restAnswer" "answerOf st (Rpc q) = rpcAnswer st"
  by (simp_all add: answerOf_def)

lemma serve_action:
  assumes "callAction st rq = Some d"
  shows "\<exists>m'. serve st mo rq (s, m) = Some
    (case d of
       Inl e \<Rightarrow> (answerOf st rq False (Inl e), s, m')
     | Inr ac \<Rightarrow> (case perform (useCaseOf st mo) ac s of (x, s') \<Rightarrow> (answerOf st rq (creates ac) x, s', m')))"
proof (cases rq)
  case (Rest r)
  then show ?thesis using assms serveREST_action [of st r d mo s m] by (cases d) (auto simp: serve_def callAction_def split: prod.splits)
next
  case (Rpc r)
  then show ?thesis using assms
    by (auto simp: serve_def callAction_def serveRPC_action split: option.splits prod.splits)
qed

lemma serve_unrouted: "callAction st rq = None \<Longrightarrow> serve st mo rq (s, m) = None"
  by (cases rq) (simp_all add: callAction_def serve_def serveREST_def Let_def
      unrouted [of st "useCaseOf st mo", THEN iffD2])

section \<open>The store of accounts\<close>

text \<open>
  The abstract service: a store of accounts, a step for every action, its error or outcome.
  A refused action changes nothing.  \<open>held\<close> are the accounts a cache holds by id: what Get and
  Update answer is the stored account, or the one held.
\<close>

inductive accountsStep ::
    "(account \<Rightarrow> account) \<Rightarrow> (UpdateAccountParams \<Rightarrow> UpdateAccountParams) \<Rightarrow> moment \<Rightarrow> (string \<rightharpoonup> account ptr)
       \<Rightarrow> accounts \<Rightarrow> action \<Rightarrow> go_error + outcomeOf \<Rightarrow> accounts \<Rightarrow> bool"
  for enc encp mo held where
  refused: "accountsStep enc encp mo held v ac (Inl e) v"
| created: "v (mo_id mo) = None \<Longrightarrow> \<not> emailTaken v (cr_Email req) \<Longrightarrow> a = newAccount (mo_id mo) (mo_now mo) hashed req \<Longrightarrow>
    accountsStep enc encp mo held v (DoCreate req) (Inr (OneAccount (Some a))) (v(mo_id mo \<mapsto> enc a))"
| got: "(p \<noteq> None \<and> v i = p) \<or> held i = Some p \<Longrightarrow> accountsStep enc encp mo held v (DoGet i) (Inr (OneAccount p)) v"
| listed: "set as \<subseteq> ran v \<Longrightarrow> (\<forall>a \<in> set as. \<forall>st. lf_Status f = Some st \<longrightarrow> scast (Status a) = (scast st :: goint32)) \<Longrightarrow>
    accountsStep enc encp mo held v (DoList f) (Inr (Page as n)) v"
| updated: "v (ur_ID req) = Some a \<Longrightarrow> b = patch (encp (updateParams (mo_now mo) req)) a \<Longrightarrow>
    (\<forall>st. ur_Status req = Some st \<longrightarrow> Valid st) \<Longrightarrow> p = Some b \<or> held (ur_ID req) = Some p \<Longrightarrow>
    accountsStep enc encp mo held v (DoUpdate req) (Inr (OneAccount p)) (v(ur_ID req \<mapsto> b))"
| deleted: "v i = Some a \<Longrightarrow> accountsStep enc encp mo held v (DoDelete i) (Inr Gone) (v(i := None))"

inductive_cases accountsStepE: "accountsStep enc encp mo held v ac x v'"

inductive_simps accountsStep_create: "accountsStep enc encp mo held v (DoCreate req) x v'"

inductive_simps accountsStep_get: "accountsStep enc encp mo held v (DoGet i) x v'"

text \<open>With nothing known of the reads, an error still changes nothing.\<close>

lemma perform_err:
  assumes "use_case uc view enc encp" "perform (accountUseCase uni uc now uid) ac s = (Inl e, s')"
  shows "view s' = view s"
  using assms(2) use_case.ucCreate_err [OF assms(1)] use_case.ucUpdate_err [OF assms(1)] use_case.ucDelete_err [OF assms(1)]
    use_case.ucReads_keep [OF assms(1), THEN keepsD]
  by (cases ac) (auto simp: perform_def accountUseCase_def elim!: andThen_InlE)

context read_through
begin

lemma perform_refines:
  assumes "perform (accountUseCase uni uc (mo_now mo) (mo_id mo)) ac s = (x, s')"
  shows "accountsStep enc encp mo (held s) (view s) ac x (view s')"
proof (cases x)
  case (Inl e)
  with perform_err [OF use_case_axioms assms [unfolded Inl]] show ?thesis by (simp add: accountsStep.refused)
next
  case (Inr y)
  show ?thesis
  proof (cases ac)
    case (DoCreate req)
    with assms Inr obtain p where "ucCreate uni uc (mo_now mo) (mo_id mo) req s = (Inr p, s')" "y = OneAccount p"
      by (auto simp: perform_def accountUseCase_def elim!: andThen_InrE)
    with ucCreate_ok [of uni "mo_now mo" "mo_id mo" req s p s'] DoCreate Inr show ?thesis
      by (auto intro: accountsStep.created)
  next
    case (DoGet i)
    with assms Inr obtain p where g: "ucGet uc i s = (Inr p, s')" "y = OneAccount p"
      by (auto simp: perform_def accountUseCase_def elim!: andThen_InrE)
    with ucGet_value [OF g(1)] keepsD [OF ucReads_keep(1) g(1)] DoGet Inr show ?thesis by (auto intro!: accountsStep.got)
  next
    case (DoList f)
    with assms Inr obtain as n where l: "repo_List (dp_repo uc) f s = (Inr (as, n), s')" "y = Page as n"
      by (auto simp: perform_def accountUseCase_def ucList_def elim!: andThen_InrE)
    with list_value [OF l(1)] keepsD [OF reads_keep(3) l(1)] DoList Inr show ?thesis by (auto intro: accountsStep.listed)
  next
    case (DoUpdate req)
    with assms Inr obtain p where u: "ucUpdate uc (mo_now mo) req s = (Inr p, s')" "y = OneAccount p"
      by (auto simp: perform_def accountUseCase_def elim!: andThen_InrE)
    with ucUpdate_ok [OF u(1)] ucUpdate_value [OF u(1)] DoUpdate Inr show ?thesis
      by (auto intro!: accountsStep.updated)
  next
    case (DoDelete i)
    with assms Inr obtain u where "ucDelete uc i s = (Inr u, s')" "y = Gone"
      by (auto simp: perform_def accountUseCase_def elim!: andThen_InrE)
    with ucDelete_ok [of i s u s'] DoDelete Inr show ?thesis by (auto intro: accountsStep.deleted)
  qed
qed

end

section \<open>Account by account\<close>

text \<open>The request asks to update or delete account \<open>i\<close>.\<close>

definition writesTo :: "('s, 'ts) site \<Rightarrow> string \<Rightarrow> call \<Rightarrow> bool" where
  "writesTo st i rq = (case callAction st rq of
     Some (Inr (DoUpdate r)) \<Rightarrow> ur_ID r = i | Some (Inr (DoDelete j)) \<Rightarrow> j = i | _ \<Rightarrow> False)"

text \<open>Account \<open>i\<close> is stored as \<open>b\<close>, and the cache holds it, if at all, as \<open>b\<close>.\<close>

definition showsOnly :: "('s \<Rightarrow> accounts) \<Rightarrow> ('s \<Rightarrow> string \<rightharpoonup> account ptr) \<Rightarrow> string \<Rightarrow> account \<Rightarrow> 's \<Rightarrow> bool" where
  "showsOnly view held i b s \<longleftrightarrow> view s i = Some b \<and> (\<forall>p. held s i = Some p \<longrightarrow> p = Some b)"

lemma showsOnly_mono:
  "showsOnly view held i b s \<Longrightarrow> view s' = view s \<Longrightarrow> held s' \<subseteq>\<^sub>m held s \<Longrightarrow> showsOnly view held i b s'"
  by (auto simp: showsOnly_def dest: map_le_SomeD)

lemma untouched_step:
  assumes "accountsStep enc encp mo held v ac x v'" "v i = Some b"
    and "\<And>r. ac = DoUpdate r \<Longrightarrow> ur_ID r \<noteq> i" "ac \<noteq> DoDelete i"
  shows "v' i = Some b"
  using assms by (cases rule: accountsStep.cases) auto

context read_through
begin

lemma perform_holds:
  assumes "perform (accountUseCase uni uc now uid) ac s = (x, s')" "held s' i = Some p"
    and "\<And>r. ac = DoUpdate r \<Longrightarrow> ur_ID r \<noteq> i"
  shows "held s i = Some p \<or> (p \<noteq> None \<and> view s i = p)"
proof (cases ac)
  case (DoCreate req)
  with assms(1) obtain y where "ucCreate uni uc now uid req s = (y, s')"
    by (auto simp: perform_def accountUseCase_def andThen_def split: prod.splits sum.splits)
  from ucCreate_holds [OF this] assms(2) show ?thesis by (auto dest: map_le_SomeD)
next
  case (DoGet j)
  with assms(1) obtain y where "ucGet uc j s = (y, s')"
    by (auto simp: perform_def accountUseCase_def andThen_def split: prod.splits sum.splits)
  from ucGet_holds [OF this assms(2)] show ?thesis by blast
next
  case (DoList f)
  with assms(1) obtain y where "ucList uc f s = (y, s')"
    by (auto simp: perform_def accountUseCase_def andThen_def split: prod.splits sum.splits)
  from ucList_holds [OF this] assms(2) show ?thesis by (auto dest: map_le_SomeD)
next
  case (DoUpdate r)
  with assms(1) obtain y where "ucUpdate uc now r s = (y, s')"
    by (auto simp: perform_def accountUseCase_def andThen_def split: prod.splits sum.splits)
  from ucUpdate_holds [OF this assms(2)] assms(3) DoUpdate show ?thesis by blast
next
  case (DoDelete j)
  with assms(1) obtain y where "ucDelete uc j s = (y, s')"
    by (auto simp: perform_def accountUseCase_def andThen_def split: prod.splits sum.splits)
  from ucDelete_holds [OF this] assms(2) show ?thesis by (auto dest: map_le_SomeD)
qed

lemma perform_showsOnly:
  fixes mo :: moment
  assumes "perform (accountUseCase uni uc (mo_now mo) (mo_id mo)) ac s = (x, s')" "showsOnly view held i b s"
    and "\<And>r. ac = DoUpdate r \<Longrightarrow> ur_ID r \<noteq> i" "ac \<noteq> DoDelete i"
  shows "showsOnly view held i b s'"
  using untouched_step [OF perform_refines [OF assms(1)] _ assms(3,4)] perform_holds [OF assms(1) _ assms(3)] assms(2)
  by (fastforce simp: showsOnly_def)

end

section \<open>Runs\<close>

lemma serve_routed:
  assumes "callAction st rq = Some d"
  shows "\<exists>ans s' m'. serve st mo rq (s, m) = Some (ans, s', m')"
proof -
  from serve_action [OF assms, of mo s m] obtain w where "serve st mo rq (s, m) = Some w" by blast
  then show ?thesis by (cases w) auto
qed

lemma serve_cases:
  assumes "serve st mo rq (s, m) = Some (ans, s', m')"
  obtains (malformed) e where "callAction st rq = Some (Inl e)" "ans = answerOf st rq False (Inl e)" "s' = s"
  | (performed) ac x where "callAction st rq = Some (Inr ac)" "ans = answerOf st rq (creates ac) x"
      "perform (accountUseCase (st_uni st) (st_uc st) (mo_now mo) (mo_id mo)) ac s = (x, s')"
proof -
  from assms serve_unrouted [of st rq mo s m] obtain d where d: "callAction st rq = Some d"
    by (cases "callAction st rq") auto
  show thesis
  proof (cases d)
    case (Inl e)
    with serve_action [OF d, of mo s m] assms d show thesis by (intro malformed) auto
  next
    case (Inr ac)
    obtain x s1 where p: "perform (useCaseOf st mo) ac s = (x, s1)" by fastforce
    with serve_action [OF d, of mo s m] assms d Inr show thesis
      by (intro performed [of ac x]) (auto simp: useCaseOf_def)
  qed
qed

text \<open>
  Requests one after the other, all of them \<open>fine\<close>, and between them whatever else happens to
  the state, such as the passing of time.
\<close>

inductive traffic ::
    "('s, 'ts) site \<Rightarrow> ('s \<Rightarrow> 's \<Rightarrow> bool) \<Rightarrow> (call \<Rightarrow> bool) \<Rightarrow> 's \<times> Metrics \<Rightarrow> 's \<times> Metrics \<Rightarrow> bool"
  for st idle fine w where
  quiet: "traffic st idle fine w w"
| request: "traffic st idle fine w (s, m) \<Longrightarrow> fine rq \<Longrightarrow> serve st mo rq (s, m) = Some (ans, w') \<Longrightarrow>
    traffic st idle fine w w'"
| idle: "traffic st idle fine w (s, m) \<Longrightarrow> idle s s' \<Longrightarrow> traffic st idle fine w (s', m)"

lemma serve_showsOnly:
  assumes "read_through (st_uc st) view enc encp held" "serve st mo rq (s, m) = Some (ans, s', m')"
    and "\<not> writesTo st i rq" "showsOnly view held i b s"
  shows "showsOnly view held i b s'"
  using assms(2)
proof (cases rule: serve_cases)
  case (performed ac x)
  from assms(1) performed(3) assms(4) show ?thesis
    by (rule read_through.perform_showsOnly) (use assms(3) performed(1) in \<open>auto simp: writesTo_def\<close>)
qed (use assms(4) in simp)

lemma traffic_showsOnly:
  assumes "read_through (st_uc st) view enc encp held"
    and "\<forall>t t'. idle t t' \<longrightarrow> view t' = view t \<and> held t' \<subseteq>\<^sub>m held t"
    and "traffic st idle (\<lambda>rq. \<not> writesTo st i rq) w w'" "showsOnly view held i b (fst w)"
  shows "showsOnly view held i b (fst w')"
  using assms(3,4)
proof induction
  case (request s m rq mo ans w')
  then have "showsOnly view held i b s" by simp
  with assms(1) request(3,2) show ?case by (cases w') (auto intro: serve_showsOnly)
next
  case (idle s m s')
  with assms(2) show ?case by (auto intro: showsOnly_mono)
qed

section \<open>Properties\<close>

text \<open>
  C1: the API implements a store of accounts.  Over every wiring of ports that keep their
  contracts, the cached one of the composition root among them, a request to a route, over REST
  through router and middleware or over gRPC through the interceptors, is answered; a malformed
  one is refused and touches nothing; any other is a step of the abstract store, and its answer
  is the outcome of that step in the encoding of the transport.  A step is a refusal without
  effect, a create with a fresh id and email, a list of stored accounts, a delete, an update that
  patches the stored account, or a get; what get and update return is the stored account, or the
  account the cache held under its id before the request.
\<close>

theorem service_refines_accounts:
  assumes "read_through (st_uc st) view enc encp held" "callAction st rq = Some d"
  shows "\<exists>ans s' m'. serve st mo rq (s, m) = Some (ans, s', m') \<and>
    (case d of
       Inl e \<Rightarrow> ans = answerOf st rq False (Inl e) \<and> s' = s
     | Inr ac \<Rightarrow> \<exists>x. accountsStep enc encp mo (held s) (view s) ac x (view s') \<and> ans = answerOf st rq (creates ac) x)"
proof -
  from serve_routed [OF assms(2)] obtain ans s' m' where r: "serve st mo rq (s, m) = Some (ans, s', m')" by blast
  then show ?thesis
  proof (cases rule: serve_cases)
    case (performed ac x)
    from read_through.perform_refines [OF assms(1) performed(3)] performed(1,2) r assms(2) show ?thesis by auto
  qed (use r assms(2) in auto)
qed

text \<open>
  C3: an answer that is an error is a call that did nothing.  Over every wiring whose ports keep
  the write contracts, cached or not: whenever the client of either transport sees a status of
  400 or more, or an RPC error, the durable accounts are as they were before the request.
\<close>

theorem service_errors_change_nothing:
  assumes "use_case (st_uc st) view enc encp" "serve st mo rq (s, m) = Some (ans, s', m')"
    and "case ans of Http code _ \<Rightarrow> 400 \<le> code | RpcOK _ \<Rightarrow> False | RpcErr _ \<Rightarrow> True"
  shows "view s' = view s"
  using assms(2)
proof (cases rule: serve_cases)
  case (performed ac x)
  have "\<exists>e. x = Inl e"
  proof (rule ccontr)
    assume "\<not> (\<exists>e. x = Inl e)"
    then obtain y where "x = Inr y" by (cases x) auto
    with performed(2) assms(3) show False
      by (cases rq; cases y) (auto simp: restAnswer_def rpcAnswer_def split: if_splits)
  qed
  with performed(3) show ?thesis by (auto intro: perform_err [OF assms(1)])
qed simp

text \<open>An answer of 201 is a Create that stored the account.\<close>

lemma created_answer:
  assumes "read_through (st_uc st) view enc encp held"
    and "serve st mo rq (s, m) = Some (Http 201 (Some (BData (WAccount body))), s', m')"
    and "held s (ar_ID body) = None"
  obtains a where "body = fromDomain (Some a)" "showsOnly view held (ar_ID body) (enc a) s'"
  using assms(2)
proof (cases rule: serve_cases)
  case (malformed e)
  then show ?thesis by (cases rq) (simp_all add: restAnswer_def rpcAnswer_def)
next
  case (performed ac x)
  then obtain p where x: "x = Inr (OneAccount p)" "creates ac" "body = fromDomain p"
    by (cases rq) (auto simp: restAnswer_def rpcAnswer_def split: sum.splits outcomeOf.splits if_splits)
  then obtain req where ac: "ac = DoCreate req" by (auto simp: creates_def split: action.splits)
  from read_through.perform_refines [OF assms(1) performed(3)] x(1) ac obtain a where
    a: "p = Some a" "view s (ID a) = None" "view s' = (view s)(ID a \<mapsto> enc a)"
    by (auto simp: accountsStep_create)
  have i: "ar_ID body = ID a" using x(3) a(1) by (simp add: fromDomain_def)
  have "held s' (ID a) = None"
    using read_through.perform_holds [OF assms(1) performed(3), of "ID a"] assms(3) ac a(2) i
    by (cases "held s' (ID a)") auto
  with a i x(3) show ?thesis by (intro that [of a]) (simp_all add: showsOnly_def)
qed

text \<open>
  C2: what was created is served, on the cached wiring of the composition root as on an uncached
  one.  After POST answered 201 with an account whose id is new to the cache, whatever requests
  follow, as long as none of them updates or deletes it, and whatever time passes between them, a
  GET of its id over either transport returns that account as the backend stores it, or fails for
  another reason than absence.
\<close>

theorem created_account_served:
  assumes "read_through (st_uc st) view enc encp held"
    and "\<forall>t t'. idle t t' \<longrightarrow> view t' = view t \<and> held t' \<subseteq>\<^sub>m held t"
    and "serve st mo rq (s, m) = Some (Http 201 (Some (BData (WAccount body))), w)" "held s (ar_ID body) = None"
    and "traffic st idle (\<lambda>rq'. \<not> writesTo st (ar_ID body) rq') w w'"
    and "callAction st q = Some (Inr (DoGet (ar_ID body)))" "serve st mo' q w' = Some (ans, w'')"
  shows "\<exists>a. body = fromDomain (Some a) \<and>
    (ans = answerOf st q False (Inr (OneAccount (Some (enc a))))
     \<or> (\<exists>e. ans = answerOf st q False (Inl e) \<and> \<not> errorsIs e (App ErrAccountNotFound)))"
proof -
  obtain s2 m2 s3 m3 where w: "w' = (s2, m2)" "w'' = (s3, m3)" by (cases w', cases w'') auto
  from created_answer [OF assms(1), of mo rq s m body "fst w" "snd w"] assms(3,4) obtain a where
    a: "body = fromDomain (Some a)" "showsOnly view held (ar_ID body) (enc a) (fst w)" by auto
  from traffic_showsOnly [OF assms(1,2,5) a(2)] have v: "showsOnly view held (ar_ID body) (enc a) s2" by (simp add: w)
  from assms(7) [unfolded w] show ?thesis
  proof (cases rule: serve_cases)
    case (performed ac x)
    with assms(6) have ac: "ac = DoGet (ar_ID body)" by simp
    show ?thesis
    proof (cases x)
      case (Inl e)
      with performed(3) ac have "ucGet (st_uc st) (ar_ID body) s2 = (Inl e, s3)"
        by (auto simp: perform_def accountUseCase_def elim!: andThen_InlE)
      then have "\<not> errorsIs e (App ErrAccountNotFound)"
        using read_through.ucGet_absent [OF assms(1)] v by (fastforce simp: showsOnly_def)
      with a(1) performed(2) ac Inl show ?thesis by (auto simp: creates_def)
    next
      case (Inr y)
      with read_through.perform_refines [OF assms(1) performed(3)] v ac have "x = Inr (OneAccount (Some (enc a)))"
        by (auto simp: accountsStep_get showsOnly_def)
      with a(1) performed(2) ac show ?thesis by (auto simp: creates_def)
    qed
  qed (use assms(6) in simp)
qed

section \<open>A deployment\<close>

text \<open>The wiring of the composition root: the use case over GORM behind the cache.\<close>

definition sampleSite :: "(pg world, time) site" where
  "sampleSite = \<lparr>st_cfg = defaultConfig, st_uni = asciiOnly, st_uc = gormUC, st_bindCreate = (\<lambda>_. Inr sampleBody),
     st_bindUpdate = (\<lambda>_. Inl Canceled), st_isStatus = sampleIsStatus, st_validate = (\<lambda>_. None), st_text = (\<lambda>_. []),
     st_ts = (\<lambda>t. t)\<rparr>"

definition sampleMoment :: moment where
  "sampleMoment = \<lparr>mo_now = 7, mo_id = ''u1'', mo_corr = ''c1'', mo_dur = 5\<rparr>"

definition postBob :: call where
  "postBob = Rest \<lparr>rq_method = ''POST'', rq_path = ''/api/v1/accounts'', rq_id = [], rq_query = [], rq_body = ''{}'', rq_header = []\<rparr>"

abbreviation siteView :: "pg world \<Rightarrow> accounts" where
  "siteView \<equiv> (tableView \<circ> pgRows) \<circ> w_db"

lemma sampleSite_reads: "read_through (st_uc sampleSite) siteView gormEnc gormEncp idHeld"
  and sampleSite_writes: "use_case (st_uc sampleSite) siteView gormEnc gormEncp"
  by (simp_all add: sampleSite_def wired.read_through_axioms gormUC.use_case_axioms)

lemma createToDomain_sampleBody: "createToDomain sampleBody = sampleReq"
  by (simp add: createToDomain_def sampleBody_def sampleReq_def)

lemma postBob_action: "callAction sampleSite postBob = Some (Inr (DoCreate sampleReq))"
  by (simp add: callAction_def postBob_def restAction_def Let_def sampleSite_def createToDomain_sampleBody)

definition bob :: account where
  "bob = newAccount ''u1'' 7 ''$2a$longenough'' sampleReq"

lemma postBob_served:
  "\<exists>s' m'. serve sampleSite sampleMoment postBob (sampleWorld, newMetrics)
     = Some (Http 201 (Some (BData (WAccount (fromDomain (Some bob))))), s', m')"
proof -
  obtain s' where c: "ucCreate asciiOnly gormUC 7 ''u1'' sampleReq sampleWorld = (Inr (Some bob), s')"
    using wired_sample_create by (auto simp: bob_def)
  have "st_uni sampleSite = asciiOnly" "st_uc sampleSite = gormUC" "mo_now sampleMoment = 7" "mo_id sampleMoment = ''u1''"
    by (simp_all add: sampleSite_def sampleMoment_def)
  with c have "perform (useCaseOf sampleSite sampleMoment) (DoCreate sampleReq) sampleWorld = (Inr (OneAccount (Some bob)), s')"
    by (simp add: perform_def useCaseOf_def accountUseCase_def)
  with serve_action [OF postBob_action, of sampleMoment sampleWorld newMetrics] show ?thesis
    by (auto simp: postBob_def creates_def restAnswer_def)
qed

theorem service_refines_accounts_witness:
  "\<exists>ans s' m' x. serve sampleSite sampleMoment postBob (sampleWorld, newMetrics) = Some (ans, s', m')
    \<and> accountsStep gormEnc gormEncp sampleMoment (idHeld sampleWorld) (siteView sampleWorld) (DoCreate sampleReq) x (siteView s')
    \<and> ans = answerOf sampleSite postBob True x"
  using service_refines_accounts [OF sampleSite_reads postBob_action, of sampleMoment sampleWorld newMetrics]
  by (auto simp: creates_def)

theorem service_errors_change_nothing_witness:
  "\<exists>e s' m'. serve sampleSite sampleMoment (Rpc (GetAccountRPC [])) (sampleWorld, newMetrics) = Some (RpcErr e, s', m')
    \<and> siteView s' = siteView sampleWorld"
proof -
  have a: "callAction sampleSite (Rpc (GetAccountRPC [])) = Some (Inr (DoGet []))"
    by (simp add: callAction_def sampleSite_def rpcAction_def)
  have "perform (useCaseOf sampleSite sampleMoment) (DoGet []) sampleWorld = (Inl idRequired, sampleWorld)"
    by (simp add: perform_def useCaseOf_def accountUseCase_def ucGet_def)
  with serve_action [OF a, of sampleMoment sampleWorld newMetrics] obtain e s' m' where
    r: "serve sampleSite sampleMoment (Rpc (GetAccountRPC [])) (sampleWorld, newMetrics) = Some (RpcErr e, s', m')"
    by (auto simp: rpcAnswer_def)
  from service_errors_change_nothing [OF sampleSite_writes r] r show ?thesis by auto
qed

text \<open>Time passes in the cache.\<close>

definition ticks :: "pg world \<Rightarrow> pg world \<Rightarrow> bool" where
  "ticks s s' \<longleftrightarrow> (\<exists>dt \<ge> 0. s' = put_cache ((w_cache s)\<lparr>ms_now := ms_now (w_cache s) + dt\<rparr>) s)"

lemma ticks_quiet: "\<forall>t t'. ticks t t' \<longrightarrow> siteView t' = siteView t \<and> idHeld t' \<subseteq>\<^sub>m idHeld t"
  using live_tick by (auto simp: ticks_def intro!: idHeld_le)

text \<open>Bob is created over REST, a list request and a minute later Bob is read over gRPC.\<close>

theorem created_account_served_witness:
  "\<exists>w s2 m2 ans w3. serve sampleSite sampleMoment postBob (sampleWorld, newMetrics)
      = Some (Http 201 (Some (BData (WAccount (fromDomain (Some bob))))), w)
    \<and> serve sampleSite sampleMoment (Rpc (GetAccountRPC ''u1''))
        (put_cache ((w_cache s2)\<lparr>ms_now := ms_now (w_cache s2) + Minute\<rparr>) s2, m2) = Some (ans, w3)
    \<and> ((\<exists>a. ans = rpcAnswer sampleSite False (Inr (OneAccount (Some (gormEnc a)))))
       \<or> (\<exists>e. ans = RpcErr (rpcStatus sampleIsStatus e) \<and> \<not> errorsIs e (App ErrAccountNotFound)))"
proof -
  let ?l = "Rpc (ListAccountsRPC \<lparr>pl_Status = None, pl_Limit = 10, pl_Offset = 0\<rparr>)"
  let ?g = "Rpc (GetAccountRPC ''u1'')" and ?fine = "\<lambda>rq. \<not> writesTo sampleSite ''u1'' rq"
  obtain w where p: "serve sampleSite sampleMoment postBob (sampleWorld, newMetrics)
     = Some (Http 201 (Some (BData (WAccount (fromDomain (Some bob))))), w)" using postBob_served by blast
  have bid: "ar_ID (fromDomain (Some bob)) = ''u1''" by (simp add: fromDomain_def bob_def)
  have g: "callAction sampleSite ?g = Some (Inr (DoGet ''u1''))"
    and l: "callAction sampleSite ?l = Some (Inr (DoList (pbFilter \<lparr>pl_Status = None, pl_Limit = 10, pl_Offset = 0\<rparr>)))"
    by (simp_all add: callAction_def sampleSite_def rpcAction_def)
  have fresh: "idHeld sampleWorld ''u1'' = None" by (simp add: idHeld_def)
  obtain s1 m1 where w: "w = (s1, m1)" by fastforce
  from serve_routed [OF l] obtain a1 s2 m2 where
    sl: "serve sampleSite sampleMoment ?l (s1, m1) = Some (a1, s2, m2)" by blast
  let ?s = "put_cache ((w_cache s2)\<lparr>ms_now := ms_now (w_cache s2) + Minute\<rparr>) s2"
  have "traffic sampleSite ticks ?fine w (s1, m1)" unfolding w by (rule traffic.quiet)
  then have "traffic sampleSite ticks ?fine w (s2, m2)"
    by (rule traffic.request [OF _ _ sl]) (simp add: writesTo_def l)
  then have t: "traffic sampleSite ticks ?fine w (?s, m2)"
    by (rule traffic.idle) (auto simp: ticks_def Minute_def intro!: exI [of _ Minute])
  from serve_routed [OF g] obtain ans w3 where
    q: "serve sampleSite sampleMoment ?g (?s, m2) = Some (ans, w3)" by blast
  have "st_isStatus sampleSite = sampleIsStatus" by (simp add: sampleSite_def)
  with created_account_served [OF sampleSite_reads ticks_quiet p, unfolded bid, OF fresh t g q] p q show ?thesis
    by (fastforce simp: rpcAnswer_def)
qed

end
