(* ===== verification/Validation.thy ===== *)
theory Validation
  imports Service
begin

text \<open>
  What the transports check before the use case sees a request: the binding tags of the REST
  objects (\<open>internal/adapter/http/rest.go\<close>) and the field rules of the messages
  (\<open>api/proto/account/v1/account.proto\<close>).  The libraries that enforce them are parameters, each with
  its own idea of an address; the locale \<open>validated_site\<close> says that they do.
\<close>

section \<open>Rules\<close>

text \<open>How the libraries count characters and what they take for an address.\<close>

record formats =
  fo_runes :: "string \<Rightarrow> nat"
  fo_email :: "string \<Rightarrow> bool"

datatype bindingTag = Required | EmailTag | MinTag nat

fun tagOK :: "formats \<Rightarrow> string \<Rightarrow> bindingTag \<Rightarrow> bool" where
  "tagOK fo v Required = (v \<noteq> [])"
| "tagOK fo v EmailTag = fo_email fo v"
| "tagOK fo v (MinTag n) = (n \<le> fo_runes fo v)"

text \<open>The fields of \<open>CreateAccountRequest\<close> that have a \<open>binding\<close> tag; the update object has none.\<close>

definition createBinding :: "httpCreateRequest \<Rightarrow> (string \<times> bindingTag list) list" where
  "createBinding r = [(hc_Email r, [Required, EmailTag]), (hc_Password r, [Required, MinTag 8])]"

definition bindingOK :: "formats \<Rightarrow> httpCreateRequest \<Rightarrow> bool" where
  "bindingOK fo r = list_all (\<lambda>(v, tags). list_all (tagOK fo v) tags) (createBinding r)"

datatype fieldRule = MinLen nat string | EmailRule string | Gte int goint32 | Lte int goint32

fun ruleOK :: "formats \<Rightarrow> fieldRule \<Rightarrow> bool" where
  "ruleOK fo (MinLen n v) = (n \<le> fo_runes fo v)"
| "ruleOK fo (EmailRule v) = fo_email fo v"
| "ruleOK fo (Gte n v) = (n \<le> sint v)"
| "ruleOK fo (Lte n v) = (sint v \<le> n)"

definition fieldRules :: "rpcRequest \<Rightarrow> fieldRule list" where
  "fieldRules rq =
     (case rq of
        GetAccountRPC i \<Rightarrow> [MinLen 1 i]
      | CreateAccountRPC r \<Rightarrow> [EmailRule (pc_Email r), MinLen 8 (pc_Password r)]
      | UpdateAccountRPC r \<Rightarrow> [MinLen 1 (pu_Id r)]
      | DeleteAccountRPC i \<Rightarrow> [MinLen 1 i]
      | ListAccountsRPC r \<Rightarrow> [Gte 0 (pl_Limit r), Lte 200 (pl_Limit r), Gte 0 (pl_Offset r)])"

locale validated_site =
  fixes st :: "('s, 'ts) site" and fo vo :: formats
  assumes binds: "st_bindCreate st body = Inr r \<Longrightarrow> bindingOK fo r"
    and validates: "st_validate st rq = None \<longleftrightarrow> list_all (ruleOK vo) (fieldRules rq)"
    and runes: "fo_runes fo v \<le> length v" "fo_runes vo v \<le> length v"
    and address: "fo_email fo v \<Longrightarrow> CHR ''@'' \<in> set v" "fo_email vo v \<Longrightarrow> CHR ''@'' \<in> set v"
begin

lemma created:
  assumes "callAction st rq = Some (Inr (DoCreate r))"
  shows "CHR ''@'' \<in> set (cr_Email r)" "8 \<le> length (cr_Password r)"
proof -
  have le: "n \<le> fo_runes fo v \<Longrightarrow> n \<le> length v" "n \<le> fo_runes vo v \<Longrightarrow> n \<le> length v" for n v
    using runes [of v] by linarith+
  have "CHR ''@'' \<in> set (cr_Email r) \<and> 8 \<le> length (cr_Password r)"
  proof (cases rq)
    case (Rest r')
    then obtain body c where c: "st_bindCreate st body = Inr c" "r = createToDomain c"
      using assms by (auto simp: callAction_def restAction_def Let_def map_sum_def split: if_splits option.splits sum.splits)
    from binds [OF c(1)] show ?thesis
      using c(2) by (auto simp: bindingOK_def createBinding_def createToDomain_def intro: address le)
  next
    case (Rpc q)
    show ?thesis
    proof (cases q)
      case (CreateAccountRPC pb)
      then show ?thesis
        using assms Rpc validates [of q]
        by (auto simp: callAction_def rpcAction_def fieldRules_def Let_def intro: address le split: option.splits)
    qed (use assms Rpc in \<open>auto simp: callAction_def rpcAction_def Let_def split: option.splits\<close>)
  qed
  then show "CHR ''@'' \<in> set (cr_Email r)" "8 \<le> length (cr_Password r)" by blast+
qed

lemma ids:
  assumes "callAction st (Rpc rq) = Some (Inr ac)"
  shows "ac = DoGet i \<or> ac = DoDelete i \<or> (\<exists>u. ac = DoUpdate u \<and> ur_ID u = i) \<Longrightarrow> i \<noteq> []"
proof -
  have "\<not> Suc 0 \<le> fo_runes vo []" using runes(2) [of "[]"] by simp
  then show "ac = DoGet i \<or> ac = DoDelete i \<or> (\<exists>u. ac = DoUpdate u \<and> ur_ID u = i) \<Longrightarrow> i \<noteq> []"
    using assms validates [of rq]
    by (cases rq) (auto simp: callAction_def rpcAction_def fieldRules_def pbUpdate_def Let_def split: option.splits)
qed

lemma pages:
  assumes "callAction st (Rpc rq) = Some (Inr (DoList f))"
  shows "0 \<le> sint (lf_Limit f) \<and> sint (lf_Limit f) \<le> 200 \<and> 0 \<le> sint (lf_Offset f)"
proof -
  have w: "sint (scast (v :: goint32) :: goint) = sint v" for v
    using sint_range_size [of v] by (simp add: signed_scast_eq signed_take_bit_int_eq_self_iff word_size)
  from assms validates [of rq] show ?thesis
    by (cases rq) (auto simp: callAction_def rpcAction_def fieldRules_def pbFilter_def Let_def w split: option.splits)
qed

end

section \<open>A deployment that validates\<close>

text \<open>The runes of a string in UTF-8: the bytes that do not continue another one.\<close>

definition utf8Runes :: "string \<Rightarrow> nat" where
  "utf8Runes v = length (filter (\<lambda>c. \<not> (128 \<le> (of_char c :: nat) \<and> (of_char c :: nat) < 192)) v)"

definition someFormats :: formats where
  "someFormats = \<lparr>fo_runes = utf8Runes, fo_email = (\<lambda>v. CHR ''@'' \<in> set v)\<rparr>"

definition strictSite :: "(pg world, time) site" where
  "strictSite = sampleSite\<lparr>
     st_bindCreate := (\<lambda>body. if bindingOK someFormats (sampleBody\<lparr>hc_Password := body\<rparr>)
       then Inr (sampleBody\<lparr>hc_Password := body\<rparr>) else Inl (ErrorString ''binding'')),
     st_validate := (\<lambda>rq. if list_all (ruleOK someFormats) (fieldRules rq) then None else Some (ErrorString ''validation''))\<rparr>"

interpretation strict: validated_site strictSite someFormats someFormats
  by unfold_locales (auto simp: strictSite_def someFormats_def utf8Runes_def split: if_splits)

section \<open>Properties\<close>

text \<open>
  C40: what reaches the use case.  On a deployment whose binder and validator enforce the declared
  rules, every create request that is not refused before passes the email and password checks of
  the use case; over gRPC, moreover, every id is non-empty and every page has a limit from 0 to
  200 and an offset that is not negative.
\<close>

theorem admitted_requests_wellformed:
  assumes "validated_site st fo vo" "callAction st rq = Some (Inr ac)"
  shows "(\<forall>r. ac = DoCreate r \<longrightarrow> validateEmail (cr_Email r) = Inr ()
        \<and> ensureStrongPassword (passwordService bcrypt) (cr_Password r) = Inr ())
    \<and> (\<forall>q i. rq = Rpc q \<longrightarrow> ac = DoGet i \<or> ac = DoDelete i \<or> (\<exists>u. ac = DoUpdate u \<and> ur_ID u = i) \<longrightarrow> i \<noteq> [])
    \<and> (\<forall>q f. rq = Rpc q \<longrightarrow> ac = DoList f \<longrightarrow>
        0 \<le> sint (lf_Limit f) \<and> sint (lf_Limit f) \<le> 200 \<and> 0 \<le> sint (lf_Offset f))"
proof (intro conjI allI impI)
  fix r assume "ac = DoCreate r"
  then have c: "CHR ''@'' \<in> set (cr_Email r)" "8 \<le> length (cr_Password r)"
    using validated_site.created [OF assms(1)] assms(2) by blast+
  then show "validateEmail (cr_Email r) = Inr ()"
    "ensureStrongPassword (passwordService bcrypt) (cr_Password r) = Inr ()"
    by (auto simp: validateEmail_ok ensureStrongPassword_ok IsValidPassword_def MinPasswordLength_def)
next
  fix q i assume "rq = Rpc q" "ac = DoGet i \<or> ac = DoDelete i \<or> (\<exists>u. ac = DoUpdate u \<and> ur_ID u = i)"
  then show "i \<noteq> []" using validated_site.ids [OF assms(1)] assms(2) by blast
next
  fix q f assume "rq = Rpc q" "ac = DoList f"
  then show "0 \<le> sint (lf_Limit f)" "sint (lf_Limit f) \<le> 200" "0 \<le> sint (lf_Offset f)"
    using validated_site.pages [OF assms(1)] assms(2) by blast+
qed

theorem admitted_requests_wellformed_witness:
  "\<exists>r. callAction strictSite (Rpc (CreateAccountRPC samplePb)) = Some (Inr (DoCreate r))
     \<and> ensureStrongPassword (passwordService demoHash) (cr_Password r) = Inr ()"
proof -
  obtain r where r: "callAction strictSite (Rpc (CreateAccountRPC samplePb)) = Some (Inr (DoCreate r))"
    by (simp add: callAction_def strictSite_def fieldRules_def someFormats_def utf8Runes_def samplePb_def rpcAction_def)
  with admitted_requests_wellformed [OF strict.validated_site_axioms r, of demoHash] show ?thesis by blast
qed

end
