(* ===== verification/Lock.thy ===== *)
theory Lock
  imports Ports GoFormat
begin

text \<open>
  The Redis-backed distributed lock (\<open>internal/adapter/lock/lock.go\<close>).  The Redis client is a
  parameter: \<open>SET NX\<close> with a lifetime, the commands a script may call, and the atomic run of a
  script.  What the code relies on of the server is the locale \<open>lock_server\<close>, interpreted on a
  small server with a clock, expiry and lost requests and replies.
\<close>

section \<open>The code\<close>

record 's RedisClient =
  rc_SetNX :: "string \<Rightarrow> string \<Rightarrow> duration \<Rightarrow> ('s, go_error, bool) op"
  rc_get :: "string \<Rightarrow> ('s, go_error, string option) op"  \<comment> \<open>\<open>redis.call("get", k)\<close>, false is None\<close>
  rc_del :: "string \<Rightarrow> ('s, go_error, int) op"
  rc_Run :: "('s, go_error, int) op \<Rightarrow> ('s, go_error, int) op"

type_synonym 's releaseFunc = "('s, go_error, unit) op"
type_synonym 's DistributedLocker = "string \<Rightarrow> duration \<Rightarrow> ('s, go_error, 's releaseFunc) op"

definition lockKeyPrefix :: string where
  "lockKeyPrefix = ''lock:''"

definition releaseScript :: "'s RedisClient \<Rightarrow> string \<Rightarrow> string \<Rightarrow> ('s, go_error, int) op" where
  "releaseScript rc key arg =
     andThen (rc_get rc key) (\<lambda>v. if v = Some arg then rc_del rc key else ret 0)"

text \<open>\<open>hex.EncodeToString\<close>\<close>

definition hexDigit :: "nat \<Rightarrow> char" where
  "hexDigit d = ''0123456789abcdef'' ! d"

fun EncodeToString :: "8 word list \<Rightarrow> string" where
  "EncodeToString [] = []"
| "EncodeToString (b # bs) = hexDigit (unat b div 16) # hexDigit (unat b mod 16) # EncodeToString bs"

text \<open>\<open>drawn\<close> is what \<open>rand.Read\<close> put into the 16-byte buffer, or its error.\<close>

definition newToken :: "go_error + 8 word list \<Rightarrow> go_error + string" where
  "newToken drawn = (case drawn of Inl err \<Rightarrow> Inl err | Inr buf \<Rightarrow> Inr (EncodeToString buf))"

definition release :: "'s RedisClient \<Rightarrow> string \<Rightarrow> string \<Rightarrow> 's releaseFunc" where
  "release rc redisKey token =
     andThen (mapErr (Wrapf ''lock: release %q: %w'' [redisKey]) (rc_Run rc (releaseScript rc redisKey token)))
       (\<lambda>_. ret ())"

definition Acquire :: "'s RedisClient \<Rightarrow> go_error + 8 word list \<Rightarrow> 's DistributedLocker" where
  "Acquire rc drawn key ttl =
     andThen (mapErr (Wrapf ''lock: generate token: %w'' []) (liftR (newToken drawn)))
       (\<lambda>token.
          let redisKey = lockKeyPrefix @ key
          in andThen (mapErr (Wrapf ''lock: setnx %q: %w'' [redisKey]) (rc_SetNX rc redisKey token ttl))
               (\<lambda>ok. if \<not> ok then throw ErrLockNotAcquired else ret (release rc redisKey token)))"

section \<open>Tokens\<close>

lemma hexDigit_inject: "i < 16 \<Longrightarrow> j < 16 \<Longrightarrow> hexDigit i = hexDigit j \<Longrightarrow> i = j"
proof -
  assume a: "i < 16" "j < 16" "hexDigit i = hexDigit j"
  have d: "distinct ''0123456789abcdef''" and l: "length ''0123456789abcdef'' = 16" by simp_all
  from a show "i = j" unfolding hexDigit_def using nth_eq_iff_index_eq [OF d] l by simp
qed

fun_cases EncodeToString_NilE: "EncodeToString bs = []"
  and EncodeToString_ConsE: "EncodeToString bs = c # d # cs"

lemma EncodeToString_inject: "EncodeToString as = EncodeToString bs \<Longrightarrow> as = bs"
proof (induction as arbitrary: bs)
  case Nil
  then have "EncodeToString bs = []" by simp
  then show ?case by (rule EncodeToString_NilE) simp
next
  case (Cons a as)
  then have "EncodeToString bs = hexDigit (unat a div 16) # hexDigit (unat a mod 16) # EncodeToString as" by simp
  then obtain b bs' where bs: "bs = b # bs'" by (rule EncodeToString_ConsE)
  have "unat a < 256" "unat b < 256" using unsigned_less [of a] unsigned_less [of b] by simp_all
  then have "unat a div 16 = unat b div 16" "unat a mod 16 = unat b mod 16"
    using Cons.prems bs by (auto intro!: hexDigit_inject)
  then have "unat a = unat b" by (metis div_mult_mod_eq)
  then have "a = b" by (simp only: word_unat_eq_iff)
  with Cons bs show ?case by simp
qed

lemma length_EncodeToString [simp]: "length (EncodeToString bs) = 2 * length bs"
  by (induction bs rule: EncodeToString.induct) simp_all

section \<open>What the code relies on of Redis\<close>

text \<open>
  \<open>entry s k\<close> is the value of a key that has not expired, with its deadline (none for a key
  without lifetime); \<open>now\<close> is the server's clock.  A command that reports an error may still
  have been executed: the reply can be lost.  The client then repeats the command by itself, so a
  SETNX may find the key held by its own first attempt.
\<close>

type_synonym lockEntry = "string \<times> time option"

definition deadline :: "time \<Rightarrow> duration \<Rightarrow> time option" where
  "deadline t ttl = (if ttl = 0 then None else Some (t + ttl))"

definition unexpired :: "time \<Rightarrow> time option \<Rightarrow> bool" where
  "unexpired t d = (case d of None \<Rightarrow> True | Some u \<Rightarrow> t < u)"

locale lock_server =
  fixes rc :: "'s RedisClient" and entry :: "'s \<Rightarrow> string \<rightharpoonup> lockEntry" and now :: "'s \<Rightarrow> time"
  assumes setnx_taken: "rc_SetNX rc k v ttl s = (Inr True, s') \<Longrightarrow> 0 \<le> ttl \<Longrightarrow>
        entry s k = None \<and> entry s' = (entry s)(k \<mapsto> (v, deadline (now s) ttl))"
    and setnx_held: "rc_SetNX rc k v ttl s = (Inr False, s') \<Longrightarrow> 0 \<le> ttl \<Longrightarrow>
        entry s k \<noteq> None \<and> entry s' = entry s \<or> entry s k = None \<and> entry s' = (entry s)(k \<mapsto> (v, deadline (now s) ttl))"
    and setnx_err: "rc_SetNX rc k v ttl s = (Inl e, s') \<Longrightarrow> 0 \<le> ttl \<Longrightarrow>
        entry s' = entry s \<or> entry s k = None \<and> entry s' = (entry s)(k \<mapsto> (v, deadline (now s) ttl))"
    and get_val: "rc_get rc k s = (Inr r, s') \<Longrightarrow> r = map_option fst (entry s k)"
    and get_keeps: "rc_get rc k s = (g, s') \<Longrightarrow> entry s' = entry s \<and> now s' = now s"
    and del_ok: "rc_del rc k s = (Inr n, s') \<Longrightarrow> entry s' = (entry s)(k := None)"
    and del_err: "rc_del rc k s = (Inl e, s') \<Longrightarrow> entry s' = entry s"
    and run: "rc_Run rc script s = (x, s') \<Longrightarrow>
        (\<exists>s0 y. entry s0 = entry s \<and> now s0 = now s \<and> script s0 = (y, s') \<and> (\<forall>n. x = Inr n \<longrightarrow> y = Inr n))
        \<or> (\<exists>e. x = Inl e) \<and> entry s' = entry s \<and> now s' = now s"
    and clock: "rc_SetNX rc k v ttl s = (b, s') \<Longrightarrow> now s' = now s" "rc_del rc k s = (x, s') \<Longrightarrow> now s' = now s"
begin

lemma releaseScript_effect:
  assumes "releaseScript rc k token s = (x, s')"
  shows "now s' = now s"
    and "entry s' = entry s \<or> (\<exists>d. entry s k = Some (token, d)) \<and> entry s' = (entry s)(k := None)"
    and "x = Inr n \<Longrightarrow> \<nexists>d. entry s' k = Some (token, d)"
proof -
  obtain r t where g: "rc_get rc k s = (r, t)" by fastforce
  note t = get_keeps [OF g]
  have "now s' = now s \<and> (entry s' = entry s \<or> (\<exists>d. entry s k = Some (token, d)) \<and> entry s' = (entry s)(k := None))
      \<and> (\<forall>n. x = Inr n \<longrightarrow> (\<nexists>d. entry s' k = Some (token, d)))"
  proof (cases "r = Inr (Some token)")
    case True
    with assms g have d: "rc_del rc k t = (x, s')" by (simp add: releaseScript_def)
    have "Some token = map_option fst (entry s k)" using get_val [of k s "Some token" t] g True by simp
    then obtain dl where "entry s k = Some (token, dl)" by (cases "entry s k") auto
    with d t show ?thesis by (cases x) (auto dest: del_ok del_err clock(2))
  next
    case False
    with assms g t get_val [of k s _ t] show ?thesis
      by (cases r) (auto simp: releaseScript_def split: if_splits)
  qed
  then show "now s' = now s"
    "entry s' = entry s \<or> (\<exists>d. entry s k = Some (token, d)) \<and> entry s' = (entry s)(k := None)"
    "x = Inr n \<Longrightarrow> \<nexists>d. entry s' k = Some (token, d)" by blast+
qed

lemma release_effect:
  assumes "release rc k token s = (x, s')"
  shows "now s' = now s"
    and "entry s' = entry s \<or> (\<exists>d. entry s k = Some (token, d)) \<and> entry s' = (entry s)(k := None)"
    and "x = Inr u \<Longrightarrow> \<nexists>d. entry s' k = Some (token, d)"
proof -
  obtain y where r: "rc_Run rc (releaseScript rc k token) s = (y, s')" and ok: "x = Inr u \<Longrightarrow> \<exists>n. y = Inr n"
    using assms by (auto simp: release_def andThen_def mapErr_def split: prod.splits sum.splits)
  from run [OF r] consider
    (ran) s0 z where "entry s0 = entry s" "now s0 = now s" "releaseScript rc k token s0 = (z, s')" "\<forall>n. y = Inr n \<longrightarrow> z = Inr n"
    | (lost) e where "y = Inl e" "entry s' = entry s" "now s' = now s" by blast
  then have "now s' = now s \<and> (entry s' = entry s \<or> (\<exists>d. entry s k = Some (token, d)) \<and> entry s' = (entry s)(k := None))
      \<and> (x = Inr u \<longrightarrow> (\<nexists>d. entry s' k = Some (token, d)))"
  proof cases
    case ran
    note e = releaseScript_effect [OF ran(3)]
    have "\<nexists>d. entry s' k = Some (token, d)" if "x = Inr u"
      using ok [OF that] ran(4) e(3) by blast
    with e(1,2) ran(1,2) show ?thesis by simp
  next
    case lost
    then have "x \<noteq> Inr u" using ok by blast
    with lost show ?thesis by blast
  qed
  then show "now s' = now s"
    "entry s' = entry s \<or> (\<exists>d. entry s k = Some (token, d)) \<and> entry s' = (entry s)(k := None)"
    "x = Inr u \<Longrightarrow> \<nexists>d. entry s' k = Some (token, d)" by blast+
qed

text \<open>A release touches nothing but the caller's own acquisition.\<close>

lemma release_keeps_others:
  assumes "release rc k token s = (x, s')" "entry s j = Some (v, d)" "j \<noteq> k \<or> v \<noteq> token"
  shows "entry s' j = Some (v, d)"
  using release_effect(2) [OF assms(1)] assms(2,3) by auto

lemma Acquire_ok:
  assumes "Acquire rc drawn key ttl s = (Inr rel, s')" "0 \<le> ttl"
  obtains token where "newToken drawn = Inr token" "rel = release rc (lockKeyPrefix @ key) token"
    "entry s (lockKeyPrefix @ key) = None"
    "entry s' = (entry s)(lockKeyPrefix @ key \<mapsto> (token, deadline (now s) ttl))" "now s' = now s"
proof -
  obtain token ok where t: "newToken drawn = Inr token"
    and s: "rc_SetNX rc (lockKeyPrefix @ key) token ttl s = (Inr ok, s')" and o: ok "rel = release rc (lockKeyPrefix @ key) token"
    using assms(1) by (auto simp: Acquire_def Let_def elim!: andThen_InrE mapErr_InrE split: if_splits)
  from setnx_taken [of "lockKeyPrefix @ key" token ttl s s'] s o(1) assms(2) clock(1) [OF s] show thesis
    by (intro that [OF t o(2)]) auto
qed

lemma Acquire_err:
  assumes "Acquire rc drawn key ttl s = (Inl e, s')" "0 \<le> ttl"
  shows "now s' = now s \<and> (entry s' = entry s \<or> (\<exists>token. newToken drawn = Inr token
     \<and> entry s (lockKeyPrefix @ key) = None
     \<and> entry s' = (entry s)(lockKeyPrefix @ key \<mapsto> (token, deadline (now s) ttl))))"
  using assms
  by (fastforce simp: Acquire_def Let_def newToken_def elim!: andThen_InlE mapErr_InlE mapErr_InrE split: if_splits sum.splits
      dest: setnx_err setnx_held clock(1))

text \<open>A held lock is refused with \<open>ErrLockNotAcquired\<close>, unless the token or the network failed.\<close>

lemma Acquire_held:
  assumes "Acquire rc drawn key ttl s = (x, s')" "entry s (lockKeyPrefix @ key) \<noteq> None" "0 \<le> ttl"
  shows "\<exists>e. x = Inl e \<and> entry s' = entry s"
proof (cases x)
  case (Inr rel)
  with assms(1) have "Acquire rc drawn key ttl s = (Inr rel, s')" by simp
  then show ?thesis using assms(2,3) by (elim Acquire_ok) auto
next
  case (Inl e)
  with Acquire_err [of drawn key ttl s e s'] assms show ?thesis by auto
qed

end

section \<open>Clients sharing a lock\<close>

text \<open>
  A history: the random buffers drawn so far, the acquisitions whose holders have not called
  release yet (key, token, deadline), and the server.  Holders take and release in any order,
  releases may fail, time passes, and other programs use other keys.  Drawing 16 random bytes
  never repeats a buffer: that is the premise \<open>buf \<notin> set used\<close>.
\<close>

record 's lockSys =
  ls_used :: "8 word list list"
  ls_held :: "(string \<times> string \<times> time option) list"
  ls_server :: 's

definition elapses :: "('s \<Rightarrow> string \<rightharpoonup> lockEntry) \<Rightarrow> ('s \<Rightarrow> time) \<Rightarrow> 's \<Rightarrow> 's \<Rightarrow> bool" where
  "elapses entry now s s' \<longleftrightarrow> now s \<le> now s'
     \<and> (\<forall>k v d. entry s (lockKeyPrefix @ k) = Some (v, d) \<longrightarrow> unexpired (now s') d \<longrightarrow>
          entry s' (lockKeyPrefix @ k) = Some (v, d))"

inductive lockStep :: "'s RedisClient \<Rightarrow> ('s \<Rightarrow> string \<rightharpoonup> lockEntry) \<Rightarrow> ('s \<Rightarrow> time) \<Rightarrow> 's lockSys \<Rightarrow> 's lockSys \<Rightarrow> bool"
  for rc entry now where
  took: "buf \<notin> set used \<Longrightarrow> 0 \<le> ttl \<Longrightarrow>
     Acquire rc (Inr buf) key ttl s = (Inr rel, s') \<Longrightarrow>
     lockStep rc entry now \<lparr>ls_used = used, ls_held = hs, ls_server = s\<rparr>
       \<lparr>ls_used = buf # used, ls_held = (key, EncodeToString buf, deadline (now s) ttl) # hs, ls_server = s'\<rparr>"
| refused: "buf \<notin> set used \<Longrightarrow> 0 \<le> ttl \<Longrightarrow>
     Acquire rc (Inr buf) key ttl s = (Inl e, s') \<Longrightarrow>
     lockStep rc entry now \<lparr>ls_used = used, ls_held = hs, ls_server = s\<rparr>
       \<lparr>ls_used = buf # used, ls_held = hs, ls_server = s'\<rparr>"
| released: "(key, token, d) \<in> set hs \<Longrightarrow>
     release rc (lockKeyPrefix @ key) token s = (x, s') \<Longrightarrow>
     lockStep rc entry now \<lparr>ls_used = used, ls_held = hs, ls_server = s\<rparr>
       \<lparr>ls_used = used, ls_held = removeAll (key, token, d) hs, ls_server = s'\<rparr>"
| passed: "elapses entry now s s' \<Longrightarrow>
     lockStep rc entry now \<lparr>ls_used = used, ls_held = hs, ls_server = s\<rparr>
       \<lparr>ls_used = used, ls_held = hs, ls_server = s'\<rparr>"

inductive_cases lockStepE: "lockStep rc entry now x y"

definition lockInv :: "('s \<Rightarrow> string \<rightharpoonup> lockEntry) \<Rightarrow> ('s \<Rightarrow> time) \<Rightarrow> 's lockSys \<Rightarrow> bool" where
  "lockInv entry now x \<longleftrightarrow>
     (\<forall>k t d. (k, t, d) \<in> set (ls_held x) \<longrightarrow> t \<in> EncodeToString ` set (ls_used x))
   \<and> (\<forall>k t d. (k, t, d) \<in> set (ls_held x) \<longrightarrow> unexpired (now (ls_server x)) d \<longrightarrow>
        entry (ls_server x) (lockKeyPrefix @ k) = Some (t, d))
   \<and> (\<forall>k t d k' d'. (k, t, d) \<in> set (ls_held x) \<longrightarrow> (k', t, d') \<in> set (ls_held x) \<longrightarrow> k = k' \<and> d = d')"

lemma unexpired_mono: "unexpired u d \<Longrightarrow> t \<le> u \<Longrightarrow> unexpired t d"
  by (auto simp: unexpired_def split: option.splits)

context lock_server
begin

lemma lockStep_inv: "lockStep rc entry now x y \<Longrightarrow> lockInv entry now x \<Longrightarrow> lockInv entry now y"
proof (induction rule: lockStep.induct)
  case (took buf used ttl key s rel s' hs)
  obtain token where "newToken (Inr buf) = Inr token" and e: "entry s (lockKeyPrefix @ key) = None" "now s' = now s"
    and "entry s' = (entry s)(lockKeyPrefix @ key \<mapsto> (token, deadline (now s) ttl))"
    by (rule Acquire_ok [OF took(3,2)])
  then have e3: "entry s' = (entry s)(lockKeyPrefix @ key \<mapsto> (EncodeToString buf, deadline (now s) ttl))"
    by (simp add: newToken_def)
  have "EncodeToString buf \<notin> EncodeToString ` set used" using took(1) EncodeToString_inject by blast
  with took(4) have old: "t \<in> EncodeToString ` set used" "t \<noteq> EncodeToString buf" if "(k, t, d) \<in> set hs" for k t d
    using that unfolding lockInv_def lockSys.simps by blast+
  have live: "entry s' (lockKeyPrefix @ k) = Some (t, d)" if "(k, t, d) \<in> set hs" "unexpired (now s') d" for k t d
  proof -
    have "entry s (lockKeyPrefix @ k) = Some (t, d)"
      using took(4) that e(2) unfolding lockInv_def lockSys.simps by metis
    with e(1) e3 show ?thesis by auto
  qed
  have uniq: "k = k' \<and> d = d'" if "(k, t, d) \<in> set hs" "(k', t, d') \<in> set hs" for k t d k' d'
    using took(4) that unfolding lockInv_def lockSys.simps by blast
  have "t \<in> EncodeToString ` set (buf # used)" if "(k, t, d) \<in> set ((key, EncodeToString buf, deadline (now s) ttl) # hs)" for k t d
    using that old(1) by auto
  moreover have "entry s' (lockKeyPrefix @ k) = Some (t, d)"
    if "(k, t, d) \<in> set ((key, EncodeToString buf, deadline (now s) ttl) # hs)" "unexpired (now s') d" for k t d
    using that(1) live [OF _ that(2)] by (cases "(k, t, d) \<in> set hs") (simp, simp add: e3)
  moreover have "k = k' \<and> d = d'"
    if "(k, t, d) \<in> set ((key, EncodeToString buf, deadline (now s) ttl) # hs)"
      "(k', t, d') \<in> set ((key, EncodeToString buf, deadline (now s) ttl) # hs)" for k t d k' d'
    using that old(2) [of k t d] old(2) [of k' t d'] uniq [of k t d k' d'] by auto
  ultimately show ?case unfolding lockInv_def lockSys.simps by blast
next
  case (refused buf used ttl key s e s' hs)
  from Acquire_err [OF refused(3,2)]
  have n: "now s' = now s" and "entry s' = entry s \<or> entry s (lockKeyPrefix @ key) = None
     \<and> entry s' = (entry s)(lockKeyPrefix @ key \<mapsto> (EncodeToString buf, deadline (now s) ttl))"
    by (auto simp: newToken_def)
  then have "entry s (lockKeyPrefix @ k) = Some v \<Longrightarrow> entry s' (lockKeyPrefix @ k) = Some v" for k v by auto
  with refused(4) n show ?case by (fastforce simp: lockInv_def)
next
  case (released key token d hs s x s' used)
  note inv = released(3) [unfolded lockInv_def lockSys.simps]
  have n: "now s' = now s" by (rule release_effect(1) [OF released(2)])
  have live: "entry s' (lockKeyPrefix @ k) = Some (t, d')"
    if h: "(k, t, d') \<in> set (removeAll (key, token, d) hs)" "unexpired (now s') d'" for k t d'
  proof (rule release_keeps_others [OF released(2)])
    show "entry s (lockKeyPrefix @ k) = Some (t, d')" using inv h n by simp
    have "t \<noteq> token"
    proof
      assume "t = token"
      with inv released(1) h(1) have "k = key \<and> d' = d" by (simp, blast)
      with h(1) \<open>t = token\<close> show False by simp
    qed
    then show "lockKeyPrefix @ k \<noteq> lockKeyPrefix @ key \<or> t \<noteq> token" by simp
  qed
  show ?case unfolding lockInv_def lockSys.simps
  proof (intro conjI)
    show "\<forall>k t d'. (k, t, d') \<in> set (removeAll (key, token, d) hs) \<longrightarrow> unexpired (now s') d' \<longrightarrow>
        entry s' (lockKeyPrefix @ k) = Some (t, d')" using live by blast
  qed (use inv in \<open>simp, blast\<close>)+
next
  case (passed s s' used hs)
  note inv = passed(2) [unfolded lockInv_def lockSys.simps]
  have "entry s' (lockKeyPrefix @ k) = Some (t, d)" if "(k, t, d) \<in> set hs" "unexpired (now s') d" for k t d
  proof -
    have "unexpired (now s) d" using unexpired_mono [OF that(2)] passed(1) by (simp add: elapses_def)
    with inv that(1) have "entry s (lockKeyPrefix @ k) = Some (t, d)" by blast
    with passed(1) that(2) show ?thesis by (simp add: elapses_def)
  qed
  with inv show ?case unfolding lockInv_def lockSys.simps by blast
qed

lemma lockSteps_inv:
  "(lockStep rc entry now)\<^sup>*\<^sup>* x y \<Longrightarrow> lockInv entry now x \<Longrightarrow> lockInv entry now y"
  by (induction rule: rtranclp_induct) (auto dest: lockStep_inv)

end

section \<open>A server\<close>

datatype redisFault = LostRequest | LostReply

record redisd =
  rd_keys :: "(string \<times> lockEntry) list"
  rd_now :: time
  rd_faults :: "redisFault option list"  \<comment> \<open>what happens to the next requests\<close>

definition redisEntry :: "redisd \<Rightarrow> string \<rightharpoonup> lockEntry" where
  "redisEntry m k = (case map_of (rd_keys m) k of
     None \<Rightarrow> None | Some (v, d) \<Rightarrow> if unexpired (rd_now m) d then Some (v, d) else None)"

text \<open>One request over the network.\<close>

definition request1 :: "(redisd, go_error, 'a) op \<Rightarrow> (redisd, go_error, 'a) op" where
  "request1 m = (\<lambda>s. case rd_faults s of
     [] \<Rightarrow> m s
   | None # fs \<Rightarrow> m (s\<lparr>rd_faults := fs\<rparr>)
   | Some LostRequest # fs \<Rightarrow> (Inl (DriverErr ''i/o timeout''), s\<lparr>rd_faults := fs\<rparr>)
   | Some LostReply # fs \<Rightarrow> (case m (s\<lparr>rd_faults := fs\<rparr>) of (x, s') \<Rightarrow> (Inl (DriverErr ''i/o timeout''), s')))"

definition srvSetNX :: "string \<Rightarrow> string \<Rightarrow> duration \<Rightarrow> (redisd, go_error, bool) op" where
  "srvSetNX k v ttl = (\<lambda>s.
     if ttl < 0 then (Inl (DriverErr ''ERR invalid expire time''), s)
     else if redisEntry s k \<noteq> None then (Inr False, s)
     else (Inr True, s\<lparr>rd_keys := put k (v, deadline (rd_now s) ttl) (rd_keys s)\<rparr>))"

definition redisServer :: "redisd RedisClient" where
  "redisServer = \<lparr>rc_SetNX = (\<lambda>k v ttl. request1 (srvSetNX k v ttl)),
     rc_get = (\<lambda>k s. (Inr (map_option fst (redisEntry s k)), s)),
     rc_del = (\<lambda>k s. (Inr (if redisEntry s k = None then 0 else 1), s\<lparr>rd_keys := drop_key k (rd_keys s)\<rparr>)),
     rc_Run = request1\<rparr>"

lemma redisEntry_faults [simp]: "redisEntry (s\<lparr>rd_faults := fs\<rparr>) = redisEntry s"
  by (simp add: redisEntry_def fun_eq_iff split: option.split)

lemma redisEntry_put: "redisEntry (s\<lparr>rd_keys := put k (v, d) (rd_keys s)\<rparr>) =
    (redisEntry s)(k := (if unexpired (rd_now s) d then Some (v, d) else None))"
  by (auto simp: redisEntry_def fun_eq_iff split: option.split)

lemma redisEntry_drop: "redisEntry (s\<lparr>rd_keys := drop_key k (rd_keys s)\<rparr>) = (redisEntry s)(k := None)"
  by (auto simp: redisEntry_def fun_eq_iff split: option.split)

lemma request1_cases:
  assumes "request1 m s = (x, s')"
  obtains (ran) s0 y where "redisEntry s0 = redisEntry s" "rd_now s0 = rd_now s" "m s0 = (y, s')" "x = y \<or> (\<exists>e. x = Inl e)"
    | (lost) e where "x = Inl e" "redisEntry s' = redisEntry s" "rd_now s' = rd_now s"
proof (cases "rd_faults s")
  case Nil
  with assms show thesis by (intro ran [of s x]) (simp_all add: request1_def)
next
  case (Cons f fs)
  let ?s = "s\<lparr>rd_faults := fs\<rparr>"
  obtain y t where m: "m ?s = (y, t)" by fastforce
  show thesis
  proof (cases f)
    case None
    with Cons assms show thesis by (intro ran [of ?s x]) (simp_all add: request1_def)
  next
    case (Some g)
    show thesis
    proof (cases g)
      case LostRequest
      with Cons Some assms show thesis by (intro lost) (auto simp: request1_def)
    next
      case LostReply
      with Cons Some assms m show thesis by (intro ran [of ?s y]) (auto simp: request1_def)
    qed
  qed
qed

lemma srvSetNX_effect:
  assumes "srvSetNX k v ttl s = (y, s')"
  shows "rd_now s' = rd_now s"
    and "y = Inr True \<Longrightarrow> 0 \<le> ttl \<Longrightarrow>
      redisEntry s k = None \<and> redisEntry s' = (redisEntry s)(k \<mapsto> (v, deadline (rd_now s) ttl))"
    and "y = Inr False \<Longrightarrow> redisEntry s k \<noteq> None"
    and "y \<noteq> Inr True \<Longrightarrow> s' = s"
  using assms by (cases "redisEntry s k"; auto simp: srvSetNX_def redisEntry_put unexpired_def deadline_def split: if_splits)+

interpretation rds: lock_server redisServer redisEntry rd_now
proof unfold_locales
  fix k v ttl s s' assume "rc_SetNX redisServer k v ttl s = (Inr True, s')" and t: "0 \<le> ttl"
  then have "request1 (srvSetNX k v ttl) s = (Inr True, s')" by (simp add: redisServer_def)
  then show "redisEntry s k = None \<and> redisEntry s' = (redisEntry s)(k \<mapsto> (v, deadline (rd_now s) ttl))"
    using t by (cases rule: request1_cases) (auto dest!: srvSetNX_effect(2))
next
  fix k v ttl s s' assume "rc_SetNX redisServer k v ttl s = (Inr False, s')"
  then have "request1 (srvSetNX k v ttl) s = (Inr False, s')" by (simp add: redisServer_def)
  then have "redisEntry s k \<noteq> None \<and> redisEntry s' = redisEntry s"
    by (cases rule: request1_cases) (auto dest: srvSetNX_effect(3,4))
  then show "redisEntry s k \<noteq> None \<and> redisEntry s' = redisEntry s
      \<or> redisEntry s k = None \<and> redisEntry s' = (redisEntry s)(k \<mapsto> (v, deadline (rd_now s) ttl))" ..
next
  fix k v ttl s e s' assume "rc_SetNX redisServer k v ttl s = (Inl e, s')" and t: "0 \<le> ttl"
  then have "request1 (srvSetNX k v ttl) s = (Inl e, s')" by (simp add: redisServer_def)
  then show "redisEntry s' = redisEntry s
      \<or> redisEntry s k = None \<and> redisEntry s' = (redisEntry s)(k \<mapsto> (v, deadline (rd_now s) ttl))"
  proof (cases rule: request1_cases)
    case (ran s0 y)
    then show ?thesis using srvSetNX_effect(2) [OF ran(3) _ t] srvSetNX_effect(4) [OF ran(3)]
      by (cases "y = Inr True") auto
  qed simp
next
  fix k v ttl s b s' assume "rc_SetNX redisServer k v ttl s = (b, s')"
  then have "request1 (srvSetNX k v ttl) s = (b, s')" by (simp add: redisServer_def)
  then show "rd_now s' = rd_now s" by (cases rule: request1_cases) (auto dest: srvSetNX_effect(1))
next
  fix script s x s' assume "rc_Run redisServer script s = (x, s')"
  then have "request1 script s = (x, s')" by (simp add: redisServer_def)
  then show "(\<exists>s0 y. redisEntry s0 = redisEntry s \<and> rd_now s0 = rd_now s \<and> script s0 = (y, s') \<and> (\<forall>n. x = Inr n \<longrightarrow> y = Inr n))
        \<or> (\<exists>e. x = Inl e) \<and> redisEntry s' = redisEntry s \<and> rd_now s' = rd_now s"
    by (cases rule: request1_cases) auto
qed (auto simp: redisServer_def redisEntry_drop)

section \<open>Properties\<close>

text \<open>
  C28: mutual exclusion.  Whatever the holders, releases, lost requests and replies and the
  passing of time so far: of two holders of the same key at most one is within its lifetime,
  and while one is, no Acquire of that key succeeds.
\<close>

theorem lock_mutual_exclusion:
  assumes "lock_server rc entry now"
    and "(lockStep rc entry now)\<^sup>*\<^sup>* \<lparr>ls_used = [], ls_held = [], ls_server = s0\<rparr> x"
    and "(k, t, d) \<in> set (ls_held x)" "unexpired (now (ls_server x)) d"
  shows "((k, t', d') \<in> set (ls_held x) \<and> unexpired (now (ls_server x)) d' \<longrightarrow> t' = t \<and> d' = d)
    \<and> (0 \<le> ttl \<longrightarrow> (\<exists>e. fst (Acquire rc drawn k ttl (ls_server x)) = Inl e))"
proof -
  have "lockInv entry now x"
    by (rule lock_server.lockSteps_inv [OF assms(1,2)]) (simp add: lockInv_def)
  then have held: "entry (ls_server x) (lockKeyPrefix @ k) = Some (u, e)"
    if "(k, u, e) \<in> set (ls_held x)" "unexpired (now (ls_server x)) e" for u e
    using that by (fastforce simp: lockInv_def)
  have "\<exists>e. fst (Acquire rc drawn k ttl (ls_server x)) = Inl e" if "0 \<le> ttl"
    using lock_server.Acquire_held [OF assms(1), of drawn k ttl "ls_server x"] held [OF assms(3,4)] that
    by (cases "Acquire rc drawn k ttl (ls_server x)") fastforce
  with held [OF assms(3,4)] held [of t' d'] show ?thesis by auto
qed

definition freshRedis :: redisd where
  "freshRedis = \<lparr>rd_keys = [], rd_now = 0, rd_faults = []\<rparr>"

definition lockedRedis :: redisd where
  "lockedRedis = \<lparr>rd_keys = [(''lock:job'', ''07'', Some 60)], rd_now = 0, rd_faults = []\<rparr>"

lemma hex7 [simp]: "EncodeToString [7] = ''07''"
  by (simp add: hexDigit_def)

lemma freshRedis_setnx: "rc_SetNX redisServer ''lock:job'' ''07'' 60 freshRedis = (Inr True, lockedRedis)"
  by (simp add: redisServer_def request1_def srvSetNX_def freshRedis_def lockedRedis_def redisEntry_def deadline_def)

lemma freshRedis_acquire:
  "Acquire redisServer (Inr [7]) ''job'' 60 freshRedis = (Inr (release redisServer ''lock:job'' ''07''), lockedRedis)"
  by (simp del: EncodeToString.simps
      add: Acquire_def newToken_def lockKeyPrefix_def Let_def freshRedis_setnx andThen_def mapErr_def)

theorem lock_mutual_exclusion_witness:
  "\<exists>e. fst (Acquire redisServer (Inr [9]) ''job'' 60 lockedRedis) = Inl e"
proof -
  have "lockStep redisServer redisEntry rd_now \<lparr>ls_used = [], ls_held = [], ls_server = freshRedis\<rparr>
      \<lparr>ls_used = [[7]], ls_held = [(''job'', ''07'', Some 60)], ls_server = lockedRedis\<rparr>"
    using lockStep.took [of "[7]" "[]" 60 redisServer "''job''" freshRedis _ lockedRedis redisEntry rd_now "[]"]
    by (simp del: EncodeToString.simps add: freshRedis_acquire deadline_def) (simp add: freshRedis_def)
  then have r: "(lockStep redisServer redisEntry rd_now)\<^sup>*\<^sup>* \<lparr>ls_used = [], ls_held = [], ls_server = freshRedis\<rparr>
      \<lparr>ls_used = [[7]], ls_held = [(''job'', ''07'', Some 60)], ls_server = lockedRedis\<rparr>" by blast
  from lock_mutual_exclusion [OF rds.lock_server_axioms r, of "''job''" "''07''" "Some 60" _ _ 60 "Inr [9]"]
  show ?thesis by (simp add: unexpired_def lockedRedis_def)
qed

text \<open>
  C29: release frees only the caller's acquisition.  A release, whether it succeeds or reports an
  error, changes no key but its own, and not even that when it holds another token (the lock
  expired and was taken over); when it reports success the token no longer holds the key.
\<close>

theorem release_frees_only_own:
  assumes "lock_server rc entry now" "release rc k token s = (x, s')"
  shows "(\<forall>j. j \<noteq> k \<longrightarrow> entry s' j = entry s j)
    \<and> ((\<nexists>d. entry s k = Some (token, d)) \<longrightarrow> entry s' = entry s)
    \<and> (x = Inr () \<longrightarrow> (\<nexists>d. entry s' k = Some (token, d)))"
  using lock_server.release_effect [OF assms] by auto

theorem release_frees_only_own_witness:
  "\<exists>x s'. release redisServer ''lock:job'' ''99'' lockedRedis = (x, s') \<and> redisEntry s' = redisEntry lockedRedis"
proof -
  obtain x s' where r: "release redisServer ''lock:job'' ''99'' lockedRedis = (x, s')" by fastforce
  have "\<nexists>d. redisEntry lockedRedis ''lock:job'' = Some (''99'', d)" by (simp add: redisEntry_def lockedRedis_def)
  with release_frees_only_own [OF rds.lock_server_axioms r] r show ?thesis by blast
qed

text \<open>
  A failed Acquire.  \<open>ErrLockNotAcquired\<close> is answered only when the key is held.  Any error
  leaves every key as it was, or (a reply was lost) has taken the free lock with a token for which
  no release function was returned: it stays locked until its lifetime ends.
\<close>

lemma acquire_errors:
  assumes "lock_server rc entry now" "0 \<le> ttl"
    and "\<forall>k v d t e' t'. rc_SetNX rc k v d t = (Inl e', t') \<longrightarrow> \<not> errorsIs e' ErrLockNotAcquired"
    and "Acquire rc (Inr buf) key ttl s = (Inl e, s')"
  shows "(errorsIs e ErrLockNotAcquired \<longrightarrow> entry s' (lockKeyPrefix @ key) \<noteq> None)
    \<and> (entry s' = entry s \<or> entry s (lockKeyPrefix @ key) = None
         \<and> entry s' = (entry s)(lockKeyPrefix @ key \<mapsto> (EncodeToString buf, deadline (now s) ttl)))"
proof -
  let ?k = "lockKeyPrefix @ key" and ?t = "EncodeToString buf"
  have "rc_SetNX rc ?k ?t ttl s = (Inr False, s')" if "errorsIs e ErrLockNotAcquired"
  proof (cases "rc_SetNX rc ?k ?t ttl s")
    case (Pair r u)
    with assms(4) show ?thesis
    proof (cases r)
      case (Inl e')
      with Pair assms(4) have "e = Wrapf ''lock: setnx %q: %w'' [?k] e'"
        by (simp add: Acquire_def newToken_def Let_def)
      moreover have "\<not> errorsIs e' ErrLockNotAcquired" using assms(3) Pair Inl by blast
      ultimately show ?thesis using that by (simp add: ErrLockNotAcquired_def)
    next
      case (Inr ok)
      with Pair assms(4) show ?thesis by (cases ok) (simp_all add: Acquire_def newToken_def Let_def)
    qed
  qed
  then have "entry s' ?k \<noteq> None" if "errorsIs e ErrLockNotAcquired"
    using lock_server.setnx_held [OF assms(1) _ assms(2), of ?k ?t s s'] that by auto
  moreover have "entry s' = entry s \<or> entry s ?k = None \<and> entry s' = (entry s)(?k \<mapsto> (?t, deadline (now s) ttl))"
    using lock_server.Acquire_err [OF assms(1) assms(4,2)] by (auto simp: newToken_def)
  ultimately show ?thesis by blast
qed

lemma acquire_errors_witness:
  "\<exists>e s'. Acquire redisServer (Inr [7]) ''job'' 60 (freshRedis\<lparr>rd_faults := [Some LostReply]\<rparr>) = (Inl e, s')
     \<and> \<not> errorsIs e ErrLockNotAcquired \<and> redisEntry s' ''lock:job'' = Some (''07'', Some 60)"
proof -
  let ?s = "freshRedis\<lparr>rd_faults := [Some LostReply]\<rparr>"
  have nx: "rc_SetNX redisServer ''lock:job'' ''07'' 60 ?s = (Inl (DriverErr ''i/o timeout''), lockedRedis)"
    by (simp add: redisServer_def request1_def srvSetNX_def freshRedis_def lockedRedis_def redisEntry_def deadline_def)
  let ?e = "Wrapf ''lock: setnx %q: %w'' [''lock:job''] (DriverErr ''i/o timeout'')"
  have a: "Acquire redisServer (Inr [7]) ''job'' 60 ?s = (Inl ?e, lockedRedis)"
    by (simp del: EncodeToString.simps add: Acquire_def newToken_def lockKeyPrefix_def Let_def nx andThen_def mapErr_def)
  have n: "\<forall>k v d t e' t'. rc_SetNX redisServer k v d t = (Inl e', t') \<longrightarrow> \<not> errorsIs e' ErrLockNotAcquired"
    by (auto simp: redisServer_def request1_def srvSetNX_def ErrLockNotAcquired_def
        split: list.splits option.splits redisFault.splits prod.splits if_splits)
  have v: "redisEntry lockedRedis ''lock:job'' = Some (''07'', Some 60)" "redisEntry ?s ''lock:job'' = None"
    by (simp_all add: redisEntry_def lockedRedis_def freshRedis_def unexpired_def)
  from acquire_errors [OF rds.lock_server_axioms _ n a] v a show ?thesis
    by (auto simp: lockKeyPrefix_def ErrLockNotAcquired_def)
qed

end
