(* ===== verification/Worker.thy ===== *)
theory Worker
  imports Lock Kafka Observe Config
begin

text \<open>
  The worker process (\<open>internal/apps/worker/worker.go\<close>): the housekeeping job guarded by the
  distributed lock and the consumer of account events.  The state is the process's metrics and
  log beside the outside world that the locker and the use case work on.
\<close>

section \<open>The code\<close>

record 's process =
  pr_Metrics :: Metrics
  pr_log :: "(string \<times> string) list"
  pr_ext :: 's

record 's workerParams =
  wp_Cfg :: WorkerConfig
  wp_AccountUC :: "'s AccountUseCase"
  wp_Locker :: "'s DistributedLocker"

definition onExt :: "('s, 'e, 'a) op \<Rightarrow> ('s process, 'e, 'a) op" where
  "onExt = onPart pr_ext (\<lambda>x p. p\<lparr>pr_ext := x\<rparr>)"

text \<open>\<open>p.Metrics.WorkerRuns.WithLabelValues(job, result).Inc()\<close> and one log record.\<close>

definition countRun :: "string \<Rightarrow> string \<Rightarrow> 's process \<Rightarrow> 's process" where
  "countRun job result s = s\<lparr>pr_Metrics := incWorkerRuns job result (pr_Metrics s)\<rparr>"

definition logRecord :: "string \<Rightarrow> string \<Rightarrow> 's process \<Rightarrow> 's process" where
  "logRecord msg arg s = s\<lparr>pr_log := pr_log s @ [(msg, arg)]\<rparr>"

definition housekeepingBody :: "(go_error \<Rightarrow> string) \<Rightarrow> 's workerParams \<Rightarrow> 's process \<Rightarrow> 's process" where
  "housekeepingBody foreign p s =
     (case onExt (uc_List (wp_AccountUC p)
                   \<lparr>lf_Status = Some AccountStatusActive, lf_Limit = 1000, lf_Offset = 0\<rparr>) s of
        (Inl err, s1) \<Rightarrow> countRun ''housekeeping'' ''error'' (logRecord ''housekeeping failed'' (foreign err) s1)
      | (Inr (_, n), s1) \<Rightarrow> countRun ''housekeeping'' ''ok'' (logRecord ''housekeeping complete (lock held)'' (Itoa n) s1))"

text \<open>The deferred release runs last and its error is dropped.\<close>

definition runHousekeeping :: "(go_error \<Rightarrow> string) \<Rightarrow> 's workerParams \<Rightarrow> 's process \<Rightarrow> 's process" where
  "runHousekeeping foreign p s =
     (case onExt (wp_Locker p (wc_LockKey (wp_Cfg p)) (wc_LockTTL (wp_Cfg p))) s of
        (Inl err, s1) \<Rightarrow> countRun ''housekeeping'' ''skipped'' s1
      | (Inr rel, s1) \<Rightarrow> snd (onExt rel (housekeepingBody foreign p s1)))"

text \<open>
  The job's goroutine: what \<open>select\<close> receives next, a tick or the end of the context.  An
  empty list is the goroutine waiting.
\<close>

datatype signal = Tick | Done

fun scheduledJob :: "(go_error \<Rightarrow> string) \<Rightarrow> 's workerParams \<Rightarrow> signal list \<Rightarrow> 's process \<Rightarrow> 's process" where
  "scheduledJob foreign p [] s = s"
| "scheduledJob foreign p (Done # sigs) s = s"
| "scheduledJob foreign p (Tick # sigs) s = scheduledJob foreign p sigs (runHousekeeping foreign p s)"

definition eventHandler :: "AccountEvent \<Rightarrow> ('s process, go_error, unit) op" where
  "eventHandler evt = (\<lambda>s. (Inr (), countRun ''event'' (ev_Type evt)
     (logRecord ''account event received'' (ev_AccountID evt) s)))"

section \<open>Lemmas\<close>

abbreviation runs :: "'s process \<Rightarrow> string \<Rightarrow> string \<Rightarrow> nat" where
  "runs s job result \<equiv> counter (WorkerRuns (pr_Metrics s)) (job, result)"

lemma countRun_simps [simp]:
  "runs (countRun j r s) j' r' = runs s j' r' + (if j' = j \<and> r' = r then 1 else 0)"
  "pr_ext (countRun j r s) = pr_ext s" "pr_log (countRun j r s) = pr_log s"
  by (auto simp: countRun_def incWorkerRuns_def)

lemma logRecord_simps [simp]:
  "pr_Metrics (logRecord m a s) = pr_Metrics s" "pr_ext (logRecord m a s) = pr_ext s"
  "pr_log (logRecord m a s) = pr_log s @ [(m, a)]"
  by (simp_all add: logRecord_def)

lemma onExt_apply: "onExt m s = (case m (pr_ext s) of (r, x) \<Rightarrow> (r, s\<lparr>pr_ext := x\<rparr>))"
  by (simp add: onExt_def onPart_def)

lemma onExt_result:
  "m (pr_ext s) = (r, x) \<Longrightarrow> onExt m s = (r, s\<lparr>pr_ext := x\<rparr>)"
  by (simp add: onExt_apply)

abbreviation takeLock :: "'s workerParams \<Rightarrow> ('s, go_error, 's releaseFunc) op" where
  "takeLock p \<equiv> wp_Locker p (wc_LockKey (wp_Cfg p)) (wc_LockTTL (wp_Cfg p))"

abbreviation countActive :: "'s workerParams \<Rightarrow> ('s, go_error, account list \<times> goint) op" where
  "countActive p \<equiv> uc_List (wp_AccountUC p) \<lparr>lf_Status = Some AccountStatusActive, lf_Limit = 1000, lf_Offset = 0\<rparr>"

text \<open>The three ways a tick ends.\<close>

lemma runHousekeeping_skipped:
  assumes "takeLock p (pr_ext s) = (Inl e, x)"
  shows "runHousekeeping foreign p s = countRun ''housekeeping'' ''skipped'' (s\<lparr>pr_ext := x\<rparr>)"
  by (simp add: runHousekeeping_def onExt_result [of "takeLock p" s "Inl e" x, OF assms])

lemma runHousekeeping_held:
  assumes "takeLock p (pr_ext s) = (Inr rel, x)"
    and "countActive p x = (r, y)"
    and "rel y = (u, z)"
  shows "pr_ext (runHousekeeping foreign p s) = z"
    and "pr_Metrics (runHousekeeping foreign p s)
      = incWorkerRuns ''housekeeping'' (case r of Inl _ \<Rightarrow> ''error'' | Inr _ \<Rightarrow> ''ok'') (pr_Metrics s)"
proof -
  let ?s = "s\<lparr>pr_ext := x\<rparr>"
  have "countActive p (pr_ext ?s) = (r, y)"
    using assms(2) by simp
  note b = onExt_result [of "countActive p" ?s r y, OF this]
  have body: "pr_ext (housekeepingBody foreign p ?s) = y"
    "pr_Metrics (housekeepingBody foreign p ?s)
      = incWorkerRuns ''housekeeping'' (case r of Inl _ \<Rightarrow> ''error'' | Inr _ \<Rightarrow> ''ok'') (pr_Metrics s)"
    by (auto simp: housekeepingBody_def b countRun_def split: sum.splits)
  have "runHousekeeping foreign p s = snd (onExt rel (housekeepingBody foreign p ?s))"
    by (simp only: runHousekeeping_def onExt_result [of "takeLock p" s "Inr rel" x, OF assms(1)] prod.case sum.case)
  with body assms(3) show "pr_ext (runHousekeeping foreign p s) = z"
    "pr_Metrics (runHousekeeping foreign p s)
      = incWorkerRuns ''housekeeping'' (case r of Inl _ \<Rightarrow> ''error'' | Inr _ \<Rightarrow> ''ok'') (pr_Metrics s)"
    by (simp_all add: onExt_apply)
qed

lemma housekeeping_counts_once:
  "\<exists>r \<in> {''ok'', ''error'', ''skipped''}.
     WorkerRuns (pr_Metrics (runHousekeeping foreign p s)) = inc (WorkerRuns (pr_Metrics s)) (''housekeeping'', r)"
proof -
  obtain l x where l: "takeLock p (pr_ext s) = (l, x)" by fastforce
  show ?thesis
  proof (cases l)
    case (Inl e)
    with l runHousekeeping_skipped [of p s e x foreign] show ?thesis by (simp add: countRun_def incWorkerRuns_def)
  next
    case (Inr rel)
    obtain r y where "countActive p x = (r, y)"
      by fastforce
    moreover obtain u z where "rel y = (u, z)" by fastforce
    ultimately show ?thesis
      using runHousekeeping_held(2) [of p s rel x r y u z foreign] l Inr
      by (cases r) (simp_all add: incWorkerRuns_def)
  qed
qed

lemma deliverAll_events:
  "runs (deliverAll dec eventHandler vs s) ''event'' t
     = runs s ''event'' t + length (filter (\<lambda>v. \<exists>e. dec v = Inr e \<and> ev_Type e = t) vs)"
  by (induction vs arbitrary: s) (auto simp: deliverAll_def eventHandler_def split: sum.split)

section \<open>Properties\<close>

text \<open>
  C33: one tick of the housekeeping job over the Redis lock.  It is counted exactly once, as ok,
  error or skipped.  While the lock is held it is skipped and the lock left alone; and whatever
  happens it touches no other key.
\<close>

theorem housekeeping_tick:
  assumes "lock_server rc entry now" "0 \<le> wc_LockTTL (wp_Cfg p)"
    and "wp_Locker p = Acquire rc (Inr buf)"
    and "\<forall>f. keeps entry (uc_List (wp_AccountUC p) f)"
    and "k = lockKeyPrefix @ wc_LockKey (wp_Cfg p)" "t = runHousekeeping foreign p s"
  shows "(\<exists>r \<in> {''ok'', ''error'', ''skipped''}.
        WorkerRuns (pr_Metrics t) = inc (WorkerRuns (pr_Metrics s)) (''housekeeping'', r))
    \<and> (entry (pr_ext s) k \<noteq> None \<longrightarrow> entry (pr_ext t) = entry (pr_ext s)
        \<and> WorkerRuns (pr_Metrics t) = inc (WorkerRuns (pr_Metrics s)) (''housekeeping'', ''skipped''))
    \<and> (\<forall>j. j \<noteq> k \<longrightarrow> entry (pr_ext t) j = entry (pr_ext s) j)"
proof -
  obtain l x where l: "takeLock p (pr_ext s) = (l, x)" by fastforce
  then have a: "Acquire rc (Inr buf) (wc_LockKey (wp_Cfg p)) (wc_LockTTL (wp_Cfg p)) (pr_ext s) = (l, x)"
    by (simp add: assms(3))
  have once: "\<exists>r \<in> {''ok'', ''error'', ''skipped''}.
        WorkerRuns (pr_Metrics t) = inc (WorkerRuns (pr_Metrics s)) (''housekeeping'', r)"
    unfolding assms(6) by (rule housekeeping_counts_once)
  show ?thesis
  proof (cases l)
    case (Inl e)
    with l have t: "t = countRun ''housekeeping'' ''skipped'' (s\<lparr>pr_ext := x\<rparr>)"
      unfolding assms(6) by (simp add: runHousekeeping_skipped)
    have "entry x = entry (pr_ext s)" if "entry (pr_ext s) k \<noteq> None"
      using lock_server.Acquire_held [OF assms(1) a _ assms(2)] that assms(5) by auto
    moreover have "entry x j = entry (pr_ext s) j" if "j \<noteq> k" for j
      using lock_server.Acquire_err [OF assms(1) a [unfolded Inl] assms(2)] that assms(5) by fastforce
    moreover have "pr_ext t = x" "WorkerRuns (pr_Metrics t) = inc (WorkerRuns (pr_Metrics s)) (''housekeeping'', ''skipped'')"
      unfolding t by (simp_all add: countRun_def incWorkerRuns_def)
    ultimately show ?thesis using once by simp
  next
    case (Inr rel)
    obtain token where k: "rel = release rc k token" "entry (pr_ext s) k = None"
      "entry x = (entry (pr_ext s))(k \<mapsto> (token, deadline (now (pr_ext s)) (wc_LockTTL (wp_Cfg p))))"
      unfolding assms(5) by (rule lock_server.Acquire_ok [OF assms(1) a [unfolded Inr] assms(2)])
    obtain r y where y: "countActive p x = (r, y)" by fastforce
    obtain u z where z: "rel y = (u, z)" by fastforce
    have "entry y = entry x" using assms(4) y by (blast dest: keepsD)
    moreover have "entry z j = entry y j" if "j \<noteq> k" for j
      using lock_server.release_effect(2) [OF assms(1) z [unfolded k(1)]] that by auto
    moreover have "pr_ext t = z" unfolding assms(6) by (rule runHousekeeping_held(1) [OF l [unfolded Inr] y z])
    ultimately show ?thesis using once k(2,3) by simp
  qed
qed

definition idleUC :: "'s AccountUseCase" where
  "idleUC = \<lparr>uc_Create = (\<lambda>_. throw Canceled), uc_Get = (\<lambda>_. throw Canceled), uc_List = (\<lambda>_. ret ([], 0)),
     uc_Update = (\<lambda>_. throw Canceled), uc_Delete = (\<lambda>_. throw Canceled)\<rparr>"

definition sampleWorker :: "redisd workerParams" where
  "sampleWorker = \<lparr>wp_Cfg = \<lparr>wc_Interval = 30, wc_LockTTL = 60, wc_LockKey = ''job''\<rparr>, wp_AccountUC = idleUC,
     wp_Locker = Acquire redisServer (Inr [9])\<rparr>"

definition sampleProcess :: "redisd \<Rightarrow> redisd process" where
  "sampleProcess r = \<lparr>pr_Metrics = newMetrics, pr_log = [], pr_ext = r\<rparr>"

theorem housekeeping_tick_witness:
  "WorkerRuns (pr_Metrics (runHousekeeping (\<lambda>_. []) sampleWorker (sampleProcess lockedRedis)))
     = inc (WorkerRuns newMetrics) (''housekeeping'', ''skipped'')"
proof -
  have e: "redisEntry (pr_ext (sampleProcess lockedRedis)) (lockKeyPrefix @ wc_LockKey (wp_Cfg sampleWorker)) \<noteq> None"
    by (simp add: sampleProcess_def sampleWorker_def lockKeyPrefix_def lockedRedis_def redisEntry_def unexpired_def)
  have k: "\<forall>f. keeps redisEntry (uc_List (wp_AccountUC sampleWorker) f)"
    by (simp add: sampleWorker_def idleUC_def keeps_intros)
  have w: "0 \<le> wc_LockTTL (wp_Cfg sampleWorker)" "wp_Locker sampleWorker = Acquire redisServer (Inr [9])"
    by (simp_all add: sampleWorker_def)
  from housekeeping_tick [OF rds.lock_server_axioms w k refl refl] e show ?thesis
    by (simp add: sampleProcess_def)
qed

text \<open>
  The event consumer.  Running the worker's consumer over a partition counts every message it passed
  that decodes once under its type, counts nothing else, and calls nothing outside the process.
\<close>

lemma events_counted:
  assumes "handled_partition c plog pos com hst eventHandler"
  shows "\<exists>r t. Run c s = Some (r, t)
    \<and> (\<forall>ty. runs (hst t) ''event'' ty = runs (hst s) ''event'' ty
         + length (filter (\<lambda>v. \<exists>e. co_unmarshal c v = Inr e \<and> ev_Type e = ty) (take (pos t - pos s) (drop (pos s) (plog s)))))
    \<and> pr_ext (hst t) = pr_ext (hst s)"
proof -
  from handled_partition.Run_delivers [OF assms] obtain r t where t: "Run c s = Some (r, t)"
    "hst t = deliverAll (co_unmarshal c) eventHandler (take (pos t - pos s) (drop (pos s) (plog s))) (hst s)" by blast
  have "pr_ext (deliverAll dec eventHandler vs s) = pr_ext s" for dec vs s
    by (induction vs arbitrary: s) (auto simp: deliverAll_def eventHandler_def split: sum.split)
  with t show ?thesis by (auto simp: deliverAll_events)
qed

definition oneEvent :: "string \<Rightarrow> go_error + AccountEvent" where
  "oneEvent v = (if v = ''{}'' then Inr \<lparr>ev_Type = AccountEventDeleted, ev_AccountID = ''u1'', ev_OccurredAt = 0\<rparr>
                 else Inl (ErrorString ''unexpected end of JSON input''))"

definition eventBroker :: "redisd process broker" where
  "eventBroker = \<lparr>bk_log = [''{}'', ''{'', ''{}''], bk_pos = 0, bk_com = 0, bk_commits = [], bk_errors = [],
     bk_handler = sampleProcess freshRedis\<rparr>"

lemma events_counted_witness:
  "\<exists>r t. Run (brokerConsumer oneEvent eventHandler) eventBroker = Some (r, t)
     \<and> runs (bk_handler t) ''event'' AccountEventDeleted
       = length (filter (\<lambda>v. v = ''{}'') (take (bk_pos t) [''{}'', ''{'', ''{}'']))"
proof -
  from events_counted [OF bkh.handled_partition_axioms [of oneEvent eventHandler], of eventBroker]
  obtain r t where t: "Run (brokerConsumer oneEvent eventHandler) eventBroker = Some (r, t)"
    "\<forall>ty. runs (bk_handler t) ''event'' ty = runs (bk_handler eventBroker) ''event'' ty
       + length (filter (\<lambda>v. \<exists>e. oneEvent v = Inr e \<and> ev_Type e = ty)
           (take (bk_pos t - bk_pos eventBroker) (drop (bk_pos eventBroker) (bk_log eventBroker))))"
    by (auto simp: brokerConsumer_def NewConsumer_def)
  moreover have "runs (bk_handler eventBroker) ''event'' AccountEventDeleted = 0"
    by (simp add: eventBroker_def sampleProcess_def newMetrics_def counter_def)
  moreover have "(\<lambda>v. \<exists>e. oneEvent v = Inr e \<and> ev_Type e = AccountEventDeleted) = (\<lambda>v. v = ''{}'')"
    by (auto simp: oneEvent_def fun_eq_iff)
  moreover have "bk_pos eventBroker = 0" "bk_log eventBroker = [''{}'', ''{'', ''{}'']" by (simp_all add: eventBroker_def)
  ultimately show ?thesis by auto
qed

end
