(* ===== verification/Migrate.thy ===== *)
theory Migrate
  imports Config Observe
begin

text \<open>
  Database migrations (\<open>internal/infra/db/migrate.go\<close>, \<open>internal/apps/migrate\<close>) and the opening
  of the GORM connection that runs them at boot (\<open>apps.NewGormDB\<close>).  golang-migrate, gorm.Open
  and database/sql are parameters; what the code relies on of the migrator is a locale.
\<close>

section \<open>RunMigrations\<close>

record ('s, 'src, 'drv, 'm) MigrateLib =
  ml_iofsNew :: "('s, go_error, 'src) op"
  ml_WithInstance :: "('s, go_error, 'drv) op"
  ml_NewWithInstance :: "string \<Rightarrow> 'src \<Rightarrow> string \<Rightarrow> 'drv \<Rightarrow> ('s, go_error, 'm) op"
  ml_Migrate :: "'m \<Rightarrow> 64 word \<Rightarrow> ('s, go_error, unit) op"
  ml_Up :: "'m \<Rightarrow> ('s, go_error, unit) op"

definition ErrNoChange :: go_error where
  "ErrNoChange = ErrorString ''no change''"

text \<open>\<open>err = m(); if err != nil && !errors.Is(err, ErrNoChange) { return wrap(err) }; return nil\<close>\<close>

definition unlessNoChange :: "('s, go_error, unit) op \<Rightarrow> ('s, go_error, unit) op" where
  "unlessNoChange m = (\<lambda>s.
     case m s of
       (Inl err, s') \<Rightarrow>
         if \<not> errorsIs err ErrNoChange then (Inl (Wrapf ''migrate: apply: %w'' [] err), s') else (Inr (), s')
     | (Inr _, s') \<Rightarrow> (Inr (), s'))"

definition RunMigrations :: "('s, 'src, 'drv, 'm) MigrateLib \<Rightarrow> 64 word \<Rightarrow> ('s, go_error, unit) op" where
  "RunMigrations ml version =
     andThen (mapErr (Wrapf ''migrate: iofs source: %w'' []) (ml_iofsNew ml))
       (\<lambda>src. andThen (mapErr (Wrapf ''migrate: postgres driver: %w'' []) (ml_WithInstance ml))
         (\<lambda>driver. andThen (mapErr (Wrapf ''migrate: new instance: %w'' []) (ml_NewWithInstance ml ''iofs'' src ''postgres'' driver))
           (\<lambda>m. unlessNoChange (if version > 0 then ml_Migrate ml m version else ml_Up ml m))))"

section \<open>The migrate command and the boot\<close>

record ('s, 'sql) SqlLib =
  sq_Open :: "string \<Rightarrow> string \<Rightarrow> ('s, go_error, 'sql) op"
  sq_Close :: "'sql \<Rightarrow> 's \<Rightarrow> 's"

text \<open>
  \<open>migrate.Run\<close>; \<open>ml\<close> is the migrator over the opened connection, and the deferred Close runs
  on every return after the opening.
\<close>

definition migrateRun ::
    "('s, 'sql) SqlLib \<Rightarrow> ('sql \<Rightarrow> ('s, 'src, 'drv, 'm) MigrateLib) \<Rightarrow> Config \<Rightarrow> ('s \<Rightarrow> 's) \<Rightarrow> ('s, go_error, unit) op" where
  "migrateRun sq ml cfg logApplied =
     andThen (mapErr (Wrapf ''open postgres: %w'' []) (sq_Open sq ''pgx'' (pg_DSN (cf_Postgres cfg))))
       (\<lambda>sqlDB s.
          case andThen (RunMigrations (ml sqlDB) (pg_MigrateVersion (cf_Postgres cfg)))
                 (\<lambda>_ s. (Inr (), logApplied s)) s of
            (r, s') \<Rightarrow> (r, sq_Close sq sqlDB s'))"

record ('s, 'db, 'sql) GormLib =
  gl_Open :: "string \<Rightarrow> slogLogger \<Rightarrow> bool \<Rightarrow> ('s, go_error, 'db) op"  \<comment> \<open>DSN, logger, \<open>TranslateError\<close>\<close>
  gl_DB :: "'db \<Rightarrow> ('s, go_error, 'sql) op"
  gl_SetMaxOpenConns :: "'sql \<Rightarrow> goint \<Rightarrow> 's \<Rightarrow> 's"
  gl_SetMaxIdleConns :: "'sql \<Rightarrow> goint \<Rightarrow> 's \<Rightarrow> 's"
  gl_SetConnMaxLifetime :: "'sql \<Rightarrow> duration \<Rightarrow> 's \<Rightarrow> 's"

definition NewGormDB ::
    "('s, 'db, 'sql) GormLib \<Rightarrow> ('sql \<Rightarrow> ('s, 'src, 'drv, 'm) MigrateLib) \<Rightarrow> Config \<Rightarrow> ('s, go_error, 'db) op" where
  "NewGormDB gl ml cfg =
     (let p = cf_Postgres cfg
      in andThen (gl_Open gl (pg_DSN p) (NewGormLogger ''warn'') True)
           (\<lambda>gormDB. andThen (gl_DB gl gormDB)
             (\<lambda>sqlDB. andThen
                (\<lambda>s. (Inr (), gl_SetConnMaxLifetime gl sqlDB (pg_ConnMaxLifetime p)
                   (gl_SetMaxIdleConns gl sqlDB (pg_MaxIdleConns p) (gl_SetMaxOpenConns gl sqlDB (pg_MaxOpenConns p) s))))
                (\<lambda>_. if pg_Migrate p
                     then andThen (RunMigrations (ml sqlDB) (pg_MigrateVersion p)) (\<lambda>_. ret gormDB)
                     else ret gormDB))))"

section \<open>What the code relies on of the migrator\<close>

text \<open>
  \<open>ver s\<close> is the schema version of the database, \<open>latest\<close> that of the newest embedded
  migration.  Opening sources and drivers does not migrate; a successful Up or Migrate has
  reached its target, and \<open>ErrNoChange\<close> is reported exactly where the target was reached
  before, changing nothing.
\<close>

locale schema_migrator =
  fixes ml :: "('s, 'src, 'drv, 'm) MigrateLib" and ver :: "'s \<Rightarrow> nat" and latest :: nat
  assumes prepare: "keeps ver (ml_iofsNew ml)" "keeps ver (ml_WithInstance ml)" "keeps ver (ml_NewWithInstance ml a src b drv)"
    and up_ok: "ml_Up ml m s = (Inr u, s') \<Longrightarrow> ver s' = latest"
    and up_same: "ml_Up ml m s = (Inl e, s') \<Longrightarrow> errorsIs e ErrNoChange \<Longrightarrow> ver s = latest \<and> ver s' = ver s"
    and to_ok: "ml_Migrate ml m v s = (Inr u, s') \<Longrightarrow> ver s' = unat v"
    and to_same: "ml_Migrate ml m v s = (Inl e, s') \<Longrightarrow> errorsIs e ErrNoChange \<Longrightarrow> ver s = unat v \<and> ver s' = ver s"
begin

definition target :: "64 word \<Rightarrow> nat" where
  "target version = (if version > 0 then unat version else latest)"

lemma apply_ok:
  assumes "unlessNoChange (if version > 0 then ml_Migrate ml m version else ml_Up ml m) s = (Inr u, s')"
  shows "ver s' = target version"
  using assms
  by (cases "version > 0") (auto simp: unlessNoChange_def target_def split: prod.splits sum.splits if_splits
      dest: up_ok up_same to_ok to_same)

lemma RunMigrations_ok:
  assumes "RunMigrations ml version s = (Inr u, s')"
  shows "ver s' = target version"
  using assms by (auto simp: RunMigrations_def elim!: andThen_InrE dest: apply_ok)

lemma RunMigrations_err:
  assumes "RunMigrations ml version s = (Inl e, s')"
  shows "\<exists>f e0. e = Wrapf f [] e0"
  using assms
  by (auto simp: RunMigrations_def unlessNoChange_def elim!: andThen_InlE mapErr_InlE
      split: prod.splits sum.splits if_splits)

end

section \<open>A database\<close>

text \<open>The repository embeds one migration.  \<open>sc_faults\<close> are the errors of the next runs.\<close>

definition latestVersion :: nat where "latestVersion = 20260322000001"

record schemaDB =
  sc_ver :: nat
  sc_faults :: "string list"
  sc_conns :: "int list"  \<comment> \<open>connection settings, newest first\<close>

definition scGoto :: "nat \<Rightarrow> (schemaDB, go_error, unit) op" where
  "scGoto v = (\<lambda>s. case sc_faults s of
     f # fs \<Rightarrow> (Inl (DriverErr f), s\<lparr>sc_faults := fs\<rparr>)
   | [] \<Rightarrow> if v \<noteq> 0 \<and> v \<noteq> latestVersion then (Inl (ErrorString ''file does not exist''), s)
           else if sc_ver s = v then (Inl ErrNoChange, s) else (Inr (), s\<lparr>sc_ver := v\<rparr>))"

definition scLib :: "(schemaDB, unit, unit, unit) MigrateLib" where
  "scLib = \<lparr>ml_iofsNew = ret (), ml_WithInstance = ret (), ml_NewWithInstance = (\<lambda>_ _ _ _. ret ()),
     ml_Migrate = (\<lambda>_ v. scGoto (unat v)), ml_Up = (\<lambda>_. scGoto latestVersion)\<rparr>"

interpretation scm: schema_migrator scLib sc_ver latestVersion
  by unfold_locales
    (auto simp: scLib_def keeps_intros scGoto_def ErrNoChange_def split: list.splits if_splits)

section \<open>Properties\<close>

text \<open>
  Migrations reach their target.  When RunMigrations returns nil the schema is at the
  requested version (the newest for 0), whether anything had to be done or not, so a second run
  that returns nil changes nothing; any failure is returned wrapped.
\<close>

lemma run_migrations_reaches:
  assumes "schema_migrator ml ver latest"
  shows "(\<forall>s'. RunMigrations ml version s = (Inr (), s') \<longrightarrow>
        ver s' = (if version = 0 then latest else unat version)
        \<and> (\<forall>s''. RunMigrations ml version s' = (Inr (), s'') \<longrightarrow> ver s'' = ver s'))
    \<and> (\<forall>e s'. RunMigrations ml version s = (Inl e, s') \<longrightarrow> (\<exists>f e0. e = Wrapf f [] e0))"
proof -
  have t: "schema_migrator.target latest version = (if version = 0 then latest else unat version)"
    by (simp add: schema_migrator.target_def [OF assms] word_gt_0)
  show ?thesis
    using schema_migrator.RunMigrations_ok [OF assms] schema_migrator.RunMigrations_err [OF assms]
    unfolding t [symmetric] by metis
qed

definition newSchema :: schemaDB where
  "newSchema = \<lparr>sc_ver = 0, sc_faults = [], sc_conns = []\<rparr>"

lemma run_migrations_reaches_witness:
  "\<exists>s' s''. RunMigrations scLib 0 newSchema = (Inr (), s') \<and> RunMigrations scLib 0 s' = (Inr (), s'')
     \<and> sc_ver s' = 20260322000001 \<and> sc_ver s'' = sc_ver s'"
proof -
  let ?s = "newSchema\<lparr>sc_ver := latestVersion\<rparr>"
  have r: "RunMigrations scLib 0 newSchema = (Inr (), ?s)" "RunMigrations scLib 0 ?s = (Inr (), ?s)"
    by (simp_all add: RunMigrations_def scLib_def mapErr_def andThen_def unlessNoChange_def scGoto_def newSchema_def
        latestVersion_def ErrNoChange_def)
  with run_migrations_reaches [OF scm.schema_migrator_axioms, of 0 newSchema] show ?thesis
    by (auto simp: latestVersion_def)
qed

text \<open>
  The boot.  When NewGormDB returns a connection and migrating is configured, the schema is at
  the configured version; with it switched off the schema is as it was; the connection is opened
  with the configured DSN, driver errors translated and the logger at the warn level, whatever
  the process's own log level is.
\<close>

lemma new_gorm_db_schema:
  assumes "\<forall>q. schema_migrator (ml q) ver latest"
    and "\<forall>d l b. keeps ver (gl_Open gl d l b)" "\<forall>d. keeps ver (gl_DB gl d)"
    and "\<forall>q n t. ver (gl_SetMaxOpenConns gl q n t) = ver t \<and> ver (gl_SetMaxIdleConns gl q n t) = ver t"
    and "\<forall>q d t. ver (gl_SetConnMaxLifetime gl q d t) = ver t"
    and "NewGormDB gl ml cfg s = (Inr db, s')"
  shows "ver s' = (if pg_Migrate (cf_Postgres cfg)
      then (if pg_MigrateVersion (cf_Postgres cfg) = 0 then latest else unat (pg_MigrateVersion (cf_Postgres cfg)))
      else ver s)
    \<and> (\<exists>t. gl_Open gl (pg_DSN (cf_Postgres cfg)) \<lparr>sl_level = Warn, sl_slowQuery = 200000000\<rparr> True s = (Inr db, t))"
proof -
  let ?p = "cf_Postgres cfg"
  obtain s1 q s2 where o1: "gl_Open gl (pg_DSN ?p) (NewGormLogger ''warn'') True s = (Inr db, s1)"
    and o2: "gl_DB gl db s1 = (Inr q, s2)"
    and rest: "(if pg_Migrate ?p then andThen (RunMigrations (ml q) (pg_MigrateVersion ?p)) (\<lambda>_. ret db) else ret db)
        (gl_SetConnMaxLifetime gl q (pg_ConnMaxLifetime ?p)
           (gl_SetMaxIdleConns gl q (pg_MaxIdleConns ?p) (gl_SetMaxOpenConns gl q (pg_MaxOpenConns ?p) s2))) = (Inr db, s')"
    using assms(6) by (auto simp: NewGormDB_def Let_def elim!: andThen_InrE split: if_splits)
  have "ver s1 = ver s" "ver s2 = ver s1" using assms(2,3) o1 o2 by (blast dest: keepsD)+
  moreover have "NewGormLogger ''warn'' = \<lparr>sl_level = Warn, sl_slowQuery = 200000000\<rparr>"
    by (simp add: NewGormLogger_def gormParseLevel_def Millisecond_def)
  moreover have "ver s' = (if pg_MigrateVersion ?p = 0 then latest else unat (pg_MigrateVersion ?p))" if "pg_Migrate ?p"
    using rest that schema_migrator.RunMigrations_ok [OF assms(1) [rule_format]]
    by (auto simp: schema_migrator.target_def [OF assms(1) [rule_format]] word_gt_0 elim!: andThen_InrE)
  ultimately show ?thesis using rest o1 assms(4,5) by auto
qed

definition scGorm :: "(schemaDB, unit, unit) GormLib" where
  "scGorm = \<lparr>gl_Open = (\<lambda>_ _ _. ret ()), gl_DB = (\<lambda>_. ret ()),
     gl_SetMaxOpenConns = (\<lambda>_ n s. s\<lparr>sc_conns := sint n # sc_conns s\<rparr>),
     gl_SetMaxIdleConns = (\<lambda>_ n s. s\<lparr>sc_conns := sint n # sc_conns s\<rparr>),
     gl_SetConnMaxLifetime = (\<lambda>_ d s. s\<lparr>sc_conns := d # sc_conns s\<rparr>)\<rparr>"

lemma new_gorm_db_schema_witness:
  "\<exists>s'. NewGormDB scGorm (\<lambda>_. scLib) defaultConfig newSchema = (Inr (), s') \<and> sc_ver s' = 20260322000001"
proof -
  have "\<exists>s'. NewGormDB scGorm (\<lambda>_. scLib) defaultConfig newSchema = (Inr (), s')"
    by (simp add: NewGormDB_def Let_def defaultConfig_def scGorm_def RunMigrations_def scLib_def mapErr_def andThen_def
        unlessNoChange_def scGoto_def newSchema_def latestVersion_def)
  then obtain s' where r: "NewGormDB scGorm (\<lambda>_. scLib) defaultConfig newSchema = (Inr (), s')" by blast
  have "\<forall>q :: unit. schema_migrator scLib sc_ver latestVersion" using scm.schema_migrator_axioms by blast
  from new_gorm_db_schema [OF this _ _ _ _ r] r show ?thesis
    by (auto simp: scGorm_def keeps_intros defaultConfig_def latestVersion_def)
qed

end
