(* ===== verification/Wiring.thy ===== *)
theory Wiring
  imports Servers Worker Migrate
begin

text \<open>
  The composition root (\<open>internal/apps\<close>): the option lists of \<open>apps.New\<close>, the modules of the
  dependency graph with the types each constructor needs and provides, the active repository,
  and what each process appends to its lifecycle.  fx itself is outside; \<open>resolve\<close> says what
  any dependency injector can build from such a graph.
\<close>

section \<open>Options (\<open>container.go\<close>)\<close>

record 'x dependency =
  dep_provides :: "'x list"
  dep_supplies :: "'x list"
  dep_invokes :: "'x list"

type_synonym 'x Option = "'x dependency \<Rightarrow> 'x dependency"

definition WithProvides :: "'x list \<Rightarrow> 'x Option" where
  "WithProvides provides d = d\<lparr>dep_provides := dep_provides d @ provides\<rparr>"

definition WithSupplies :: "'x list \<Rightarrow> 'x Option" where
  "WithSupplies supplies d = d\<lparr>dep_supplies := dep_supplies d @ supplies\<rparr>"

definition WithInvokes :: "'x list \<Rightarrow> 'x Option" where
  "WithInvokes invokes d = d\<lparr>dep_invokes := dep_invokes d @ invokes\<rparr>"

record 'x fxApp =
  fx_StartTimeout :: duration
  fx_StopTimeout :: duration
  fx_Provide :: "'x list"
  fx_Supply :: "'x list"
  fx_Invoke :: "'x list"

text \<open>\<open>asAny cfg\<close> is the configuration as a value of type \<open>any\<close>.\<close>

definition NewApp :: "(Config \<Rightarrow> 'x) \<Rightarrow> Config \<Rightarrow> 'x \<Rightarrow> 'x Option list \<Rightarrow> 'x fxApp" where
  "NewApp asAny cfg starter opts =
     (let d = fold (\<lambda>opt d. opt d) opts \<lparr>dep_provides = [], dep_supplies = [], dep_invokes = []\<rparr>;
          d = d\<lparr>dep_supplies := dep_supplies d @ [asAny cfg]\<rparr>;
          d = d\<lparr>dep_invokes := dep_invokes d @ [starter]\<rparr>
      in \<lparr>fx_StartTimeout = ac_StartTimeout (cf_App cfg), fx_StopTimeout = ac_StopTimeout (cf_App cfg),
          fx_Provide = dep_provides d, fx_Supply = dep_supplies d, fx_Invoke = dep_invokes d\<rparr>)"

section \<open>The dependency graph (\<open>provider.go\<close>)\<close>

text \<open>The types that travel through the graph.\<close>

datatype component =
    TLifecycle | TConfig | TLogger | TMetrics | TRedisClient | TAccountCache | TGormDB | TGormTxManager | TProvider
  | TTxManager | TAccountRepository | TPasswordService | TAccountUseCase | TDistributedLocker | TRateLimiter
  | THTTPHandler | TGRPCHandler

text \<open>A constructor: what it provides and the parameters it takes.\<close>

type_synonym provider = "component \<times> component list"

definition ObservabilityModule :: "provider list" where
  "ObservabilityModule = [(TLogger, [TConfig]), (TMetrics, [TConfig])]"

definition RedisModule :: "provider list" where
  "RedisModule = [(TRedisClient, [TLifecycle, TConfig])]"

definition CacheModule :: "provider list" where
  "CacheModule = [(TAccountCache, [TRedisClient])]"

definition StorageModule :: "provider list" where
  "StorageModule =
     [(TGormDB, [TConfig, TLogger]), (TGormTxManager, [TGormDB]), (TProvider, [TGormTxManager]),
      (TTxManager, [TGormTxManager]), (TAccountRepository, [TProvider, TAccountCache, TLogger])]"

definition ServiceModule :: "provider list" where
  "ServiceModule = [(TPasswordService, [])]"

definition UseCaseModule :: "provider list" where
  "UseCaseModule = [(TAccountUseCase, [TAccountRepository, TTxManager, TRateLimiter, TPasswordService, TLogger])]"

definition LockLimiterModule :: "provider list" where
  "LockLimiterModule = [(TDistributedLocker, [TRedisClient]), (TRateLimiter, [TRedisClient])]"

definition AllModules :: "provider list" where
  "AllModules = ObservabilityModule @ RedisModule @ CacheModule @ StorageModule @ ServiceModule
     @ UseCaseModule @ LockLimiterModule"

text \<open>What the invoked functions take: \<open>setupTracing\<close>, and \<open>run\<close> of the two processes.\<close>

definition tracingParams :: "component list" where
  "tracingParams = [TLifecycle, TConfig, TLogger]"

definition serverParams :: "component list" where
  "serverParams = [TLifecycle, TConfig, TLogger, TMetrics, THTTPHandler, TGRPCHandler, TRedisClient, TGormDB]"

definition serverProvides :: "provider list" where
  "serverProvides = [(THTTPHandler, [TAccountUseCase]), (TGRPCHandler, [TAccountUseCase])]"

definition workerRunParams :: "component list" where
  "workerRunParams = [TLifecycle, TConfig, TLogger, TMetrics, TAccountUseCase, TDistributedLocker, TRedisClient]"

text \<open>
  Rounds of building: each builds every constructor whose parameters are there.  A graph of
  \<open>n\<close> constructors is finished after \<open>n\<close> rounds.
\<close>

fun resolve :: "nat \<Rightarrow> provider list \<Rightarrow> component list \<Rightarrow> component list" where
  "resolve 0 ps got = got"
| "resolve (Suc n) ps got =
     resolve n ps (got @ map fst (filter (\<lambda>(t, needs). t \<notin> set got \<and> set needs \<subseteq> set got) ps))"

section \<open>Tracing\<close>

text \<open>
  The variable \<open>shutdown\<close> of \<open>setupTracing\<close> is a part of the state: nil until OnStart has
  initialised the tracer.
\<close>

record 's tracingState =
  ts_shutdown :: "('s, go_error, unit) op ptr"
  ts_ext :: 's

definition tracerConfig :: "Config \<Rightarrow> TracerConfig" where
  "tracerConfig cfg = \<lparr>tr_ServiceName = tc_ServiceName (cf_Telemetry cfg), tr_Environment = ac_Env (cf_App cfg),
     tr_OTLPEndpoint = tc_OTLPEndpoint (cf_Telemetry cfg), tr_SampleRatio = tc_SampleRatio (cf_Telemetry cfg),
     tr_Insecure = tc_Insecure (cf_Telemetry cfg)\<rparr>"

definition setupTracing ::
    "(TracerConfig \<Rightarrow> ('s, go_error, ('s, go_error, unit) op) op) \<Rightarrow> Config \<Rightarrow> 's tracingState lifecycle
       \<Rightarrow> 's tracingState lifecycle" where
  "setupTracing initTracer cfg lc =
     fxAppend lc
       (\<lambda>s. case initTracer (tracerConfig cfg) (ts_ext s) of
              (Inl err, x) \<Rightarrow> (Inl err, s\<lparr>ts_ext := x\<rparr>)
            | (Inr shutdown, x) \<Rightarrow> (Inr (), s\<lparr>ts_shutdown := Some shutdown, ts_ext := x\<rparr>))
       (\<lambda>s. case ts_shutdown s of
              Some shutdown \<Rightarrow> (case shutdown (ts_ext s) of (r, x) \<Rightarrow> (r, s\<lparr>ts_ext := x\<rparr>))
            | None \<Rightarrow> (Inr (), s))"

section \<open>The worker's lifecycle\<close>

text \<open>The two goroutines of the worker and what OnStop does to them.\<close>

record workerState =
  ws_consumerRunning :: bool
  ws_consumerCancelled :: bool
  ws_readerClosed :: bool
  ws_jobRunning :: bool
  ws_jobCancelled :: bool
  ws_tickerStopped :: bool

definition startEventConsumer :: "(workerState, go_error, unit) op \<Rightarrow> workerState lifecycle \<Rightarrow> workerState lifecycle" where
  "startEventConsumer closeReader lc =
     fxAppend lc (\<lambda>s. (Inr (), s\<lparr>ws_consumerRunning := True\<rparr>))
       (\<lambda>s. closeReader (s\<lparr>ws_consumerCancelled := True\<rparr>))"

definition startScheduledJob :: "workerState lifecycle \<Rightarrow> workerState lifecycle" where
  "startScheduledJob lc =
     fxAppend lc (\<lambda>s. (Inr (), s\<lparr>ws_jobRunning := True\<rparr>))
       (\<lambda>s. (Inr (), (s\<lparr>ws_tickerStopped := True\<rparr>)\<lparr>ws_jobCancelled := True\<rparr>))"

definition startProbeServer :: "workerState Lifecycled \<Rightarrow> workerState lifecycle \<Rightarrow> workerState lifecycle" where
  "startProbeServer probe lc = fxAppend lc (lc_Start probe) (lc_Stop probe)"

definition workerRun ::
    "workerState Lifecycled \<Rightarrow> (workerState, go_error, unit) op \<Rightarrow> workerState lifecycle \<Rightarrow> workerState lifecycle" where
  "workerRun probe closeReader lc = startScheduledJob (startEventConsumer closeReader (startProbeServer probe lc))"

section \<open>Lemmas\<close>

lemma resolve_mono: "set got \<subseteq> set (resolve n ps got)"
  by (induction n ps got rule: resolve.induct) auto

text \<open>Everything built was given or is the result of a constructor whose parameters were built.\<close>

lemma resolve_sound:
  "t \<in> set (resolve n ps got) \<Longrightarrow>
     t \<in> set got \<or> (\<exists>needs. (t, needs) \<in> set ps \<and> set needs \<subseteq> set (resolve n ps got))"
proof (induction n ps got rule: resolve.induct)
  case (2 n ps got)
  let ?new = "map fst (filter (\<lambda>(t, needs). t \<notin> set got \<and> set needs \<subseteq> set got) ps)"
  from "2.prems" have "t \<in> set (resolve n ps (got @ ?new))" by simp
  from "2.IH" [OF this] show ?case
  proof (elim disjE exE conjE)
    assume "t \<in> set (got @ ?new)"
    then consider "t \<in> set got" | needs where "(t, needs) \<in> set ps" "set needs \<subseteq> set got" by auto
    then show ?thesis
    proof cases
      case (2 needs)
      moreover have "set got \<subseteq> set (resolve n ps (got @ ?new))" using resolve_mono [of "got @ ?new" n ps] by auto
      ultimately have "set needs \<subseteq> set (resolve n ps (got @ ?new))" by blast
      with 2(1) show ?thesis by auto
    qed simp
  next
    fix needs assume "(t, needs) \<in> set ps" "set needs \<subseteq> set (resolve n ps (got @ ?new))"
    then show ?thesis by auto
  qed
qed simp

lemma fold_options:
  "fold (\<lambda>opt d. opt d) (map WithProvides ps) d = d\<lparr>dep_provides := dep_provides d @ concat ps\<rparr>"
  by (induction ps arbitrary: d) (simp_all add: WithProvides_def)

lemma NewApp_options:
  "NewApp asAny cfg starter (map WithProvides ps @ map WithSupplies ss @ map WithInvokes ivs) =
     \<lparr>fx_StartTimeout = ac_StartTimeout (cf_App cfg), fx_StopTimeout = ac_StopTimeout (cf_App cfg),
      fx_Provide = concat ps, fx_Supply = concat ss @ [asAny cfg], fx_Invoke = concat ivs @ [starter]\<rparr>"
proof -
  have "fold (\<lambda>opt d. opt d) (map WithSupplies ss) d = d\<lparr>dep_supplies := dep_supplies d @ concat ss\<rparr>" for d :: "'a dependency"
    by (induction ss arbitrary: d) (simp_all add: WithSupplies_def)
  moreover have "fold (\<lambda>opt d. opt d) (map WithInvokes ivs) d = d\<lparr>dep_invokes := dep_invokes d @ concat ivs\<rparr>" for d :: "'a dependency"
    by (induction ivs arbitrary: d) (simp_all add: WithInvokes_def)
  ultimately show ?thesis by (simp add: NewApp_def Let_def fold_options)
qed

section \<open>Properties\<close>

text \<open>
  The dependency graph is complete.  No type is provided twice; from the lifecycle and the
  supplied configuration alone, both processes can build every parameter of their invoked
  functions, and every constructor of the graph can be built: no type is missing and no
  constructors wait for each other.
\<close>

lemma wiring_complete:
  "distinct (map fst (AllModules @ serverProvides))
   \<and> TLifecycle \<notin> fst ` set (AllModules @ serverProvides) \<and> TConfig \<notin> fst ` set (AllModules @ serverProvides)
   \<and> set (tracingParams @ serverParams) \<union> fst ` set (AllModules @ serverProvides)
        \<subseteq> set (resolve 7 (AllModules @ serverProvides) [TLifecycle, TConfig])
   \<and> set (tracingParams @ workerRunParams) \<union> fst ` set AllModules
        \<subseteq> set (resolve 6 AllModules [TLifecycle, TConfig])"
  by (simp add: AllModules_def ObservabilityModule_def RedisModule_def CacheModule_def StorageModule_def
      ServiceModule_def UseCaseModule_def LockLimiterModule_def serverProvides_def tracingParams_def serverParams_def
      workerRunParams_def eval_nat_numeral)

end
