(* ===== verification/Process.thy ===== *)
theory Process
  imports Wiring
begin

text \<open>
  The processes from the command line to their last hook: \<open>main.go\<close>, \<open>cmd\<close>, the server's \<open>run\<close>
  with its readiness checks, the Redis client of \<open>provider.go\<close>, and the order in which what was
  started is stopped.  cobra and the lifecycle of fx are parameters; what the code relies on of
  them are the locales \<open>command_tree\<close> and \<open>fx_lifecycle\<close>.
\<close>

section \<open>Lifecycles\<close>

text \<open>
  fx starts hooks in the order they were appended and stops them in the reverse order, going on
  after a hook that fails to stop; if a hook fails to start, those before it are stopped.
\<close>

locale fx_lifecycle =
  fixes start :: "'s lifecycle \<Rightarrow> ('s, go_error, unit) op" and stop :: "'s lifecycle \<Rightarrow> 's \<Rightarrow> 's"
  assumes stop_Nil: "stop [] s = s" and stop_snoc: "stop (lc @ [h]) s = stop lc (snd (OnStop h s))"
    and start_Nil: "start [] s = (Inr (), s)"
    and start_snoc: "start (lc @ [h]) s = (case start lc s of
          (Inl e, s') \<Rightarrow> (Inl e, s')
        | (Inr _, s') \<Rightarrow> (case OnStart h s' of (Inl e, s'') \<Rightarrow> (Inl e, stop lc s'') | (Inr _, s'') \<Rightarrow> (Inr (), s'')))"
begin

lemma stop_append: "stop (a @ b) s = stop a (stop b s)"
  by (induction b arbitrary: s rule: rev_induct) (simp_all add: stop_Nil stop_snoc flip: append_assoc)

lemma stop_one: "stop [h] s = snd (OnStop h s)"
  using stop_snoc [of "[]" h s] by (simp add: stop_Nil)

lemma start_append: "start (a @ b) s = (case start a s of
     (Inl e, s') \<Rightarrow> (Inl e, s')
   | (Inr _, s') \<Rightarrow> (case start b s' of (Inl e, s'') \<Rightarrow> (Inl e, stop a s'') | (Inr _, s'') \<Rightarrow> (Inr (), s'')))"
  by (induction b arbitrary: s rule: rev_induct)
    (auto simp: start_Nil start_snoc stop_append split: prod.splits sum.splits simp flip: append_assoc)

text \<open>Hooks one by one: stopped from the last, and started from the first.\<close>

lemma hooks_stop: "stop [] s = s" "stop (h # hs) s = snd (OnStop h (stop hs s))"
  using stop_append [of "[h]" hs s] by (simp_all add: stop_Nil stop_one)

lemma start_one: "start [h] s = (case OnStart h s of (Inl e, s') \<Rightarrow> (Inl e, s') | (Inr _, s') \<Rightarrow> (Inr (), s'))"
  using start_snoc [of "[]" h s] by (auto simp: start_Nil stop_Nil split: prod.split sum.split)

lemma hooks_start: "start [] s = (Inr (), s)"
  "start (h # hs) s = (case OnStart h s of
     (Inl e, s') \<Rightarrow> (Inl e, s')
   | (Inr _, s') \<Rightarrow> (case start hs s' of (Inl e, s'') \<Rightarrow> (Inl e, snd (OnStop h s'')) | (Inr _, s'') \<Rightarrow> (Inr (), s'')))"
  using start_append [of "[h]" hs s] by (simp_all add: start_Nil start_one stop_one split: prod.split sum.split)

end

text \<open>The lifecycle as a function of the hooks.\<close>

definition stopHooks :: "'s lifecycle \<Rightarrow> 's \<Rightarrow> 's" where
  "stopHooks lc = fold (\<lambda>h s. snd (OnStop h s)) (rev lc)"

primrec startRev :: "'s lifecycle \<Rightarrow> ('s, go_error, unit) op" where
  "startRev [] = ret ()"
| "startRev (h # hs) = (\<lambda>s. case startRev hs s of
     (Inl e, s') \<Rightarrow> (Inl e, s')
   | (Inr _, s') \<Rightarrow> (case OnStart h s' of
       (Inl e, s'') \<Rightarrow> (Inl e, stopHooks (rev hs) s'') | (Inr _, s'') \<Rightarrow> (Inr (), s'')))"

definition startHooks :: "'s lifecycle \<Rightarrow> ('s, go_error, unit) op" where
  "startHooks lc = startRev (rev lc)"

interpretation hooks: fx_lifecycle startHooks stopHooks
  by unfold_locales (auto simp: startHooks_def stopHooks_def split: prod.split sum.split)

section \<open>The Redis client\<close>

record RedisOptions =
  ro_Addr :: string
  ro_Password :: string
  ro_DB :: goint
  ro_PoolSize :: goint

text \<open>A hook without an OnStart is one that does nothing.\<close>

definition NewRedisClient ::
    "(RedisOptions \<Rightarrow> 'c) \<Rightarrow> ('c \<Rightarrow> ('s, go_error, unit) op) \<Rightarrow> 's lifecycle \<Rightarrow> Config \<Rightarrow> 'c \<times> 's lifecycle" where
  "NewRedisClient newClient close lc cfg =
     (let client = newClient \<lparr>ro_Addr = rd_Addr (cf_Redis cfg), ro_Password = rd_Password (cf_Redis cfg),
                              ro_DB = rd_DB (cf_Redis cfg), ro_PoolSize = rd_PoolSize (cf_Redis cfg)\<rparr>
      in (client, lc @ [\<lparr>OnStart = ret (), OnStop = close client\<rparr>]))"

section \<open>The server's \<open>run\<close>\<close>

text \<open>The readiness checks by name.\<close>

definition serverChecks ::
    "('s, go_error, unit) op \<Rightarrow> ('s, go_error, 'sql) op \<Rightarrow> ('sql \<Rightarrow> ('s, go_error, unit) op)
       \<Rightarrow> (string \<times> ('s, go_error, unit) op) list" where
  "serverChecks redisPing gormDB pingContext =
     [(''redis'', redisPing),
      (''postgres'', andThen gormDB (\<lambda>sqlDB. pingContext sqlDB))]"

text \<open>Every check is asked, as the loop of ReadinessHandler does.\<close>

fun askChecks :: "(string \<times> ('s, go_error, unit) op) list \<Rightarrow> 's \<Rightarrow> (string \<times> go_error option) list \<times> 's" where
  "askChecks [] s = ([], s)"
| "askChecks ((name, check) # cs) s =
     (case check s of (r, s') \<Rightarrow> (case askChecks cs s' of
        (vs, s'') \<Rightarrow> ((name, case r of Inl e \<Rightarrow> Some e | Inr _ \<Rightarrow> None) # vs, s'')))"

text \<open>
  What the servers call outside: \<open>net.Listen\<close> on an address, and the \<open>Shutdown\<close> and \<open>GracefulStop\<close>
  of the server on an address.  Where in the process state the three servers are.
\<close>

record 's serverNet =
  nt_Listen :: "string \<Rightarrow> ('s, go_error, unit) op"
  nt_Shutdown :: "string \<Rightarrow> ('s, go_error, unit) op"
  nt_GracefulStop :: "string \<Rightarrow> 's \<Rightarrow> 's"

record 's serverParts =
  on_api :: "(serverState \<Rightarrow> serverState) \<Rightarrow> 's \<Rightarrow> 's"
  on_grpc :: "(serverState \<Rightarrow> serverState) \<Rightarrow> 's \<Rightarrow> 's"
  on_health :: "(serverState \<Rightarrow> serverState) \<Rightarrow> 's \<Rightarrow> 's"

definition httpLifecycled :: "'s serverNet \<Rightarrow> ((serverState \<Rightarrow> serverState) \<Rightarrow> 's \<Rightarrow> 's) \<Rightarrow> string \<Rightarrow> 's Lifecycled" where
  "httpLifecycled net srv addr = \<lparr>lc_Start = httpStart srv, lc_Stop = httpStop srv (nt_Shutdown net addr)\<rparr>"

definition grpcLifecycled :: "'s serverNet \<Rightarrow> ((serverState \<Rightarrow> serverState) \<Rightarrow> 's \<Rightarrow> 's) \<Rightarrow> string \<Rightarrow> 's Lifecycled" where
  "grpcLifecycled net srv addr = \<lparr>lc_Start = grpcStart srv (nt_Listen net addr), lc_Stop = grpcStop srv (nt_GracefulStop net addr)\<rparr>"

definition serverRun ::
    "go_error option \<Rightarrow> Config \<Rightarrow> (string \<Rightarrow> go_error + httpCreateRequest) \<Rightarrow> (string \<Rightarrow> go_error + httpUpdateRequest)
       \<Rightarrow> 'u AccountUseCase \<Rightarrow> 's serverNet \<Rightarrow> 's serverParts \<Rightarrow> 's lifecycle \<Rightarrow> (go_error + unit) \<times> 's lifecycle" where
  "serverRun validatorErr cfg bindCreate bindUpdate uc net parts lc =
     (let api = registerHTTP cfg bindCreate bindUpdate uc;
          lc = fxRegister lc (httpLifecycled net (on_api parts) (hs_addr (ap_server api)))
      in case registerGRPC validatorErr cfg of
           Inl err \<Rightarrow> (Inl err, lc)
         | Inr (srv, healthAddr, _) \<Rightarrow>
             (Inr (), fxRegister (fxRegister lc (grpcLifecycled net (on_grpc parts) (gs_addr srv)))
                        (httpLifecycled net (on_health parts) healthAddr)))"

text \<open>
  The hooks of the API process: fx runs the invoke of the observability module first, then builds
  the Redis client, which \<open>run\<close> takes, and then runs \<open>run\<close>.
\<close>

definition serverBoot ::
    "(TracerConfig \<Rightarrow> ('x, go_error, ('x, go_error, unit) op) op) \<Rightarrow> (RedisOptions \<Rightarrow> 'c)
       \<Rightarrow> ('c \<Rightarrow> ('x tracingState, go_error, unit) op) \<Rightarrow> go_error option \<Rightarrow> Config
       \<Rightarrow> (string \<Rightarrow> go_error + httpCreateRequest) \<Rightarrow> (string \<Rightarrow> go_error + httpUpdateRequest) \<Rightarrow> 'u AccountUseCase
       \<Rightarrow> 'x tracingState serverNet \<Rightarrow> 'x tracingState serverParts \<Rightarrow> (go_error + unit) \<times> 'x tracingState lifecycle" where
  "serverBoot initTracer newClient close validatorErr cfg bindCreate bindUpdate uc net parts =
     (let lc = setupTracing initTracer cfg [];
          (client, lc) = NewRedisClient newClient close lc cfg
      in serverRun validatorErr cfg bindCreate bindUpdate uc net parts lc)"

section \<open>The command line\<close>

record 's command =
  cm_Use :: string
  cm_Short :: string
  cm_RunE :: "('s, go_error, unit) op"  \<comment> \<open>the commands ignore their arguments\<close>

record 's rootCommand =
  rc_Use :: string
  rc_Short :: string
  rc_SilenceUsage :: bool
  rc_SilenceErrors :: bool
  rc_commands :: "'s command list"

text \<open>A process: its local time zone, what \<open>main\<close> logged and its exit status.\<close>

record 's osProcess =
  os_Local :: string
  os_log :: "go_error slogLine list"
  os_exit :: "nat option"
  os_rest :: 's

definition serverCmd :: "('s \<Rightarrow> 's) \<Rightarrow> 's command" where
  "serverCmd start = \<lparr>cm_Use = ''server'', cm_Short = ''Run the HTTP API + gRPC server'', cm_RunE = (\<lambda>s. (Inr (), start s))\<rparr>"

definition workerCmd :: "('s \<Rightarrow> 's) \<Rightarrow> 's command" where
  "workerCmd start = \<lparr>cm_Use = ''worker'', cm_Short = ''Run the background worker (Kafka consumer + scheduled jobs)'',
     cm_RunE = (\<lambda>s. (Inr (), start s))\<rparr>"

definition migrateCmd :: "('s, go_error, unit) op \<Rightarrow> 's command" where
  "migrateCmd run = \<lparr>cm_Use = ''migrate'', cm_Short = ''Apply database migrations and exit'', cm_RunE = run\<rparr>"

definition rootCmd :: "'s rootCommand" where
  "rootCmd = \<lparr>rc_Use = ''account-service'', rc_Short = ''Sample clean-architecture Go service (account domain)'',
     rc_SilenceUsage = True, rc_SilenceErrors = True, rc_commands = []\<rparr>"

definition cmdInit ::
    "'p command list \<Rightarrow> 'p rootCommand \<times> 's osProcess \<Rightarrow> 'p rootCommand \<times> 's osProcess" where
  "cmdInit cmds = (\<lambda>(root, p). (root\<lparr>rc_commands := rc_commands root @ cmds\<rparr>, p\<lparr>os_Local := ''UTC''\<rparr>))"

definition Execute :: "('p rootCommand \<Rightarrow> string list \<Rightarrow> ('p, go_error, unit) op) \<Rightarrow> 'p rootCommand \<Rightarrow> string list \<Rightarrow> ('p, go_error, unit) op" where
  "Execute cobraExecute root args = cobraExecute root args"

text \<open>
  From package initialisation to the end of \<open>main\<close>.  A start of fx that fails ends the process
  by itself: then what follows in \<open>main\<close> does not happen.
\<close>

definition goMain ::
    "(string \<Rightarrow> string) \<Rightarrow> ('s osProcess rootCommand \<Rightarrow> string list \<Rightarrow> ('s osProcess, go_error, unit) op) \<Rightarrow> 's osProcess command list
       \<Rightarrow> string list \<Rightarrow> 's osProcess \<Rightarrow> 's osProcess" where
  "goMain uni cobraExecute cmds args p =
     (case cmdInit cmds (rootCmd, p) of (root, p) \<Rightarrow>
      case Execute cobraExecute root args p of
        (r, p) \<Rightarrow>
          if os_exit p \<noteq> None then p
          else case r of
            Inl err \<Rightarrow> p\<lparr>os_log := slogRecord (NewSlogger uni ''main'' ''info'') LevelError ''application exited with error'' err (os_log p),
                os_exit := Some 1\<rparr>
          | Inr _ \<Rightarrow> p\<lparr>os_exit := Some 0\<rparr>)"

definition exitRecord :: "'e \<Rightarrow> 'e slogLine" where
  "exitRecord err = \<lparr>lr_component = ''main'', lr_level = LevelError, lr_msg = ''application exited with error'', lr_err = err\<rparr>"

lemma exit_logged:
  "slogRecord (NewSlogger uni ''main'' ''info'') LevelError ''application exited with error'' err out = out @ [exitRecord err]"
  by (cases "slogParseLevel uni ''info''") (simp_all add: slogRecord_def NewSlogger_def exitRecord_def)

text \<open>
  What the code relies on of cobra: the argument names the command; without one, help.  An empty
  argument counts as none, and cobra has commands of its own.
\<close>

abbreviation cobraOwn :: "string set" where
  "cobraOwn \<equiv> {[], ''help'', ''completion'', ''__complete'', ''__completeNoDesc''}"

locale command_tree =
  fixes execute :: "'s rootCommand \<Rightarrow> string list \<Rightarrow> ('s, go_error, unit) op"
  assumes runs: "c \<in> set (rc_commands r) \<Longrightarrow> distinct (map cm_Use (rc_commands r)) \<Longrightarrow> execute r [cm_Use c] = cm_RunE c"
    and bare: "execute r [] s = (Inr (), s)"
    and unknown: "a \<notin> cm_Use ` set (rc_commands r) \<Longrightarrow> a \<notin> cobraOwn \<Longrightarrow> take 1 a \<noteq> ''-'' \<Longrightarrow>
        \<exists>e. execute r [a] s = (Inl e, s)"

definition dispatch :: "'s rootCommand \<Rightarrow> string list \<Rightarrow> ('s, go_error, unit) op" where
  "dispatch r args = (case args of
     [] \<Rightarrow> ret ()
   | a # _ \<Rightarrow> (case find (\<lambda>c. cm_Use c = a) (rc_commands r) of
       Some c \<Rightarrow> cm_RunE c | None \<Rightarrow> throw (ErrorString (''unknown command '' @ a))))"

lemma find_Use: "c \<in> set cs \<Longrightarrow> distinct (map cm_Use cs) \<Longrightarrow> find (\<lambda>d. cm_Use d = cm_Use c) cs = Some c"
  by (induction cs) (auto simp: rev_image_eqI)

interpretation cli: command_tree dispatch
proof
  show "dispatch r [cm_Use c] = cm_RunE c" if "c \<in> set (rc_commands r)" "distinct (map cm_Use (rc_commands r))"
    for c and r :: "'s rootCommand"
    using find_Use [OF that] by (simp add: dispatch_def)
next
  show "\<exists>e. dispatch r [a] s = (Inl e, s)" if "a \<notin> cm_Use ` set (rc_commands r)" for a s and r :: "'s rootCommand"
  proof -
    from that have "find (\<lambda>c. cm_Use c = a) (rc_commands r) = None" by (auto simp: find_None_iff)
    then show ?thesis by (simp add: dispatch_def)
  qed
qed (simp add: dispatch_def)

definition commands :: "('s osProcess \<Rightarrow> 's osProcess) \<Rightarrow> ('s osProcess \<Rightarrow> 's osProcess) \<Rightarrow> ('s osProcess, go_error, unit) op \<Rightarrow> 's osProcess command list" where
  "commands server worker migrate = [serverCmd server, workerCmd worker, migrateCmd migrate]"

section \<open>Properties\<close>

text \<open>
  The API server is ready exactly when Redis answers the ping, the database handle can be had and
  the database answers; a failing check does not keep the others from being asked.
\<close>

lemma server_readiness:
  assumes "askChecks (serverChecks redisPing gormDB pingContext) s = (verdicts, s')"
  shows "(fst (readiness foreign verdicts) \<longleftrightarrow>
      (\<exists>u s1 db s2 v. redisPing s = (Inr u, s1) \<and> gormDB s1 = (Inr db, s2) \<and> pingContext db s2 = (Inr v, s')))
    \<and> map fst verdicts = [''redis'', ''postgres'']"
  using assms unfolding readiness_result
  by (auto simp: serverChecks_def andThen_def split: prod.splits sum.splits)

text \<open>What closing the API server, the Redis client and the tracer does, in this order.\<close>

definition bootRollback ::
    "('x tracingState, go_error, unit) op \<Rightarrow> Config \<Rightarrow> 'x tracingState serverNet \<Rightarrow> 'x tracingState serverParts
       \<Rightarrow> 'x tracingState \<Rightarrow> 'x tracingState" where
  "bootRollback closeRedis cfg net parts s =
     (let s = snd (nt_Shutdown net (ac_HTTPAddr (cf_App cfg)) (on_api parts (svLog ''http server stopping'') s));
          s = snd (closeRedis s)
      in case ts_shutdown s of None \<Rightarrow> s | Some shutdown \<Rightarrow> s\<lparr>ts_ext := snd (shutdown (ts_ext s))\<rparr>)"

lemma serverBoot_hooks:
  assumes "serverBoot initTracer newClient close None cfg bindCreate bindUpdate uc net parts = (r, lc)"
  obtains th c where "setupTracing initTracer cfg [] = [th]" "c = fst (NewRedisClient newClient close [th] cfg)" "r = Inr ()"
    "lc = [th, \<lparr>OnStart = ret (), OnStop = close c\<rparr>,
       \<lparr>OnStart = httpStart (on_api parts), OnStop = httpStop (on_api parts) (nt_Shutdown net (ac_HTTPAddr (cf_App cfg)))\<rparr>,
       \<lparr>OnStart = grpcStart (on_grpc parts) (nt_Listen net (ac_GRPCAddr (cf_App cfg))),
        OnStop = grpcStop (on_grpc parts) (nt_GracefulStop net (ac_GRPCAddr (cf_App cfg)))\<rparr>,
       \<lparr>OnStart = httpStart (on_health parts), OnStop = httpStop (on_health parts) (nt_Shutdown net (ac_GRPCHealthAddr (cf_App cfg)))\<rparr>]"
  using assms
  by (simp add: that serverBoot_def serverRun_def setupTracing_def fxAppend_def NewRedisClient_def Let_def fxRegister_def
      registerHTTP_def newHTTPServer_def registerGRPC_def newGRPCServer_def httpLifecycled_def grpcLifecycled_def
      WithReflection_def WithStatsHandler_def WithUnaryInterceptors_def)

text \<open>
  C38: booting and stopping the API process.  The tracer is initialised, the API server's goroutine
  started, and the gRPC port opened before the boot goes on.  If the port can be opened, the gRPC
  server reports SERVING and its health port is started.  If not, the boot fails with that very
  error, the gRPC server says nothing, and the API server, the Redis client and the tracer are
  shut down in this order.  On a shutdown the health port is drained first, then the gRPC server
  reports NOT_SERVING and is stopped, then the same three, whatever fails on the way.
\<close>

theorem server_lifecycle:
  assumes "fx_lifecycle start stop"
    and "serverBoot initTracer newClient close None cfg bindCreate bindUpdate uc net parts = (r, lc)"
    and "client = fst (NewRedisClient newClient close [] cfg)"
    and "initTracer (tracerConfig cfg) (ts_ext s) = (Inr shutdown, x)"
    and "on_api parts (svLog ''http server started'') (on_api parts (\<lambda>v. v\<lparr>sv_serving := True\<rparr>)
           (s\<lparr>ts_shutdown := Some shutdown, ts_ext := x\<rparr>)) = s1"
  shows "r = Inr ()
    \<and> (case nt_Listen net (ac_GRPCAddr (cf_App cfg)) s1 of
         (Inl e, s2) \<Rightarrow> start lc s = (Inl e, bootRollback (close client) cfg net parts s2)
       | (Inr _, s2) \<Rightarrow> start lc s = (Inr (), on_health parts (svLog ''http server started'') (on_health parts (\<lambda>v. v\<lparr>sv_serving := True\<rparr>)
           (on_grpc parts (svLog ''grpc server started'') (on_grpc parts (\<lambda>v. v\<lparr>sv_serving := True\<rparr>)
             (on_grpc parts (setServing SERVING) (on_grpc parts (\<lambda>v. v\<lparr>sv_listening := True\<rparr>) s2)))))))
    \<and> stop lc s = bootRollback (close client) cfg net parts (nt_GracefulStop net (ac_GRPCAddr (cf_App cfg))
         (on_grpc parts (setServing NOT_SERVING) (on_grpc parts (svLog ''grpc server stopping'')
           (snd (nt_Shutdown net (ac_GRPCHealthAddr (cf_App cfg)) (on_health parts (svLog ''http server stopping'') s))))))"
proof -
  from serverBoot_hooks [OF assms(2)] obtain th c where th: "setupTracing initTracer cfg [] = [th]"
    and c: "c = fst (NewRedisClient newClient close [th] cfg)" and r: "r = Inr ()"
    and lc: "lc = [th, \<lparr>OnStart = ret (), OnStop = close c\<rparr>,
       \<lparr>OnStart = httpStart (on_api parts), OnStop = httpStop (on_api parts) (nt_Shutdown net (ac_HTTPAddr (cf_App cfg)))\<rparr>,
       \<lparr>OnStart = grpcStart (on_grpc parts) (nt_Listen net (ac_GRPCAddr (cf_App cfg))),
        OnStop = grpcStop (on_grpc parts) (nt_GracefulStop net (ac_GRPCAddr (cf_App cfg)))\<rparr>,
       \<lparr>OnStart = httpStart (on_health parts), OnStop = httpStop (on_health parts) (nt_Shutdown net (ac_GRPCHealthAddr (cf_App cfg)))\<rparr>]"
    (is "_ = [_, ?rh, ?ah, ?gh, ?hh]") .
  have client: "c = client" by (simp add: c assms(3) NewRedisClient_def Let_def)
  have traced: "OnStart th s = (Inr (), s\<lparr>ts_shutdown := Some shutdown, ts_ext := x\<rparr>)"
    "snd (OnStop th t) = (case ts_shutdown t of None \<Rightarrow> t | Some f \<Rightarrow> t\<lparr>ts_ext := snd (f (ts_ext t))\<rparr>)" for t
    using th assms(4) by (auto simp: setupTracing_def fxAppend_def split: option.split prod.split)
  have api: "httpStart (on_api parts) (s\<lparr>ts_shutdown := Some shutdown, ts_ext := x\<rparr>) = (Inr (), s1)"
    by (simp add: httpStart_def assms(5))
  note fx = fx_lifecycle.hooks_start [OF assms(1)] fx_lifecycle.hooks_stop [OF assms(1)]
  have three: "snd (OnStop th (snd (close c (snd (httpStop (on_api parts) (nt_Shutdown net (ac_HTTPAddr (cf_App cfg))) t)))))
      = bootRollback (close client) cfg net parts t" for t
    by (simp add: traced(2) bootRollback_def httpStop_def client Let_def)
  have health: "httpStart (on_health parts) t =
      (Inr (), on_health parts (svLog ''http server started'') (on_health parts (\<lambda>v. v\<lparr>sv_serving := True\<rparr>) t))" for t
    by (simp add: httpStart_def)
  show ?thesis
  proof (intro conjI r)
    show "stop lc s = bootRollback (close client) cfg net parts (nt_GracefulStop net (ac_GRPCAddr (cf_App cfg))
         (on_grpc parts (setServing NOT_SERVING) (on_grpc parts (svLog ''grpc server stopping'')
           (snd (nt_Shutdown net (ac_GRPCHealthAddr (cf_App cfg)) (on_health parts (svLog ''http server stopping'') s))))))"
      unfolding three [symmetric] lc by (simp add: fx grpcStop_def httpStop_def [of "on_health parts"])
  qed (auto simp: fx three lc traced(1) api health grpcStart_def andThen_def Let_def split: prod.split sum.split)
qed

text \<open>A process that keeps a journal of what it calls, with the gRPC port in use.\<close>

record journalState =
  js_api :: serverState
  js_grpc :: serverState
  js_health :: serverState
  js_calls :: "string list"

definition journalParts :: "journalState tracingState serverParts" where
  "journalParts = \<lparr>on_api = (\<lambda>f s. s\<lparr>ts_ext := js_api_update f (ts_ext s)\<rparr>),
     on_grpc = (\<lambda>f s. s\<lparr>ts_ext := js_grpc_update f (ts_ext s)\<rparr>), on_health = (\<lambda>f s. s\<lparr>ts_ext := js_health_update f (ts_ext s)\<rparr>)\<rparr>"

definition say :: "string \<Rightarrow> journalState \<Rightarrow> journalState" where
  "say msg j = j\<lparr>js_calls := js_calls j @ [msg]\<rparr>"

abbreviation sayExt :: "string \<Rightarrow> journalState tracingState \<Rightarrow> journalState tracingState" where
  "sayExt msg s \<equiv> s\<lparr>ts_ext := say msg (ts_ext s)\<rparr>"

definition journalNet :: "journalState tracingState serverNet" where
  "journalNet = \<lparr>nt_Listen = (\<lambda>addr. throw (DriverErr ''address already in use'')),
     nt_Shutdown = (\<lambda>addr s. (Inr (), sayExt (''drained '' @ addr) s)), nt_GracefulStop = (\<lambda>addr. sayExt (''stopped '' @ addr))\<rparr>"

definition journalTracer :: "TracerConfig \<Rightarrow> (journalState, go_error, (journalState, go_error, unit) op) op" where
  "journalTracer cfg j = (Inr (\<lambda>j. (Inr (), say ''tracer flushed'' j)), say ''tracer started'' j)"

definition idleServer :: serverState where
  "idleServer = \<lparr>sv_serving = False, sv_listening = False, sv_health = Map.empty, sv_log = []\<rparr>"

definition journalLifecycle :: "journalState tracingState lifecycle" where
  "journalLifecycle = snd (serverBoot journalTracer (\<lambda>_. ()) (\<lambda>_ s. (Inr (), sayExt ''redis closed'' s)) None defaultConfig
     (\<lambda>_. Inr sampleBody) (\<lambda>_. Inl Canceled) (accountUseCase asciiOnly plainUC 7 ''u1'') journalNet journalParts)"

theorem server_lifecycle_witness:
  "\<exists>s'. startHooks journalLifecycle \<lparr>ts_shutdown = None, ts_ext = \<lparr>js_api = idleServer, js_grpc = idleServer, js_health = idleServer, js_calls = []\<rparr>\<rparr>
        = (Inl (DriverErr ''address already in use''), s')
     \<and> js_calls (ts_ext s') = [''tracer started'', ''drained '' @ ac_HTTPAddr (cf_App defaultConfig), ''redis closed'', ''tracer flushed'']
     \<and> sv_log (js_api (ts_ext s')) = [''http server started'', ''http server stopping''] \<and> js_grpc (ts_ext s') = idleServer"
proof -
  let ?j = "\<lparr>js_api = idleServer, js_grpc = idleServer, js_health = idleServer, js_calls = []\<rparr>"
  let ?s = "\<lparr>ts_shutdown = None, ts_ext = ?j\<rparr>" and ?close = "\<lambda>_ :: unit. \<lambda>s. (Inr (), sayExt ''redis closed'' s)"
  obtain r lc where boot: "serverBoot journalTracer (\<lambda>_. ()) ?close None defaultConfig (\<lambda>_. Inr sampleBody) (\<lambda>_. Inl Canceled)
      (accountUseCase asciiOnly plainUC 7 ''u1'') journalNet journalParts = (r, lc)" by fastforce
  then have lc: "lc = journalLifecycle" by (simp add: journalLifecycle_def)
  have tr: "journalTracer (tracerConfig defaultConfig) (ts_ext ?s) = (Inr (\<lambda>j. (Inr (), say ''tracer flushed'' j)), say ''tracer started'' ?j)"
    by (simp add: journalTracer_def)
  from server_lifecycle [OF hooks.fx_lifecycle_axioms boot refl tr refl] show ?thesis
    by (simp add: lc journalNet_def bootRollback_def journalParts_def say_def idleServer_def svLog_def Let_def)
qed

text \<open>\<open>migrate\<close> as a command: what the migrations leave, and what a failure leaves.\<close>

lemma migrateRun_ok:
  assumes "\<forall>q. schema_migrator (ml q) ver latest" "\<forall>s. ver (logApplied s) = ver s" "\<forall>q s. ver (sq_Close sq q s) = ver s"
    and "migrateRun sq ml cfg logApplied s = (Inr u, s')"
  shows "ver s' = schema_migrator.target latest (pg_MigrateVersion (cf_Postgres cfg))"
proof -
  from assms(4) obtain q s1 s2 v where m: "RunMigrations (ml q) (pg_MigrateVersion (cf_Postgres cfg)) s1 = (Inr v, s2)"
    and s': "s' = sq_Close sq q (logApplied s2)"
    by (auto simp: migrateRun_def elim!: andThen_InrE split: prod.splits)
  from assms(1) have "schema_migrator (ml q) ver latest" by blast
  from schema_migrator.RunMigrations_ok [OF this m] show ?thesis by (simp add: s' assms(2,3))
qed

abbreviation onRest :: "('s, go_error, 'a) op \<Rightarrow> ('s osProcess, go_error, 'a) op" where
  "onRest \<equiv> onPart os_rest (\<lambda>x p. p\<lparr>os_rest := x\<rparr>)"

text \<open>
  C39: the exit status.  \<open>account-service migrate\<close> exits with 0 exactly if the migrations returned
  nil, and then the schema is at the configured version (the newest for 0); otherwise it logs the
  error once and exits with 1.  An unknown command exits with 1 and without one it exits with 0,
  both having done nothing.  Every process runs in UTC.
\<close>

theorem process_exit_code:
  assumes "command_tree execute" "\<forall>q. schema_migrator (ml q) ver latest"
    and "\<forall>s. ver (logApplied s) = ver s" "\<forall>q s. ver (sq_Close sq q s) = ver s"
    and "os_exit p = None" "cmds = commands server worker (onRest (migrateRun sq ml cfg logApplied))"
    and "a \<notin> {''server'', ''worker'', ''migrate''} \<union> cobraOwn" "take 1 a \<noteq> ''-''"
  shows "(case migrateRun sq ml cfg logApplied (os_rest p) of
        (Inr _, s') \<Rightarrow> goMain uni execute cmds [''migrate''] p = p\<lparr>os_Local := ''UTC'', os_exit := Some 0, os_rest := s'\<rparr>
          \<and> ver s' = (if pg_MigrateVersion (cf_Postgres cfg) = 0 then latest else unat (pg_MigrateVersion (cf_Postgres cfg)))
      | (Inl e, s') \<Rightarrow> goMain uni execute cmds [''migrate''] p =
          p\<lparr>os_Local := ''UTC'', os_log := os_log p @ [exitRecord e], os_exit := Some 1, os_rest := s'\<rparr>)
    \<and> (\<exists>e. goMain uni execute cmds [a] p = p\<lparr>os_Local := ''UTC'', os_log := os_log p @ [exitRecord e], os_exit := Some 1\<rparr>)
    \<and> goMain uni execute cmds [] p = p\<lparr>os_Local := ''UTC'', os_exit := Some 0\<rparr>"
proof -
  let ?p = "p\<lparr>os_Local := ''UTC''\<rparr>" and ?root = "rootCmd\<lparr>rc_commands := cmds\<rparr>"
  have Use: "cm_Use ` set cmds = {''server'', ''worker'', ''migrate''}" "distinct (map cm_Use (rc_commands ?root))"
    by (simp_all add: assms(6) commands_def serverCmd_def workerCmd_def migrateCmd_def)
  have main: "goMain uni execute cmds args p = (case execute ?root args ?p of (r, p) \<Rightarrow>
      if os_exit p \<noteq> None then p
      else case r of Inl err \<Rightarrow> p\<lparr>os_log := os_log p @ [exitRecord err], os_exit := Some 1\<rparr> | Inr _ \<Rightarrow> p\<lparr>os_exit := Some 0\<rparr>)" for args
    by (simp add: goMain_def cmdInit_def Execute_def rootCmd_def exit_logged split: prod.split sum.split)
  have "migrateCmd (onRest (migrateRun sq ml cfg logApplied)) \<in> set (rc_commands ?root)"
    by (simp add: assms(6) commands_def)
  from command_tree.runs [OF assms(1) this Use(2)] have
    mig: "execute ?root [''migrate''] = onRest (migrateRun sq ml cfg logApplied)" by (simp add: migrateCmd_def)
  obtain i where "schema_migrator (ml i) ver latest" using assms(2) by blast
  then have target: "schema_migrator.target latest v = (if v = 0 then latest else unat v)" for v
    by (simp add: schema_migrator.target_def word_gt_0)
  have "a \<notin> cm_Use ` set (rc_commands ?root)" using assms(7) by (simp add: Use(1))
  from command_tree.unknown [OF assms(1) this, of ?p] assms(7,8) obtain e where un: "execute ?root [a] ?p = (Inl e, ?p)" by auto
  have unknown: "\<exists>e. goMain uni execute cmds [a] p = p\<lparr>os_Local := ''UTC'', os_log := os_log p @ [exitRecord e], os_exit := Some 1\<rparr>"
    by (rule exI [of _ e]) (simp add: main un assms(5))
  have bare: "goMain uni execute cmds [] p = p\<lparr>os_Local := ''UTC'', os_exit := Some 0\<rparr>"
    by (simp add: main command_tree.bare [OF assms(1)] assms(5))
  show ?thesis
  proof (rule conjI [OF _ conjI [OF unknown bare]], cases "migrateRun sq ml cfg logApplied (os_rest p)")
    case (Pair x s')
    then show "case migrateRun sq ml cfg logApplied (os_rest p) of
        (Inr _, s') \<Rightarrow> goMain uni execute cmds [''migrate''] p = p\<lparr>os_Local := ''UTC'', os_exit := Some 0, os_rest := s'\<rparr>
          \<and> ver s' = (if pg_MigrateVersion (cf_Postgres cfg) = 0 then latest else unat (pg_MigrateVersion (cf_Postgres cfg)))
      | (Inl e, s') \<Rightarrow> goMain uni execute cmds [''migrate''] p =
          p\<lparr>os_Local := ''UTC'', os_log := os_log p @ [exitRecord e], os_exit := Some 1, os_rest := s'\<rparr>"
      using migrateRun_ok [OF assms(2-4)] assms(5) by (cases x) (simp_all add: main mig onPart_def target)
  qed
qed

theorem process_exit_code_witness:
  "goMain asciiOnly dispatch (commands id id (onRest (migrateRun \<lparr>sq_Open = \<lambda>_ _. ret (), sq_Close = \<lambda>_. id\<rparr> (\<lambda>_. scLib) defaultConfig id)))
     [''migrate''] \<lparr>os_Local = ''Local'', os_log = [], os_exit = None, os_rest = newSchema\<rparr>
   = \<lparr>os_Local = ''UTC'', os_log = [], os_exit = Some 0, os_rest = newSchema\<lparr>sc_ver := latestVersion\<rparr>\<rparr>"
proof -
  let ?p = "\<lparr>os_Local = ''Local'', os_log = [], os_exit = None, os_rest = newSchema\<rparr>"
  let ?sq = "\<lparr>sq_Open = \<lambda>_ _. ret (), sq_Close = \<lambda>_. id\<rparr> :: (schemaDB, unit) SqlLib"
  have "migrateRun ?sq (\<lambda>_. scLib) defaultConfig id newSchema = (Inr (), newSchema\<lparr>sc_ver := latestVersion\<rparr>)"
    by (simp add: migrateRun_def RunMigrations_def scLib_def mapErr_def andThen_def unlessNoChange_def scGoto_def newSchema_def
        latestVersion_def ErrNoChange_def defaultConfig_def)
  moreover have "\<forall>q :: unit. schema_migrator scLib sc_ver latestVersion" using scm.schema_migrator_axioms by blast
  moreover have "''serve'' \<notin> {''server'', ''worker'', ''migrate''} \<union> cobraOwn" "take 1 ''serve'' \<noteq> ''-''" by simp_all
  moreover have "\<forall>s :: schemaDB. sc_ver (id s) = sc_ver s" "\<forall>q s. sc_ver (sq_Close ?sq q s) = sc_ver s" "os_exit ?p = None" by simp_all
  ultimately show ?thesis
    using process_exit_code [OF cli.command_tree_axioms _ _ _ _ refl, where p = ?p and server = id and worker = id
      and cfg = defaultConfig and sq = ?sq and a = "''serve''" and ver = sc_ver and logApplied = id and ml = "\<lambda>_. scLib"] by simp
qed

end
