(* ===== verification/Interleave.thy ===== *)
theory Interleave
  imports Prelude
begin

text \<open>
  Requests that run at the same time.  A process is what is left of a call: done with a result,
  or an atom (one call to a shared resource) and what follows it.  A pool of processes over a
  shared state moves by one atom of one process at a time.  Run alone, a process is an operation
  in the sense of theory Prelude, so a process is a refinement of the operation it is shown to
  run as.
\<close>

section \<open>Processes\<close>

text \<open>An atom that cannot go on yet (it waits for a lock another process holds) answers None.\<close>

datatype ('s, 'a) proc =
    Done 'a
  | Atom "'s \<Rightarrow> (('s, 'a) proc \<times> 's) option"

primrec pBind :: "('s, 'a) proc \<Rightarrow> ('a \<Rightarrow> ('s, 'b) proc) \<Rightarrow> ('s, 'b) proc" where
  "pBind (Done a) k = k a"
| "pBind (Atom f) k = Atom (\<lambda>s. map_option (map_prod (\<lambda>p. pBind p k) id) (f s))"

text \<open>The call alone: no other process moves between its atoms.  None is a wait for ever.\<close>

primrec runAlone :: "('s, 'a) proc \<Rightarrow> 's \<Rightarrow> ('a \<times> 's) option" where
  "runAlone (Done a) = (\<lambda>s. Some (a, s))"
| "runAlone (Atom f) = (\<lambda>s. Option.bind (map_option (map_prod runAlone id) (f s)) (\<lambda>(g, s'). g s'))"

definition atom :: "('s \<Rightarrow> 'a \<times> 's) \<Rightarrow> ('s, 'a) proc" where
  "atom m = Atom (\<lambda>s. case m s of (r, s') \<Rightarrow> Some (Done r, s'))"

text \<open>An atom that waits while \<open>busy\<close> holds.\<close>

definition atomUnless :: "('s \<Rightarrow> bool) \<Rightarrow> ('s \<Rightarrow> 'a \<times> 's) \<Rightarrow> ('s, 'a) proc" where
  "atomUnless busy m = Atom (\<lambda>s. if busy s then None else case m s of (r, s') \<Rightarrow> Some (Done r, s'))"

text \<open>\<open>x, err := p(); if err != nil { return err }; k(x)\<close>\<close>

definition pThen :: "('s, 'e + 'a) proc \<Rightarrow> ('a \<Rightarrow> ('s, 'e + 'b) proc) \<Rightarrow> ('s, 'e + 'b) proc" where
  "pThen p k = pBind p (\<lambda>r. case r of Inl e \<Rightarrow> Done (Inl e) | Inr a \<Rightarrow> k a)"

lemma pBind_atom [simp]: "pBind (atom m) k = Atom (\<lambda>s. case m s of (r, s') \<Rightarrow> Some (k r, s'))"
  by (simp add: atom_def fun_eq_iff split: prod.split)

lemma pThen_Done [simp]: "pThen (Done (Inl e)) k = Done (Inl e)" "pThen (Done (Inr a)) k = k a"
  by (simp_all add: pThen_def)

lemma pBind_assoc: "pBind (pBind p k) l = pBind p (\<lambda>a. pBind (k a) l)"
proof (induction p)
  case (Atom f)
  have "map_option (map_prod (\<lambda>p. pBind (pBind p k) l) id) (f s)
      = map_option (map_prod (\<lambda>p. pBind p (\<lambda>a. pBind (k a) l)) id) (f s)" for s
    by (rule option.map_cong0, rule prod.map_cong0) (auto intro: Atom)
  then show ?case by (simp add: fun_eq_iff option.map_comp o_def map_prod_def split_def)
qed simp

section \<open>Running alone\<close>

lemma runAlone_bind:
  "runAlone (pBind p k) s = (case runAlone p s of None \<Rightarrow> None | Some (a, s') \<Rightarrow> runAlone (k a) s')"
proof (induction p arbitrary: s)
  case (Atom f)
  show ?case
  proof (cases "f s")
    case (Some ps)
    then obtain p s1 where p: "f s = Some (p, s1)" by (cases ps) auto
    have "p \<in> Basic_BNFs.fsts (p, s1)" "(p, s1) \<in> set_option (f s)" by (simp_all add: p)
    with Atom have "runAlone (pBind p k) s1 = (case runAlone p s1 of None \<Rightarrow> None | Some (a, s') \<Rightarrow> runAlone (k a) s')"
      by blast
    with p show ?thesis by simp
  qed simp
qed simp

lemma runAlone_atom [simp]: "runAlone (atom m) s = Some (m s)"
  by (simp add: atom_def split: prod.split)

lemma runAlone_atomUnless [simp]: "runAlone (atomUnless busy m) s = (if busy s then None else Some (m s))"
  by (simp add: atomUnless_def split: prod.split)

lemma runAlone_pThen:
  "runAlone (pThen p k) s = (case runAlone p s of None \<Rightarrow> None
     | Some (Inl e, s') \<Rightarrow> Some (Inl e, s') | Some (Inr a, s') \<Rightarrow> runAlone (k a) s')"
  by (simp add: pThen_def runAlone_bind split: option.splits sum.splits)

text \<open>\<open>runsAs p m\<close>: alone, \<open>p\<close> never waits and is the operation \<open>m\<close>.\<close>

definition runsAs :: "('s, 'a) proc \<Rightarrow> ('s \<Rightarrow> 'a \<times> 's) \<Rightarrow> bool" where
  "runsAs p m \<longleftrightarrow> (\<forall>s. runAlone p s = Some (m s))"

named_theorems runs_as \<open>processes and the operations they run as\<close>

lemma runsAs_ret [runs_as]: "runsAs (Done (Inr a)) (ret a)"
  by (simp add: runsAs_def)

lemma runsAs_throw [runs_as]: "runsAs (Done (Inl e)) (throw e)"
  by (simp add: runsAs_def)

lemma runsAs_liftR [runs_as]: "runsAs (Done r) (liftR r)"
  by (simp add: runsAs_def)

lemma runsAs_atom [runs_as]: "runsAs (atom m) m"
  by (simp add: runsAs_def)

lemma runsAs_pThen [runs_as]:
  "runsAs p m \<Longrightarrow> (\<And>a. runsAs (q a) (k a)) \<Longrightarrow> runsAs (pThen p q) (andThen m k)"
  by (simp add: runsAs_def runAlone_pThen andThen_def split: prod.splits sum.splits)

lemma runsAs_if [runs_as]:
  "runsAs p m \<Longrightarrow> runsAs q n \<Longrightarrow> runsAs (if b then p else q) (if b then m else n)"
  by simp

section \<open>Pools\<close>

text \<open>
  One atom of one process, or a step \<open>E\<close> of the environment (time passing, entries expiring).
\<close>

inductive poolStep :: "('s \<Rightarrow> 's \<Rightarrow> bool) \<Rightarrow> ('s, 'a) proc list \<times> 's \<Rightarrow> ('s, 'a) proc list \<times> 's \<Rightarrow> bool"
  for E where
  move: "n < length ps \<Longrightarrow> ps ! n = Atom f \<Longrightarrow> f s = Some (p, s') \<Longrightarrow> poolStep E (ps, s) (ps[n := p], s')"
| env: "E s s' \<Longrightarrow> poolStep E (ps, s) (ps, s')"

inductive_cases poolStepE: "poolStep E (ps, s) c"

text \<open>
  A schedule names the process to move at each step; an index that is out of range, done or
  waiting is skipped.
\<close>

fun moveAt :: "nat \<Rightarrow> ('s, 'a) proc list \<times> 's \<Rightarrow> ('s, 'a) proc list \<times> 's" where
  "moveAt n (ps, s) =
     (if n < length ps
      then (case ps ! n of Done a \<Rightarrow> (ps, s)
            | Atom f \<Rightarrow> (case f s of None \<Rightarrow> (ps, s) | Some (p, s') \<Rightarrow> (ps[n := p], s')))
      else (ps, s))"

definition runSchedule :: "nat list \<Rightarrow> ('s, 'a) proc list \<times> 's \<Rightarrow> ('s, 'a) proc list \<times> 's" where
  "runSchedule ns c = fold moveAt ns c"

lemma moveAt_steps: "(poolStep E)\<^sup>*\<^sup>* c (moveAt n c)"
proof (cases c)
  case (Pair ps s)
  then show ?thesis
    by (auto split: proc.splits option.splits intro!: r_into_rtranclp poolStep.move)
qed

lemma runSchedule_steps: "(poolStep E)\<^sup>*\<^sup>* c (runSchedule ns c)"
proof (induction ns arbitrary: c)
  case (Cons n ns)
  show ?case
    using rtranclp_trans [OF moveAt_steps Cons [of "moveAt n c"]] by (simp add: runSchedule_def)
qed (simp add: runSchedule_def)

lemma poolStep_weaken:
  assumes "(poolStep E)\<^sup>*\<^sup>* c c'" "\<And>s s'. E s s' \<Longrightarrow> E' s s'"
  shows "(poolStep E')\<^sup>*\<^sup>* c c'"
proof -
  have "poolStep E c c' \<Longrightarrow> poolStep E' c c'" for c c'
    by (induction rule: poolStep.induct) (auto intro: poolStep.intros assms(2))
  with assms(1) show ?thesis by (metis mono_rtranclp)
qed

section \<open>Running schedules\<close>

text \<open>
  A concrete schedule is run by simplification: \<open>nextOf\<close> makes one move, and \<open>pThen\<close> becomes a
  bind whose continuation is not touched before its turn.
\<close>

primrec nextOf :: "('s, 'a) proc \<Rightarrow> 's \<Rightarrow> (('s, 'a) proc \<times> 's) option" where
  "nextOf (Done a) = (\<lambda>_. None)"
| "nextOf (Atom f) = f"

definition unlessErr :: "('a \<Rightarrow> ('s, 'e + 'b) proc) \<Rightarrow> 'e + 'a \<Rightarrow> ('s, 'e + 'b) proc" where
  "unlessErr k r = (case r of Inl e \<Rightarrow> Done (Inl e) | Inr a \<Rightarrow> k a)"

lemma unlessErr_simps: "unlessErr k (Inl e) = Done (Inl e)" "unlessErr k (Inr a) = k a"
  by (simp_all add: unlessErr_def)

lemma pThen_unlessErr: "pThen p k = pBind p (unlessErr k)"
proof -
  have "unlessErr k = (\<lambda>r. case r of Inl e \<Rightarrow> Done (Inl e) | Inr a \<Rightarrow> k a)" by (simp add: fun_eq_iff unlessErr_def)
  then show ?thesis by (simp add: pThen_def)
qed

text \<open>Congruences that leave calls and continuations alone.\<close>

lemma weak_calls: "atom m = atom m" "atomUnless busy m = atomUnless busy m" "unlessErr k = unlessErr k"
  by simp_all

lemma pBind_weak: "p = q \<Longrightarrow> pBind p k = pBind q k"
  by simp

lemma nextOf_weak: "p = q \<Longrightarrow> s = t \<Longrightarrow> nextOf p s = nextOf q t"
  by simp

lemma nextOf_bind:
  "nextOf (pBind (atom m) k) s = (case m s of (r, s') \<Rightarrow> Some (k r, s'))"
  "nextOf (pBind (atomUnless busy m) k) s = (if busy s then None else case m s of (r, s') \<Rightarrow> Some (k r, s'))"
  "nextOf (atom m) s = (case m s of (r, s') \<Rightarrow> Some (Done r, s'))"
  by (simp_all add: atomUnless_def atom_def split: prod.splits)

lemma moveAt_next:
  "moveAt n (ps, s) =
     (if n < length ps then case nextOf (ps ! n) s of None \<Rightarrow> (ps, s) | Some (p, s') \<Rightarrow> (ps[n := p], s') else (ps, s))"
  by (simp split: proc.splits)

lemma runSchedule_simps:
  "runSchedule [] c = c" "runSchedule (n # ns) c = runSchedule ns (moveAt n c)"
  by (simp_all add: runSchedule_def)

lemmas schedule_cong = weak_calls pBind_weak nextOf_weak

lemmas schedule_eval = runSchedule_simps moveAt_next nextOf_bind pThen_unlessErr unlessErr_simps pBind_assoc

section \<open>Relations every atom keeps\<close>

primrec everyAtom :: "('s \<Rightarrow> 's \<Rightarrow> bool) \<Rightarrow> ('s, 'a) proc \<Rightarrow> bool" where
  "everyAtom R (Done a) = True"
| "everyAtom R (Atom f) = (\<forall>s. case map_option (map_prod (everyAtom R) id) (f s) of
     None \<Rightarrow> True | Some (rest, s') \<Rightarrow> R s s' \<and> rest)"

lemma everyAtom_Atom:
  "everyAtom R (Atom f) \<longleftrightarrow> (\<forall>s p s'. f s = Some (p, s') \<longrightarrow> R s s' \<and> everyAtom R p)"
  by (auto split: option.splits)

declare everyAtom.simps(2) [simp del]

named_theorems every_atom \<open>processes whose atoms keep a relation\<close>

lemma everyAtom_Done [every_atom]: "everyAtom R (Done a)"
  by simp

lemma everyAtom_pBind [every_atom]:
  "everyAtom R p \<Longrightarrow> (\<And>a. everyAtom R (k a)) \<Longrightarrow> everyAtom R (pBind p k)"
proof (induction p)
  case (Atom f)
  show ?case
    unfolding pBind.simps everyAtom_Atom
  proof (intro allI impI)
    fix s q s' assume "map_option (map_prod (\<lambda>p. pBind p k) id) (f s) = Some (q, s')"
    then obtain p where p: "f s = Some (p, s')" "q = pBind p k" by auto
    have "p \<in> Basic_BNFs.fsts (p, s')" "(p, s') \<in> set_option (f s)" by (simp_all add: p)
    then have "everyAtom R p \<Longrightarrow> everyAtom R (pBind p k)" using Atom.IH Atom.prems(2) by blast
    with Atom.prems(1) p show "R s s' \<and> everyAtom R q" by (auto simp: everyAtom_Atom)
  qed
qed simp

lemma everyAtom_pThen [every_atom]:
  "everyAtom R p \<Longrightarrow> (\<And>a. everyAtom R (k a)) \<Longrightarrow> everyAtom R (pThen p k)"
  by (auto simp: pThen_def intro!: everyAtom_pBind split: sum.splits)

lemma everyAtom_atom: "(\<And>s r s'. m s = (r, s') \<Longrightarrow> R s s') \<Longrightarrow> everyAtom R (atom m)"
  by (auto simp: atom_def everyAtom_Atom split: prod.splits)

lemma everyAtom_if [every_atom]: "everyAtom R p \<Longrightarrow> everyAtom R q \<Longrightarrow> everyAtom R (if b then p else q)"
  by simp

section \<open>Invariants of pools\<close>

text \<open>
  \<open>J\<close> holds of the shared state, \<open>L n p\<close> of what is left of process \<open>n\<close>; \<open>R n\<close> is what a move
  of process \<open>n\<close> may do to the state, and every other process's \<open>L\<close> withstands it.
\<close>

locale pool_invariant =
  fixes E :: "'s \<Rightarrow> 's \<Rightarrow> bool" and J :: "'s \<Rightarrow> bool"
    and L :: "nat \<Rightarrow> ('s, 'a) proc \<Rightarrow> 's \<Rightarrow> bool" and R :: "nat \<Rightarrow> 's \<Rightarrow> 's \<Rightarrow> bool"
  assumes own: "J s \<Longrightarrow> L n (Atom f) s \<Longrightarrow> f s = Some (p, s') \<Longrightarrow> J s' \<and> L n p s' \<and> R n s s'"
    and others: "J s \<Longrightarrow> L m p s \<Longrightarrow> n \<noteq> m \<Longrightarrow> R n s s' \<Longrightarrow> J s' \<Longrightarrow> L m p s'"
    and environment: "J s \<Longrightarrow> E s s' \<Longrightarrow> J s' \<and> (\<forall>n p. L n p s \<longrightarrow> L n p s')"
begin

definition holds :: "('s, 'a) proc list \<times> 's \<Rightarrow> bool" where
  "holds c \<longleftrightarrow> J (snd c) \<and> (\<forall>n < length (fst c). L n (fst c ! n) (snd c))"

lemma holds_step: "poolStep E c c' \<Longrightarrow> holds c \<Longrightarrow> holds c'"
proof (induction rule: poolStep.induct)
  case (move n ps f s p s')
  then have J: "J s" and L: "\<And>m. m < length ps \<Longrightarrow> L m (ps ! m) s" by (simp_all add: holds_def)
  from own [of s n f p s'] J L [OF move(1)] move(2,3) have "J s' \<and> L n p s' \<and> R n s s'" by simp
  with others [of s] J L move(1) show ?case by (auto simp: holds_def nth_list_update)
qed (auto simp: holds_def dest: environment)

lemma holds_steps: "(poolStep E)\<^sup>*\<^sup>* c c' \<Longrightarrow> holds c \<Longrightarrow> holds c'"
  by (induction rule: rtranclp_induct) (auto intro: holds_step)

lemma length_steps: "(poolStep E)\<^sup>*\<^sup>* c c' \<Longrightarrow> length (fst c') = length (fst c)"
  by (induction rule: rtranclp_induct) (auto elim!: poolStep.cases)

text \<open>What is used of it: the parts at the end of a run.\<close>

lemma at_end:
  assumes "(poolStep E)\<^sup>*\<^sup>* (ps, s) (qs, s')" "J s" "\<And>n. n < length ps \<Longrightarrow> L n (ps ! n) s"
  shows "J s'" and "n < length ps \<Longrightarrow> L n (qs ! n) s'"
  using holds_steps [OF assms(1)] length_steps [OF assms(1)] assms(2,3) by (simp_all add: holds_def)

end

text \<open>An invariant that every atom of every process keeps is an invariant of the pool.\<close>

lemma pool_keeps:
  assumes "(poolStep E)\<^sup>*\<^sup>* (ps, s) (qs, s')" "J s" "\<And>p. p \<in> set ps \<Longrightarrow> everyAtom (\<lambda>s s'. J s \<longrightarrow> J s') p"
    and "\<And>s s'. J s \<Longrightarrow> E s s' \<Longrightarrow> J s'"
  shows "J s'"
proof -
  have "pool_invariant E J (\<lambda>_ p _. everyAtom (\<lambda>s s'. J s \<longrightarrow> J s') p) (\<lambda>_ _ _. True)"
  proof (rule pool_invariant.intro)
    fix s f p s' assume "J s" "everyAtom (\<lambda>s s'. J s \<longrightarrow> J s') (Atom f)" "f s = Some (p, s')"
    then show "J s' \<and> everyAtom (\<lambda>s s'. J s \<longrightarrow> J s') p \<and> True" unfolding everyAtom_Atom by blast
  qed (auto dest: assms(4))
  from pool_invariant.at_end(1) [OF this assms(1,2)] assms(3) show ?thesis by simp
qed

end
