(* ===== verification/RelyGuarantee.thy ===== *)
theory RelyGuarantee
  imports Interleave
begin

text \<open>
  Reasoning about one process of a pool at a time.  Process \<open>n\<close> guarantees that each of its
  atoms keeps the shared invariant \<open>J\<close> and is a step of \<open>G n\<close>; its assertions must be stable
  under the steps of all others and of the environment \<open>E\<close>.
\<close>

definition stable ::
    "('s \<Rightarrow> bool) \<Rightarrow> (nat \<Rightarrow> 's \<Rightarrow> 's \<Rightarrow> bool) \<Rightarrow> ('s \<Rightarrow> 's \<Rightarrow> bool) \<Rightarrow> nat \<Rightarrow> ('s \<Rightarrow> bool) \<Rightarrow> bool" where
  "stable J G E n B \<longleftrightarrow>
     (\<forall>s s'. J s \<longrightarrow> B s \<longrightarrow> J s' \<longrightarrow> (E s s' \<or> (\<exists>m. m \<noteq> n \<and> G m s s')) \<longrightarrow> B s')"

text \<open>
  \<open>proves J G E n A p Q\<close>: started where \<open>A\<close> holds, with the others interfering between its
  atoms, process \<open>n\<close> keeps to its guarantee and ends where \<open>Q\<close> holds of its result.
\<close>

inductive proves ::
    "('s \<Rightarrow> bool) \<Rightarrow> (nat \<Rightarrow> 's \<Rightarrow> 's \<Rightarrow> bool) \<Rightarrow> ('s \<Rightarrow> 's \<Rightarrow> bool) \<Rightarrow> nat
       \<Rightarrow> ('s \<Rightarrow> bool) \<Rightarrow> ('s, 'a) proc \<Rightarrow> ('a \<Rightarrow> 's \<Rightarrow> bool) \<Rightarrow> bool" for J G E n where
  ends: "(\<And>s. J s \<Longrightarrow> A s \<Longrightarrow> Q a s) \<Longrightarrow> proves J G E n A (Done a) Q"
| moves: "(\<And>s p s'. J s \<Longrightarrow> A s \<Longrightarrow> f s = Some (p, s') \<Longrightarrow>
      J s' \<and> G n s s' \<and> (\<exists>B. stable J G E n B \<and> B s' \<and> proves J G E n B p Q))
    \<Longrightarrow> proves J G E n A (Atom f) Q"

inductive_cases proves_AtomE: "proves J G E n A (Atom f) Q"
inductive_simps proves_Done [simp]: "proves J G E n A (Done a) Q"

section \<open>Rules\<close>

lemma proves_pBind:
  "proves J G E n A p Q \<Longrightarrow> (\<And>a. proves J G E n (Q a) (k a) Q') \<Longrightarrow> proves J G E n A (pBind p k) Q'"
proof (induction rule: proves.induct)
  case (ends A Q a)
  then have k: "proves J G E n (Q a) (k a) Q'" and A: "\<And>s. J s \<Longrightarrow> A s \<Longrightarrow> Q a s" by auto
  from k show ?case
  proof (cases rule: proves.cases)
    case (ends b)
    with A show ?thesis by (auto intro: proves.ends)
  next
    case (moves f)
    with A show ?thesis by (auto intro!: proves.moves)
  qed
next
  case (moves A f Q)
  show ?case
    unfolding pBind.simps
  proof (rule proves.moves)
    fix s q s' assume J: "J s" "A s" and q: "map_option (map_prod (\<lambda>p. pBind p k) id) (f s) = Some (q, s')"
    then obtain p where "f s = Some (p, s')" and p: "q = pBind p k" by auto
    from moves.IH [OF J this(1)] moves.prems
    show "J s' \<and> G n s s' \<and> (\<exists>B. stable J G E n B \<and> B s' \<and> proves J G E n B q Q')" unfolding p by blast
  qed
qed

lemma proves_weaken:
  assumes "proves J G E n A p Q" "\<And>a s. J s \<Longrightarrow> Q a s \<Longrightarrow> Q' a s"
  shows "proves J G E n A p Q'"
  using assms
proof (induction rule: proves.induct)
  case (ends A Q a)
  then show ?case by auto
next
  case (moves A f Q)
  show ?case
  proof (rule proves.moves)
    fix s p s' assume s: "J s" "A s" "f s = Some (p, s')"
    from moves.IH [OF s] moves.prems
    show "J s' \<and> G n s s' \<and> (\<exists>B. stable J G E n B \<and> B s' \<and> proves J G E n B p Q')" by blast
  qed
qed

lemma proves_atom:
  fixes m :: "'s \<Rightarrow> 'a \<times> 's"
  assumes "\<And>s r s'. J s \<Longrightarrow> A s \<Longrightarrow> m s = (r, s') \<Longrightarrow> J s' \<and> G n s s' \<and> Q r s'" "\<And>r. stable J G E n (Q r)"
  shows "proves J G E n A (atom m) Q"
  unfolding atom_def
proof (rule proves.moves)
  fix s s' and p :: "('s, 'a) proc" assume J: "J s" "A s" and p: "(case m s of (r, s') \<Rightarrow> Some (Done r, s')) = Some (p, s')"
  then obtain r where m: "m s = (r, s')" and p: "p = Done r" by (auto split: prod.splits)
  from assms(1) [OF J m] assms(2) [of r]
  show "J s' \<and> G n s s' \<and> (\<exists>B. stable J G E n B \<and> B s' \<and> proves J G E n B p Q)"
    unfolding p by (auto intro: proves.ends)
qed

lemma proves_atomUnless:
  fixes m :: "'s \<Rightarrow> 'a \<times> 's"
  assumes "\<And>s r s'. J s \<Longrightarrow> A s \<Longrightarrow> \<not> busy s \<Longrightarrow> m s = (r, s') \<Longrightarrow> J s' \<and> G n s s' \<and> Q r s'" "\<And>r. stable J G E n (Q r)"
  shows "proves J G E n A (atomUnless busy m) Q"
  unfolding atomUnless_def
proof (rule proves.moves)
  fix s s' and p :: "('s, 'a) proc" assume J: "J s" "A s"
    and p: "(if busy s then None else case m s of (r, s') \<Rightarrow> Some (Done r, s')) = Some (p, s')"
  then obtain r where m: "\<not> busy s" "m s = (r, s')" and p: "p = Done r" by (auto split: prod.splits if_splits)
  from assms(1) [OF J m] assms(2) [of r]
  show "J s' \<and> G n s s' \<and> (\<exists>B. stable J G E n B \<and> B s' \<and> proves J G E n B p Q)"
    unfolding p by (auto intro: proves.ends)
qed

lemma proves_pThen:
  assumes "proves J G E n A p (\<lambda>r s. case r of Inl e \<Rightarrow> Q (Inl e) s | Inr a \<Rightarrow> B a s)"
    and "\<And>a. proves J G E n (B a) (k a) Q"
  shows "proves J G E n A (pThen p k) Q"
  unfolding pThen_def by (rule proves_pBind [OF assms(1)]) (use assms(2) in \<open>auto split: sum.splits\<close>)

lemma proves_if:
  "(b \<Longrightarrow> proves J G E n A p Q) \<Longrightarrow> (\<not> b \<Longrightarrow> proves J G E n A q Q) \<Longrightarrow> proves J G E n A (if b then p else q) Q"
  by simp

section \<open>Pools\<close>

text \<open>Every process proved against the guarantees of all others: at any moment those that are done are where they should be.\<close>

lemma pool_proves:
  assumes "(poolStep E)\<^sup>*\<^sup>* (ps, s) (qs, s')" "J s"
    and "\<And>n. n < length ps \<Longrightarrow> stable J G E n (A n) \<and> A n s \<and> proves J G E n (A n) (ps ! n) (Q n)"
    and "\<And>s s'. J s \<Longrightarrow> E s s' \<Longrightarrow> J s'"
  shows "J s' \<and> length qs = length ps \<and> (\<forall>n < length ps. \<forall>a. qs ! n = Done a \<longrightarrow> Q n a s')"
proof -
  let ?L = "\<lambda>n p s. \<exists>B. stable J G E n B \<and> B s \<and> proves J G E n B p (Q n)"
  have inv: "pool_invariant E J ?L G"
  proof (rule pool_invariant.intro)
    fix s n f p s' assume "J s" "?L n (Atom f) s" "f s = Some (p, s')"
    then show "J s' \<and> ?L n p s' \<and> G n s s'" by (blast elim: proves_AtomE)
  next
    fix s m p n s' assume "J s" "?L m p s" "n \<noteq> m" "G n s s'" "J s'"
    then show "?L m p s'" unfolding stable_def by metis
  next
    fix s s' assume "J s" "E s s'"
    with assms(4) have "J s'" .
    with \<open>J s\<close> \<open>E s s'\<close> show "J s' \<and> (\<forall>n p. ?L n p s \<longrightarrow> ?L n p s')" unfolding stable_def by metis
  qed
  have start: "?L n (ps ! n) s" if "n < length ps" for n using assms(3) [OF that] by blast
  note fin = pool_invariant.at_end [OF inv assms(1,2) start]
  have "length qs = length ps" using pool_invariant.length_steps [OF inv assms(1)] by simp
  moreover have "Q n a s'" if "n < length ps" "qs ! n = Done a" for n a
    using fin(2) [OF _ that(1)] fin(1) that by auto
  ultimately show ?thesis using fin(1) by blast
qed

end
