(* ===== verification/UseCaseProcs.thy ===== *)
theory UseCaseProcs
  imports Interleave UseCase CachedRepo
begin

text \<open>
  The calls of a request as processes: the repository with and without the cache, and the use
  case over it, cut at every call to the database, the cache, the limiter and the transaction
  manager.  Each process is shown to be, run alone, the operation of the theories CachedRepo and
  UseCase, so that a pool of them is the service with several requests in flight.
\<close>

section \<open>Repositories\<close>

record 's procRepository =
  pr_Create :: "account \<Rightarrow> ('s, go_error + string) proc"
  pr_GetByID :: "string \<Rightarrow> ('s, go_error + account ptr) proc"
  pr_GetByEmail :: "string \<Rightarrow> ('s, go_error + account ptr) proc"
  pr_Update :: "UpdateAccountParams \<Rightarrow> ('s, go_error + unit) proc"
  pr_Delete :: "string \<Rightarrow> ('s, go_error + unit) proc"

definition repoRuns :: "'s procRepository \<Rightarrow> 's AccountRepository \<Rightarrow> bool" where
  "repoRuns pr r \<longleftrightarrow> (\<forall>a. runsAs (pr_Create pr a) (repo_Create r a))
     \<and> (\<forall>i. runsAs (pr_GetByID pr i) (repo_GetByID r i))
     \<and> (\<forall>m. runsAs (pr_GetByEmail pr m) (repo_GetByEmail r m))
     \<and> (\<forall>p. runsAs (pr_Update pr p) (repo_Update r p))
     \<and> (\<forall>i. runsAs (pr_Delete pr i) (repo_Delete r i))"

text \<open>A backend: one statement per call.\<close>

definition statements :: "'s AccountRepository \<Rightarrow> 's procRepository" where
  "statements r = \<lparr>pr_Create = (\<lambda>a. atom (repo_Create r a)), pr_GetByID = (\<lambda>i. atom (repo_GetByID r i)),
     pr_GetByEmail = (\<lambda>m. atom (repo_GetByEmail r m)), pr_Update = (\<lambda>p. atom (repo_Update r p)),
     pr_Delete = (\<lambda>i. atom (repo_Delete r i))\<rparr>"

lemma repoRuns_statements: "repoRuns (statements r) r"
  by (simp add: repoRuns_def statements_def runs_as)

text \<open>The cache in front: lookup, load and store are separate calls, and so are write and eviction.\<close>

definition procStore :: "('s, 'v) LibCache \<Rightarrow> string \<Rightarrow> duration \<Rightarrow> 'v \<Rightarrow> ('s, go_error + 'v) proc" where
  "procStore c key ttl val = pThen (atom (lc_Set c key val ttl)) (\<lambda>_. Done (Inr val))"

definition procLoad ::
    "('s, 'v) LibCache \<Rightarrow> string \<Rightarrow> ('s, go_error + 'v) proc \<Rightarrow> duration \<Rightarrow> ('s, go_error + 'v) proc" where
  "procLoad c key loader ttl = pThen loader (procStore c key ttl)"

definition procGetOnce ::
    "('s, 'v) LibCache \<Rightarrow> string \<Rightarrow> ('s, go_error + 'v) proc \<Rightarrow> duration \<Rightarrow> ('s, go_error + 'v) proc" where
  "procGetOnce c key loader ttl = pBind (atom (lc_Get c key))
     (\<lambda>x. case x of Inr val \<Rightarrow> Done (Inr val) | Inl _ \<Rightarrow> procLoad c key loader ttl)"

lemma runsAs_GetOnce:
  assumes "runsAs loader l"
  shows "runsAs (procGetOnce c key loader ttl) (GetOnce c key l ttl)"
proof -
  have "runsAs (procLoad c key loader ttl) (andThen l (\<lambda>val. andThen (lc_Set c key val ttl) (\<lambda>_. ret val)))"
    unfolding procLoad_def procStore_def by (intro runs_as assms)
  then show ?thesis
    by (simp add: runsAs_def procGetOnce_def runAlone_bind GetOnce_def split: prod.splits sum.splits)
qed

definition cachedProcs ::
    "(string \<Rightarrow> string) \<Rightarrow> ('s, account ptr) LibCache \<Rightarrow> 's cachedDeps \<Rightarrow> 's procRepository" where
  "cachedProcs uni c d =
     \<lparr>pr_Create = (\<lambda>a. atom (repo_Create (cd_inner d) a)),
      pr_GetByID = (\<lambda>i. procGetOnce c (AccountCacheKeyByID i) (atom (repo_GetByID (cd_inner d) i)) (cd_ttl d)),
      pr_GetByEmail = (\<lambda>m. procGetOnce c (AccountCacheKeyByEmail uni m) (atom (repo_GetByEmail (cd_inner d) m)) (cd_ttl d)),
      pr_Update = (\<lambda>p. pThen (atom (repo_Update (cd_inner d) p))
         (\<lambda>_. pThen (atom (invalidate d (AccountCacheKeyByID (up_ID p)))) (\<lambda>_. Done (Inr ())))),
      pr_Delete = (\<lambda>i. pThen (atom (repo_Delete (cd_inner d) i))
         (\<lambda>_. pThen (atom (invalidate d (AccountCacheKeyByID i))) (\<lambda>_. Done (Inr ()))))\<rparr>"

lemma repoRuns_cached:
  assumes "cd_cache d = cacheManager c"
  shows "repoRuns (cachedProcs uni c d) (cachedRepository uni d)"
  unfolding repoRuns_def cachedProcs_def
  by (simp add: cachedGetByID_def cachedGetByEmail_def cachedCreate_def cachedUpdate_def cachedDelete_def
      assms runsAs_GetOnce runs_as)

section \<open>Transactions\<close>

text \<open>
  \<open>manager.Do\<close> in its parts: begin, the function on the transaction's context, commit when it
  returned nil and rollback when it did not.
\<close>

record 's TxOps =
  to_begin :: "('s, go_error, unit) op"
  to_commit :: "('s, go_error, unit) op"
  to_rollback :: "'s \<Rightarrow> 's"

definition rollingBack :: "'s TxOps \<Rightarrow> 'e \<Rightarrow> ('s, 'e, 'a) op" where
  "rollingBack t e = (\<lambda>s. (Inl e, to_rollback t s))"

definition txInParts :: "'s TxOps \<Rightarrow> 's TxManager" where
  "txInParts t body = andThen (to_begin t) (\<lambda>_ s. case body s of
       (Inl e, s1) \<Rightarrow> rollingBack t e s1
     | (Inr v, s1) \<Rightarrow> andThen (to_commit t) (\<lambda>_. ret v) s1)"

definition procFinish :: "'s TxOps \<Rightarrow> go_error + account ptr \<Rightarrow> ('s, go_error + account ptr) proc" where
  "procFinish t x = (case x of
       Inl e \<Rightarrow> atom (rollingBack t e)
     | Inr v \<Rightarrow> pThen (atom (to_commit t)) (\<lambda>_. Done (Inr v)))"

definition procWithTx :: "'s TxOps \<Rightarrow> ('s, go_error + account ptr) proc \<Rightarrow> ('s, go_error + account ptr) proc" where
  "procWithTx t body = pThen (atom (to_begin t)) (\<lambda>_. pBind body (procFinish t))"

lemma runsAs_WithTx:
  assumes "runsAs body m"
  shows "runsAs (procWithTx t body) (txInParts t m)"
proof -
  have "runsAs (procFinish t x) (\<lambda>s. case x of Inl e \<Rightarrow> rollingBack t e s
      | Inr v \<Rightarrow> andThen (to_commit t) (\<lambda>_. ret v) s)" for x
    by (cases x) (simp_all add: procFinish_def runs_as)
  with assms have "runsAs (pBind body (procFinish t)) (\<lambda>s. case m s of (Inl e, s1) \<Rightarrow> rollingBack t e s1
      | (Inr v, s1) \<Rightarrow> andThen (to_commit t) (\<lambda>_. ret v) s1)"
    by (simp add: runsAs_def runAlone_bind split: prod.splits sum.splits)
  then show ?thesis unfolding procWithTx_def txInParts_def by (intro runs_as)
qed

section \<open>The use case\<close>

definition procEnsureEmailFree :: "'s procRepository \<Rightarrow> string \<Rightarrow> ('s, go_error + unit) proc" where
  "procEnsureEmailFree pr email = pBind (pr_GetByEmail pr email) (\<lambda>x. case x of
       Inr _ \<Rightarrow> Done (Inl (App (WithMetadata ErrAccountAlreadyExists ''email'' email)))
     | Inl err \<Rightarrow> if errorsIs err (App ErrAccountNotFound) then Done (Inr ()) else Done (Inl err))"

definition procCreateBody :: "'s procRepository \<Rightarrow> account \<Rightarrow> ('s, go_error + account ptr) proc" where
  "procCreateBody pr account = pThen (procEnsureEmailFree pr (Email account))
     (\<lambda>_. pThen (pr_Create pr account) (\<lambda>i. Done (Inr (Some (account\<lparr>ID := i\<rparr>)))))"

definition procUpdateBody :: "'s procRepository \<Rightarrow> time \<Rightarrow> UpdateAccountRequest \<Rightarrow> ('s, go_error + account ptr) proc" where
  "procUpdateBody pr now req = pThen (pr_Update pr (updateParams now req))
     (\<lambda>_. pThen (pr_GetByID pr (ur_ID req)) (\<lambda>account. Done (Inr account)))"

definition procDeleteBody :: "'s procRepository \<Rightarrow> string \<Rightarrow> ('s, go_error + account ptr) proc" where
  "procDeleteBody pr i = pThen (pr_Delete pr i) (\<lambda>_. Done (Inr None))"

definition procCreate ::
    "(string \<Rightarrow> string) \<Rightarrow> 's AccountDeps \<Rightarrow> 's procRepository \<Rightarrow> 's TxOps \<Rightarrow> time \<Rightarrow> string
       \<Rightarrow> CreateAccountRequest \<Rightarrow> ('s, go_error + account ptr) proc" where
  "procCreate uni uc pr t now uid req =
     pThen (atom (mapErr (\<lambda>err. App (Cause ErrInternal err))
              (dp_limiter uc \<lparr>lq_Action = RateLimitActionCreateAccount, lq_Key = ToLower uni (cr_Email req)\<rparr>)))
     (\<lambda>verdict.
        if \<not> lr_Allowed verdict
        then Done (Inl (App (WithMetadata ErrTooManyRequests ''retry_after'' (DurationString (lr_RetryAfter verdict)))))
        else
          pThen (Done (validateEmail (cr_Email req)))
          (\<lambda>_. pThen (Done (ensureStrongPassword (dp_passwords uc) (cr_Password req)))
          (\<lambda>_. pThen (atom (mapErr (\<lambda>err. App (Cause ErrInternal err)) (liftR (pw_Hash (dp_passwords uc) (cr_Password req)))))
          (\<lambda>hashed. pThen (procWithTx t (procCreateBody pr (newAccount uid now hashed req)))
          (\<lambda>account. pThen (atom (logInfo uc ''account created'' (case account of None \<Rightarrow> [] | Some a \<Rightarrow> ID a)))
          (\<lambda>_. Done (Inr account)))))))"

text \<open>Get runs on the context of the request, outside any transaction.\<close>

definition procGet :: "'s procRepository \<Rightarrow> string \<Rightarrow> ('s, go_error + account ptr) proc" where
  "procGet pr i = (if i = [] then Done (Inl idRequired) else pr_GetByID pr i)"

definition procUpdate ::
    "'s procRepository \<Rightarrow> 's TxOps \<Rightarrow> time \<Rightarrow> UpdateAccountRequest \<Rightarrow> ('s, go_error + account ptr) proc" where
  "procUpdate pr t now req =
     (if ur_ID req = [] then Done (Inl idRequired)
      else if (case ur_Status req of None \<Rightarrow> False | Some st \<Rightarrow> \<not> Valid st) then Done (Inl (App ErrInvalidStatus))
      else pThen (procWithTx t (procUpdateBody pr now req)) (\<lambda>updated. Done (Inr updated)))"

text \<open>Delete, with its \<open>nil\<close> result as the nil account.\<close>

definition procDelete :: "'s AccountDeps \<Rightarrow> 's procRepository \<Rightarrow> 's TxOps \<Rightarrow> string \<Rightarrow> ('s, go_error + account ptr) proc" where
  "procDelete uc pr t i =
     (if i = [] then Done (Inl idRequired)
      else pThen (procWithTx t (procDeleteBody pr i))
        (\<lambda>_. pThen (atom (logInfo uc ''account deleted'' i)) (\<lambda>_. Done (Inr None))))"

section \<open>Run alone, they are the use case\<close>

lemma repoRunsD:
  assumes "repoRuns pr r"
  shows "runsAs (pr_Create pr a) (repo_Create r a)" "runsAs (pr_GetByID pr i) (repo_GetByID r i)"
    "runsAs (pr_GetByEmail pr m) (repo_GetByEmail r m)" "runsAs (pr_Update pr p) (repo_Update r p)"
    "runsAs (pr_Delete pr i) (repo_Delete r i)"
  using assms by (simp_all add: repoRuns_def)

lemma runsAs_ensureEmailFree:
  "repoRuns pr r \<Longrightarrow> runsAs (procEnsureEmailFree pr email) (ensureEmailFree r email)"
  using repoRunsD(3) [of pr r email]
  by (simp add: runsAs_def procEnsureEmailFree_def runAlone_bind ensureEmailFree_def split: prod.splits sum.splits)

lemma runsAs_bodies:
  assumes "repoRuns pr (dp_repo uc)"
  shows "runsAs (procCreateBody pr a) (createBody uc a)" "runsAs (procUpdateBody pr now req) (updateBody uc now req)"
    "runsAs (procDeleteBody pr i) (deleteBody uc i)"
  unfolding procCreateBody_def createBody_def procUpdateBody_def updateBody_def procDeleteBody_def deleteBody_def
  by (intro runs_as runsAs_ensureEmailFree repoRunsD assms)+

text \<open>
  The interleaved model is the sequential one cut into atoms.  Run without interruption,
  the processes of Create, Get, Update and Delete return what the operations of the use case
  return and leave the state they leave, whatever the repository, cached or not, and the
  transaction manager.
\<close>

lemma processes_run_as_use_case:
  assumes "repoRuns pr (dp_repo uc)" "dp_tx uc = txInParts t"
  shows "runAlone (procCreate uni uc pr t now uid req) s = Some (ucCreate uni uc now uid req s)
    \<and> runAlone (procGet pr i) s = Some (ucGet uc i s)
    \<and> runAlone (procUpdate pr t now ureq) s = Some (ucUpdate uc now ureq s)
    \<and> runAlone (procDelete uc pr t i) s =
      Some (case ucDelete uc i s of (Inl e, s') \<Rightarrow> (Inl e, s') | (Inr _, s') \<Rightarrow> (Inr None, s'))"
proof -
  note bodies = runsAs_bodies [OF assms(1)]
  have "runsAs (procCreate uni uc pr t now uid req) (ucCreate uni uc now uid req)"
    unfolding procCreate_def ucCreate_def assms(2) by (intro runs_as runsAs_WithTx bodies)
  moreover have "runsAs (procGet pr i) (ucGet uc i)"
    unfolding procGet_def ucGet_def by (intro runs_as repoRunsD [OF assms(1)])
  moreover have "runsAs (procUpdate pr t now ureq) (ucUpdate uc now ureq)"
    unfolding procUpdate_def ucUpdate_def assms(2) by (intro runs_as runsAs_WithTx bodies)
  moreover have "runsAs (procDelete uc pr t i) (if i = [] then throw idRequired else
      andThen (txInParts t (deleteBody uc i)) (\<lambda>_. andThen (logInfo uc ''account deleted'' i) (\<lambda>_. ret None)))"
    unfolding procDelete_def by (intro runs_as runsAs_WithTx bodies)
  ultimately show ?thesis
    by (simp add: runsAs_def ucDelete_def assms(2) andThen_def split: prod.splits sum.splits)
qed

end
