(* ===== verification/CreateRace.thy ===== *)
theory CreateRace
  imports RelyGuarantee UseCaseProcs UseCaseWorld
begin

text \<open>
  Several Creates in flight.  \<open>ensureEmailFree\<close> and the insert are two statements, so two requests
  may both find an email free; on PostgreSQL the second insert waits for the first transaction
  and then violates the unique constraint.  The locale \<open>insert_server\<close> says what the code relies
  on of the server; the process of every Create is proved against the guarantees of the others.
\<close>

section \<open>Statements that wait\<close>

text \<open>A backend whose inserts wait while another transaction holds the same key.\<close>

definition lockingProcs :: "(account \<Rightarrow> 's \<Rightarrow> bool) \<Rightarrow> 's AccountRepository \<Rightarrow> 's procRepository" where
  "lockingProcs busy r = (statements r)\<lparr>pr_Create := \<lambda>a. atomUnless (busy a) (repo_Create r a)\<rparr>"

lemma never_busy: "lockingProcs (\<lambda>_ _. False) r = statements r"
  by (simp add: lockingProcs_def statements_def atomUnless_def atom_def)

text \<open>
  \<open>view\<close> is the committed data, \<open>pend s k\<close> what transaction \<open>k\<close> has inserted and not committed.
  Statements of \<open>k\<close> see the committed data and their own insert.  An insert succeeds only when no
  other transaction holds its id or email: until then it waits (PostgreSQL) or fails (MongoDB).
\<close>

locale insert_server =
  fixes repoAt :: "nat \<Rightarrow> 's AccountRepository" and t :: "nat \<Rightarrow> 's TxOps"
    and busy :: "nat \<Rightarrow> account \<Rightarrow> 's \<Rightarrow> bool"
    and view :: "'s \<Rightarrow> accounts" and pend :: "'s \<Rightarrow> nat \<Rightarrow> account option" and enc :: "account \<Rightarrow> account"
  assumes enc_keys: "ID (enc a) = ID a" "Email (enc a) = Email a"
    and begins: "to_begin (t k) s = (x, s') \<Longrightarrow>
        view s' = view s \<and> pend s' = (pend s)(k := None) \<and> (\<forall>e. x = Inl e \<longrightarrow> noApp e)"
    and lookup: "repo_GetByEmail (repoAt k) m s = (y, s') \<Longrightarrow> view s' = view s \<and> pend s' = pend s"
    and lookup_found: "repo_GetByEmail (repoAt k) m s = (Inr p, s') \<Longrightarrow> pend s k = None \<Longrightarrow> emailTaken (view s) m"
    and lookup_err: "repo_GetByEmail (repoAt k) m s = (Inl e, s') \<Longrightarrow> \<not> errorsIs e (App ErrAccountAlreadyExists)"
    and waits: "\<not> busy k a s \<Longrightarrow> repo_Create (repoAt k) a s = (Inr i, s') \<Longrightarrow> k' \<noteq> k \<Longrightarrow> pend s k' = Some b \<Longrightarrow>
        ID b \<noteq> ID a \<and> Email b \<noteq> Email a"
    and insert_ok: "repo_Create (repoAt k) a s = (Inr i, s') \<Longrightarrow>
        i = ID a \<and> view s (ID a) = None \<and> \<not> emailTaken (view s) (Email a)
        \<and> view s' = view s \<and> pend s' = (pend s)(k \<mapsto> enc a)"
    and insert_err: "repo_Create (repoAt k) a s = (Inl e, s') \<Longrightarrow> view s' = view s \<and> pend s' = pend s
        \<and> (pend s k = None \<longrightarrow> errorsIs e (App ErrAccountAlreadyExists) \<longrightarrow>
            view s (ID a) \<noteq> None \<or> emailTaken (view s) (Email a))"
    and commit_ok: "to_commit (t k) s = (Inr u, s') \<Longrightarrow> pend s' = (pend s)(k := None)
        \<and> view s' = (case pend s k of None \<Rightarrow> view s | Some a \<Rightarrow> (view s)(ID a \<mapsto> a))"
    and commit_err: "to_commit (t k) s = (Inl e, s') \<Longrightarrow> pend s' = (pend s)(k := None) \<and> view s' = view s \<and> noApp e"
    and rolls_back: "pend (to_rollback (t k) s) = (pend s)(k := None)" "view (to_rollback (t k) s) = view s"
begin

text \<open>The pending inserts can be committed in any order.\<close>

definition compatible :: "'s \<Rightarrow> bool" where
  "compatible s \<longleftrightarrow> wf_accounts (view s)
     \<and> (\<forall>k a. pend s k = Some a \<longrightarrow> view s (ID a) = None \<and> \<not> emailTaken (view s) (Email a))
     \<and> (\<forall>k k' a b. k \<noteq> k' \<longrightarrow> pend s k = Some a \<longrightarrow> pend s k' = Some b \<longrightarrow> ID a \<noteq> ID b \<and> Email a \<noteq> Email b)"

definition onlyOwn :: "nat \<Rightarrow> 's \<Rightarrow> 's \<Rightarrow> bool" where
  "onlyOwn k s s' \<longleftrightarrow> view s \<subseteq>\<^sub>m view s' \<and> (\<forall>m. m \<noteq> k \<longrightarrow> pend s' m = pend s m)"

definition elsewhere :: "'s \<Rightarrow> 's \<Rightarrow> bool" where
  "elsewhere s s' \<longleftrightarrow> view s' = view s \<and> pend s' = pend s"

abbreviation sound :: "nat \<Rightarrow> ('s \<Rightarrow> bool) \<Rightarrow> ('s, 'a) proc \<Rightarrow> ('a \<Rightarrow> 's \<Rightarrow> bool) \<Rightarrow> bool" where
  "sound \<equiv> proves compatible onlyOwn elsewhere"

abbreviation steady :: "nat \<Rightarrow> ('s \<Rightarrow> bool) \<Rightarrow> bool" where
  "steady \<equiv> stable compatible onlyOwn elsewhere"

lemma steadyI:
  "(\<And>s s'. B s \<Longrightarrow> view s \<subseteq>\<^sub>m view s' \<Longrightarrow> pend s' k = pend s k \<Longrightarrow> B s') \<Longrightarrow> steady k B"
  unfolding stable_def onlyOwn_def elsewhere_def by (metis map_le_refl)

lemma compatible_same: "compatible s \<Longrightarrow> view s' = view s \<Longrightarrow> pend s' = pend s \<Longrightarrow> compatible s'"
  by (simp add: compatible_def)

lemma quiet_call:
  "compatible s \<Longrightarrow> view s' = view s \<Longrightarrow> pend s' = pend s \<Longrightarrow> compatible s' \<and> onlyOwn k s s'"
  by (auto simp: onlyOwn_def intro: compatible_same)

lemma compatible_drop: "compatible s \<Longrightarrow> view s' = view s \<Longrightarrow> pend s' = (pend s)(k := None) \<Longrightarrow> compatible s'"
  by (auto simp: compatible_def split: if_splits)

lemma compatible_insert:
  assumes "compatible s" "view s' = view s" "pend s' = (pend s)(k \<mapsto> a)" "view s (ID a) = None"
    "\<not> emailTaken (view s) (Email a)" "\<And>k' b. k' \<noteq> k \<Longrightarrow> pend s k' = Some b \<Longrightarrow> ID b \<noteq> ID a \<and> Email b \<noteq> Email a"
  shows "compatible s'"
  using assms(1-5) unfolding compatible_def by (auto split: if_splits) (metis assms(6))+

lemma emailTaken_upd: "emailTaken (v(i \<mapsto> a)) m \<Longrightarrow> v i = None \<Longrightarrow> emailTaken v m \<or> Email a = m"
  by (auto simp: emailTaken_def ran_def split: if_splits)

lemma emailTaken_mono: "emailTaken v m \<Longrightarrow> v \<subseteq>\<^sub>m v' \<Longrightarrow> emailTaken v' m"
  unfolding emailTaken_def ran_def by (auto dest: map_le_SomeD)

lemma compatible_commit:
  assumes c: "compatible s" and p: "pend s k = Some a" and s': "view s' = (view s)(ID a \<mapsto> a)" "pend s' = (pend s)(k := None)"
  shows "compatible s'"
proof -
  from c p have free: "view s (ID a) = None" "\<not> emailTaken (view s) (Email a)" by (auto simp: compatible_def)
  from c have "wf_accounts (view s)" by (simp add: compatible_def)
  then have wf: "wf_accounts (view s')" unfolding s'(1) using free(2) by (rule wf_accounts_insert)
  have "view s' (ID b) = None \<and> \<not> emailTaken (view s') (Email b)" if "pend s' m = Some b" for m b
  proof -
    from that have m: "m \<noteq> k" "pend s m = Some b" by (auto simp: s'(2) split: if_splits)
    with c p have "view s (ID b) = None" "\<not> emailTaken (view s) (Email b)" "ID b \<noteq> ID a" "Email b \<noteq> Email a"
      unfolding compatible_def by blast+
    then show ?thesis using emailTaken_upd [of "view s" "ID a" a "Email b"] free(1) by (auto simp: s'(1))
  qed
  with wf c show ?thesis by (auto simp: compatible_def s'(2) split: if_splits)
qed

text \<open>What Create number \<open>k\<close> leaves: its account stored, or an error that reports a conflict only if there is one.\<close>

definition taken :: "string \<Rightarrow> string \<Rightarrow> go_error \<Rightarrow> 's \<Rightarrow> bool" where
  "taken uid m e s \<longleftrightarrow> (errorsIs e (App ErrAccountAlreadyExists) \<longrightarrow> view s uid \<noteq> None \<or> emailTaken (view s) m)"

definition created :: "string \<Rightarrow> string \<Rightarrow> go_error + account ptr \<Rightarrow> 's \<Rightarrow> bool" where
  "created uid m x s \<longleftrightarrow> (case x of Inl e \<Rightarrow> taken uid m e s
     | Inr p \<Rightarrow> \<exists>a. p = Some a \<and> ID a = uid \<and> Email a = m \<and> view s uid = Some (enc a))"

lemma taken_mono: "taken uid m e s \<Longrightarrow> view s \<subseteq>\<^sub>m view s' \<Longrightarrow> taken uid m e s'"
  unfolding taken_def by (metis emailTaken_mono map_le_SomeD not_None_eq)

lemma created_mono: "created uid m x s \<Longrightarrow> view s \<subseteq>\<^sub>m view s' \<Longrightarrow> created uid m x s'"
  unfolding created_def by (auto intro: taken_mono dest: map_le_SomeD split: sum.splits)

lemma taken_noApp: "noApp e \<Longrightarrow> taken uid m e s" "noApp e \<Longrightarrow> taken uid m (App (Cause ErrInternal e)) s"
  by (simp_all add: taken_def)

lemma steady_created: "steady k (created uid m x)"
  by (rule steadyI) (rule created_mono)

lemma steady_idle: "steady k (\<lambda>s. pend s k = None \<and> P)"
  by (rule steadyI) simp

lemma steady_failed: "steady k (\<lambda>s. pend s k = None \<and> taken uid m e s)"
  by (rule steadyI) (auto intro: taken_mono)

lemma steady_inserted: "steady k (\<lambda>s. pend s k = Some a \<and> P)"
  by (rule steadyI) simp

text \<open>A call that leaves the database alone.\<close>

lemma sound_idle:
  assumes "\<And>s y s'. m s = (y, s') \<Longrightarrow> view s' = view s \<and> pend s' = pend s \<and> P y"
  shows "sound k (\<lambda>s. pend s k = None) (atom m) (\<lambda>y s. pend s k = None \<and> P y)"
proof (rule proves_atom)
  fix s y s' assume c: "compatible s" "pend s k = None" and r: "m s = (y, s')"
  from assms [OF r] c quiet_call [OF c(1)] show "compatible s' \<and> onlyOwn k s s' \<and> pend s' k = None \<and> P y" by simp
qed (rule steady_idle)

lemma sound_keeps_created:
  assumes "\<And>s y s'. m s = (y, s') \<Longrightarrow> view s' = view s \<and> pend s' = pend s \<and> P y"
  shows "sound k (created uid n x) (atom m) (\<lambda>y s. created uid n x s \<and> P y)"
proof (rule proves_atom)
  fix s y s' assume c: "compatible s" "created uid n x s" and r: "m s = (y, s')"
  from assms [OF r] have v: "view s' = view s" "pend s' = pend s" "P y" by blast+
  have "created uid n x s'" by (rule created_mono [OF c(2)]) (simp add: v)
  with v quiet_call [OF c(1)] show "compatible s' \<and> onlyOwn k s s' \<and> created uid n x s' \<and> P y" by simp
qed (rule steadyI, blast intro: created_mono)

lemma sound_email:
  "sound k (\<lambda>s. pend s k = None) (procEnsureEmailFree (lockingProcs (busy k) (repoAt k)) m)
     (\<lambda>y s. pend s k = None \<and> (\<forall>e. y = Inl e \<longrightarrow> taken uid m e s))"
proof -
  let ?m = "repo_GetByEmail (repoAt k) m"
  let ?Q = "\<lambda>y s. pend s k = None \<and> (case y of Inr p \<Rightarrow> emailTaken (view s) m | Inl e \<Rightarrow> taken uid m e s)"
  have "sound k (\<lambda>s. pend s k = None) (atom ?m) ?Q"
  proof (rule proves_atom)
    fix s y s' assume c: "compatible s" "pend s k = None" and r: "?m s = (y, s')"
    from lookup [OF r] have v: "view s' = view s" "pend s' = pend s" by blast+
    have "?Q y s'"
    proof (cases y)
      case (Inl e)
      with lookup_err [of k m s e s'] r v c show ?thesis by (simp add: taken_def)
    next
      case (Inr p)
      with lookup_found [of k m s p s'] r v c show ?thesis by simp
    qed
    with quiet_call [OF c(1) v] show "compatible s' \<and> onlyOwn k s s' \<and> ?Q y s'" by blast
  next
    show "steady k (?Q y)" for y
      by (rule steadyI) (cases y; auto intro: taken_mono emailTaken_mono)
  qed
  then show ?thesis
    unfolding procEnsureEmailFree_def lockingProcs_def statements_def
    by (simp del: pBind_atom) (erule proves_pBind, auto simp: taken_def split: sum.splits)
qed

lemma sound_insert:
  assumes "ID a = uid" "Email a = m"
  shows "sound k (\<lambda>s. pend s k = None) (pr_Create (lockingProcs (busy k) (repoAt k)) a)
     (\<lambda>y s. case y of Inr i \<Rightarrow> pend s k = Some (enc a) \<and> i = ID a | Inl e \<Rightarrow> pend s k = None \<and> taken uid m e s)"
proof -
  let ?m = "repo_Create (repoAt k) a"
  let ?Q = "\<lambda>y s. case y of Inr i \<Rightarrow> pend s k = Some (enc a) \<and> i = ID a | Inl e \<Rightarrow> pend s k = None \<and> taken uid m e s"
  have "sound k (\<lambda>s. pend s k = None) (atomUnless (busy k a) ?m) ?Q"
  proof (rule proves_atomUnless)
    fix s y s' assume c: "compatible s" "pend s k = None" "\<not> busy k a s" and r: "?m s = (y, s')"
    show "compatible s' \<and> onlyOwn k s s' \<and> ?Q y s'"
    proof (cases y)
      case (Inl e)
      with insert_err [of k a s e s'] r have v: "view s' = view s" "pend s' = pend s" by blast+
      moreover have "taken uid m e s'"
        using insert_err [of k a s e s'] r c(2) Inl by (simp add: taken_def assms)
      ultimately show ?thesis using quiet_call [OF c(1) v] c(2) Inl by simp
    next
      case (Inr i)
      with insert_ok [of k a s i s'] r have i: "i = ID a" "view s' = view s" "pend s' = (pend s)(k \<mapsto> enc a)"
        "view s (ID (enc a)) = None" "\<not> emailTaken (view s) (Email (enc a))" by (auto simp: enc_keys)
      from c(1) i(2-5) have "compatible s'"
        by (rule compatible_insert) (use waits [OF c(3) r [unfolded Inr]] in \<open>auto simp: enc_keys\<close>)
      with i Inr show ?thesis by (simp add: onlyOwn_def)
    qed
  next
    show "steady k (?Q y)" for y
      by (cases y) (simp_all add: steady_failed steady_inserted)
  qed
  then show ?thesis by (simp add: lockingProcs_def)
qed

lemma sound_body:
  assumes "ID a = uid" "Email a = m"
  shows "sound k (\<lambda>s. pend s k = None) (procCreateBody (lockingProcs (busy k) (repoAt k)) a)
     (\<lambda>y s. case y of Inr p \<Rightarrow> pend s k = Some (enc a) \<and> p = Some a | Inl e \<Rightarrow> pend s k = None \<and> taken uid m e s)"
  (is "sound k _ _ ?Q")
proof -
  let ?pr = "lockingProcs (busy k) (repoAt k)"
  have ins: "sound k (\<lambda>s. pend s k = None) (pThen (pr_Create ?pr a) (\<lambda>i. Done (Inr (Some (a\<lparr>ID := i\<rparr>))))) ?Q"
    by (rule proves_pThen [where B = "\<lambda>i s. pend s k = Some (enc a) \<and> i = ID a"])
      (use sound_insert [OF assms, of k] in \<open>auto cong: sum.case_cong\<close>)
  show ?thesis
    unfolding procCreateBody_def assms(2)
  proof (rule proves_pThen [where B = "\<lambda>_ s. pend s k = None"])
    show "sound k (\<lambda>s. pend s k = None) (procEnsureEmailFree ?pr m)
        (\<lambda>y s. case y of Inl e \<Rightarrow> ?Q (Inl e) s | Inr u \<Rightarrow> pend s k = None)"
      by (rule proves_weaken [OF sound_email]) (auto simp: taken_def split: sum.splits)
  qed (rule ins)
qed

lemma sound_finish:
  assumes "ID a = uid" "Email a = m"
  shows "sound k (\<lambda>s. case y of Inr p \<Rightarrow> pend s k = Some (enc a) \<and> p = Some a | Inl e \<Rightarrow> pend s k = None \<and> taken uid m e s)
     (procFinish (t k) y) (created uid m)"
proof (cases y)
  case (Inl e)
  have "sound k (\<lambda>s. pend s k = None \<and> taken uid m e s) (atom (rollingBack (t k) e)) (created uid m)"
  proof (rule proves_atom)
    fix s s' and z :: "go_error + account ptr"
    assume c: "compatible s" "pend s k = None \<and> taken uid m e s" and r: "rollingBack (t k) e s = (z, s')"
    then have z: "z = Inl e" and v: "view s' = view s" "pend s' = (pend s)(k := None)"
      by (auto simp: rollingBack_def rolls_back)
    from c(1) v have "compatible s'" by (rule compatible_drop)
    with c v z show "compatible s' \<and> onlyOwn k s s' \<and> created uid m z s'"
      by (simp add: onlyOwn_def created_def taken_def)
  qed (rule steady_created)
  with Inl show ?thesis by (simp add: procFinish_def)
next
  case (Inr p)
  have "sound k (\<lambda>s. pend s k = Some (enc a) \<and> p = Some a) (atom (to_commit (t k)))
      (\<lambda>z s. case z of Inl e \<Rightarrow> created uid m (Inl e) s | Inr _ \<Rightarrow> created uid m (Inr p) s)" (is "sound k ?A _ ?Q")
  proof (rule proves_atom)
    fix s z s' assume c: "compatible s" "?A s" and r: "to_commit (t k) s = (z, s')"
    show "compatible s' \<and> onlyOwn k s s' \<and> ?Q z s'"
    proof (cases z)
      case (Inl e)
      with commit_err [of k s e s'] r have v: "view s' = view s" "pend s' = (pend s)(k := None)" "noApp e" by auto
      from c(1) v(1,2) have "compatible s'" by (rule compatible_drop)
      with v Inl show ?thesis by (simp add: onlyOwn_def created_def taken_noApp)
    next
      case (Inr u)
      with commit_ok [of k s u s'] r c(2) have v: "view s' = (view s)(ID (enc a) \<mapsto> enc a)" "pend s' = (pend s)(k := None)"
        by auto
      from c have free: "view s (ID (enc a)) = None" by (auto simp: compatible_def)
      from c(1) conjunct1 [OF c(2)] v have "compatible s'" by (rule compatible_commit)
      moreover have "view s \<subseteq>\<^sub>m view s'" using free by (auto simp: v(1) map_le_def)
      ultimately show ?thesis using c(2) v Inr assms by (simp add: onlyOwn_def created_def enc_keys)
    qed
  next
    show "steady k (?Q z)" for z by (cases z) (simp_all add: steady_created)
  qed
  then have "sound k ?A (pThen (atom (to_commit (t k))) (\<lambda>_. Done (Inr p))) (created uid m)"
    by (rule proves_pThen) simp
  with Inr show ?thesis by (simp add: procFinish_def)
qed

lemma sound_tx:
  assumes "ID a = uid" "Email a = m"
  shows "sound k (\<lambda>s. pend s k = None) (procWithTx (t k) (procCreateBody (lockingProcs (busy k) (repoAt k)) a)) (created uid m)"
  unfolding procWithTx_def
proof (rule proves_pThen [where B = "\<lambda>_ s. pend s k = None"])
  show "sound k (\<lambda>s. pend s k = None) (atom (to_begin (t k)))
      (\<lambda>y s. case y of Inl e \<Rightarrow> created uid m (Inl e) s | Inr _ \<Rightarrow> pend s k = None)" (is "sound k _ _ ?Q")
  proof (rule proves_atom)
    fix s y s' assume c: "compatible s" "pend s k = None" and r: "to_begin (t k) s = (y, s')"
    from begins [OF r] c(2) have v: "view s' = view s" "pend s' = pend s" "\<forall>e. y = Inl e \<longrightarrow> noApp e" by auto
    with quiet_call [OF c(1) v(1,2)] c(2) show "compatible s' \<and> onlyOwn k s s' \<and> ?Q y s'"
      by (auto simp: created_def taken_noApp split: sum.splits)
  next
    show "steady k (?Q y)" for y
      using steady_idle [of k True] by (cases y) (simp_all add: steady_created)
  qed
  show "sound k (\<lambda>s. pend s k = None) (pBind (procCreateBody (lockingProcs (busy k) (repoAt k)) a) (procFinish (t k)))
      (created uid m)"
    by (rule proves_pBind [OF sound_body [OF assms]]) (rule sound_finish [OF assms])
qed

text \<open>The whole Create, from the limiter to the log line.\<close>

lemma sound_create:
  assumes lim: "\<And>q s y s'. dp_limiter uc q s = (y, s') \<Longrightarrow> view s' = view s \<and> pend s' = pend s \<and> (\<forall>e. y = Inl e \<longrightarrow> noApp e)"
    and log: "\<And>msg i s. view (dp_log uc msg i s) = view s" "\<And>msg i s. pend (dp_log uc msg i s) = pend s"
    and pw: "dp_passwords uc = passwordService bcrypt" "\<And>p e. bcrypt p = Inl e \<Longrightarrow> noApp e"
  shows "sound k (\<lambda>s. pend s k = None)
     (procCreate uni uc (lockingProcs (busy k) (repoAt k)) (t k) now uid req) (created uid (cr_Email req))"
proof -
  let ?m = "cr_Email req" and ?N = "\<lambda>s. pend s k = None"
  have fin: "sound k (created uid ?m (Inr account)) (pThen (atom (logInfo uc msg i)) (\<lambda>_. Done (Inr account))) (created uid ?m)"
    for account msg i
  proof (rule proves_pThen [where B = "\<lambda>_. created uid ?m (Inr account)"])
    have "sound k (created uid ?m (Inr account)) (atom (logInfo uc msg i)) (\<lambda>y s. created uid ?m (Inr account) s \<and> y = Inr ())"
      by (rule sound_keeps_created) (auto simp: logInfo_def log)
    then show "sound k (created uid ?m (Inr account)) (atom (logInfo uc msg i))
        (\<lambda>y s. case y of Inl e \<Rightarrow> created uid ?m (Inl e) s | Inr _ \<Rightarrow> created uid ?m (Inr account) s)"
      by (rule proves_weaken) auto
  qed simp
  have tx: "sound k ?N (pThen (procWithTx (t k) (procCreateBody (lockingProcs (busy k) (repoAt k)) (newAccount uid now h req)))
      (\<lambda>account. pThen (atom (logInfo uc ''account created'' (case account of None \<Rightarrow> [] | Some a \<Rightarrow> ID a)))
      (\<lambda>_. Done (Inr account)))) (created uid ?m)" for h
    by (rule proves_pThen [where B = "\<lambda>p. created uid ?m (Inr p)"])
      (rule proves_weaken [OF sound_tx [of "newAccount uid now h req" uid ?m]], auto intro: fin split: sum.splits)
  have idle: "sound k ?N (atom m) (\<lambda>y s. case y of Inl e \<Rightarrow> created uid ?m (Inl e) s | Inr _ \<Rightarrow> pend s k = None)"
    if "\<And>s y s'. m s = (y, s') \<Longrightarrow> view s' = view s \<and> pend s' = pend s \<and> (\<forall>e. y = Inl e \<longrightarrow> (\<exists>e0. e = App (Cause ErrInternal e0) \<and> noApp e0))"
    for m :: "('s, go_error, 'x) op"
    by (rule proves_weaken, rule sound_idle, rule that, assumption)
      (auto simp: created_def taken_noApp split: sum.splits)
  have hash: "sound k ?N (atom (mapErr (\<lambda>err. App (Cause ErrInternal err)) (liftR (pw_Hash (dp_passwords uc) p))))
      (\<lambda>y s. case y of Inl e \<Rightarrow> created uid ?m (Inl e) s | Inr _ \<Rightarrow> pend s k = None)" for p
    by (rule idle) (auto simp: mapErr_def pw(1) Hash_def dest: pw(2) split: sum.splits)
  have refused: "taken uid ?m (App (WithMetadata ErrTooManyRequests ''retry_after'' d)) s" "validateEmail ?m = Inl e \<Longrightarrow> taken uid ?m e s"
    "ensureStrongPassword (dp_passwords uc) p = Inl e \<Longrightarrow> taken uid ?m e s" for d p e s
    by (auto simp: taken_def errorsIs_App validateEmail_def ensureStrongPassword_def pw(1) IsValidPassword_def
        split: if_splits)
  have guards: "sound k ?N (pThen (Done (validateEmail ?m)) (\<lambda>_. pThen (Done (ensureStrongPassword (dp_passwords uc) (cr_Password req)))
      (\<lambda>_. pThen (atom (mapErr (\<lambda>err. App (Cause ErrInternal err)) (liftR (pw_Hash (dp_passwords uc) (cr_Password req)))))
      (\<lambda>h. pThen (procWithTx (t k) (procCreateBody (lockingProcs (busy k) (repoAt k)) (newAccount uid now h req)))
      (\<lambda>account. pThen (atom (logInfo uc ''account created'' (case account of None \<Rightarrow> [] | Some a \<Rightarrow> ID a)))
      (\<lambda>_. Done (Inr account))))))) (created uid ?m)"
    by (intro proves_pThen [where B = "\<lambda>_. ?N"] tx hash)
      (auto simp: created_def refused split: sum.splits)
  show ?thesis
    unfolding procCreate_def
  proof (rule proves_pThen [where B = "\<lambda>_. ?N"])
    show "sound k ?N (atom (mapErr (\<lambda>err. App (Cause ErrInternal err)) (dp_limiter uc q)))
        (\<lambda>y s. case y of Inl e \<Rightarrow> created uid ?m (Inl e) s | Inr _ \<Rightarrow> pend s k = None)" for q
      by (rule idle) (auto simp: mapErr_def dest: lim split: sum.splits prod.splits)
  qed (rule proves_if, simp add: created_def refused, rule guards)
qed

end

text \<open>The server as a part of a larger state.\<close>

definition txOn :: "('s \<Rightarrow> 'p) \<Rightarrow> ('p \<Rightarrow> 's \<Rightarrow> 's) \<Rightarrow> 'p TxOps \<Rightarrow> 's TxOps" where
  "txOn get upd t = \<lparr>to_begin = onPart get upd (to_begin t), to_commit = onPart get upd (to_commit t),
     to_rollback = (\<lambda>s. upd (to_rollback t (get s)) s)\<rparr>"

context insert_server
begin

lemma on_part:
  assumes "store_part get upd"
  shows "insert_server (\<lambda>k. repoOn get upd (repoAt k)) (\<lambda>k. txOn get upd (t k)) (\<lambda>k a s. busy k a (get s))
    (view \<circ> get) (pend \<circ> get) enc"
proof -
  note cases = store_part.onPart_cases [OF assms] and get = store_part.get_upd [OF assms]
  show ?thesis
    by (rule insert_server.intro, unfold comp_apply)
      (auto simp: enc_keys txOn_def rolls_back get dest!: cases dest: begins lookup lookup_found lookup_err
        waits insert_ok insert_err commit_ok commit_err)
qed

end

text \<open>Each Create of a pool against the guarantees of the others.\<close>

lemma creates_hold:
  assumes "insert_server repoAt t busy view pend enc"
    and "\<And>q s y s'. dp_limiter uc q s = (y, s') \<Longrightarrow> view s' = view s \<and> pend s' = pend s \<and> (\<forall>e. y = Inl e \<longrightarrow> noApp e)"
    and "\<And>msg i s. view (dp_log uc msg i s) = view s" "\<And>msg i s. pend (dp_log uc msg i s) = pend s"
    and "dp_passwords uc = passwordService bcrypt" "\<And>p e. bcrypt p = Inl e \<Longrightarrow> noApp e"
    and "ps = map (\<lambda>k. procCreate uni uc (lockingProcs (busy k) (repoAt k)) (t k) (now k) (uid k) (req k)) [0..<N]"
    and "wf_accounts (view s)" "\<And>k. pend s k = None"
    and "(poolStep (\<lambda>s s'. view s' = view s \<and> pend s' = pend s))\<^sup>*\<^sup>* (ps, s) (qs, s')"
  shows "wf_accounts (view s') \<and> (\<forall>k < N. \<forall>x. qs ! k = Done x \<longrightarrow> insert_server.created view enc (uid k) (cr_Email (req k)) x s')"
proof -
  note srv = assms(1)
  let ?J = "insert_server.compatible view pend" and ?G = "insert_server.onlyOwn view pend" and ?E = "insert_server.elsewhere view pend"
  let ?Q = "\<lambda>k. insert_server.created view enc (uid k) (cr_Email (req k))"
  have E: "?E = (\<lambda>s s'. view s' = view s \<and> pend s' = pend s)"
    by (simp add: fun_eq_iff insert_server.elsewhere_def [OF srv])
  have start: "?J s" using assms(8,9) by (simp add: insert_server.compatible_def [OF srv])
  have each: "stable ?J ?G ?E k (\<lambda>s. pend s k = None) \<and> pend s k = None
      \<and> proves ?J ?G ?E k (\<lambda>s. pend s k = None) (ps ! k) (?Q k)" if "k < length ps" for k
    using that insert_server.sound_create [OF srv assms(2-6)] insert_server.steady_idle [OF srv, of k True]
    by (simp add: assms(7,9))
  have "?J s' \<and> length qs = length ps \<and> (\<forall>k < length ps. \<forall>x. qs ! k = Done x \<longrightarrow> ?Q k x s')"
    by (rule pool_proves [OF assms(10) [folded E] start each])
      (auto intro: insert_server.compatible_same [OF srv] simp: insert_server.elsewhere_def [OF srv])
  then have J: "?J s'" and Q: "\<And>k x. k < N \<Longrightarrow> qs ! k = Done x \<Longrightarrow> ?Q k x s'" by (simp_all add: assms(7))
  have "wf_accounts (view s')" using J by (simp add: insert_server.compatible_def [OF srv])
  with Q show ?thesis by blast
qed

section \<open>Properties\<close>

text \<open>
  C7: concurrent Creates.  Any number of Creates with different ids run interleaved over a
  server that keeps the contract, with inserts waiting for each other, limiter and log
  in between.  At every moment: the committed accounts have unique ids and emails; each Create
  that is done without an error has its account stored; no two of them had the same email; and
  one that is done with a conflict had its id or its email taken.
\<close>

theorem concurrent_creates:
  assumes "insert_server repoAt t busy view pend enc"
    and "\<And>q s y s'. dp_limiter uc q s = (y, s') \<Longrightarrow> view s' = view s \<and> pend s' = pend s \<and> (\<forall>e. y = Inl e \<longrightarrow> noApp e)"
    and "\<And>msg i s. view (dp_log uc msg i s) = view s" "\<And>msg i s. pend (dp_log uc msg i s) = pend s"
    and "dp_passwords uc = passwordService bcrypt" "\<And>p e. bcrypt p = Inl e \<Longrightarrow> noApp e"
    and "ps = map (\<lambda>k. procCreate uni uc (lockingProcs (busy k) (repoAt k)) (t k) (now k) (uid k) (req k)) [0..<N]"
    and "inj_on uid {..<N}" "wf_accounts (view s)" "\<And>k. pend s k = None"
    and "(poolStep (\<lambda>s s'. view s' = view s \<and> pend s' = pend s))\<^sup>*\<^sup>* (ps, s) (qs, s')"
  shows "wf_accounts (view s')
    \<and> (\<forall>k < N. \<forall>p. qs ! k = Done (Inr p) \<longrightarrow>
         (\<exists>a. p = Some a \<and> ID a = uid k \<and> Email a = cr_Email (req k) \<and> view s' (uid k) = Some (enc a)))
    \<and> (\<forall>j < N. \<forall>k < N. \<forall>p q. j \<noteq> k \<longrightarrow> qs ! j = Done (Inr p) \<longrightarrow> qs ! k = Done (Inr q) \<longrightarrow>
         cr_Email (req j) \<noteq> cr_Email (req k))
    \<and> (\<forall>k < N. \<forall>e. qs ! k = Done (Inl e) \<longrightarrow> errorsIs e (App ErrAccountAlreadyExists) \<longrightarrow>
         view s' (uid k) \<noteq> None \<or> emailTaken (view s') (cr_Email (req k)))"
proof -
  note srv = assms(1)
  let ?Q = "\<lambda>k. insert_server.created view enc (uid k) (cr_Email (req k))"
  have "wf_accounts (view s') \<and> (\<forall>k < N. \<forall>x. qs ! k = Done x \<longrightarrow> ?Q k x s')"
    by (rule creates_hold [OF assms(1-7,9-11)]) assumption+
  then have wf: "wf_accounts (view s')" and Q: "\<And>k x. k < N \<Longrightarrow> qs ! k = Done x \<Longrightarrow> ?Q k x s'" by blast+
  have ok: "\<exists>a. p = Some a \<and> ID a = uid k \<and> Email a = cr_Email (req k) \<and> view s' (uid k) = Some (enc a)"
    if "k < N" "qs ! k = Done (Inr p)" for k p
    using Q [OF that] by (simp add: insert_server.created_def [OF srv])
  have distinct: "cr_Email (req j) \<noteq> cr_Email (req k)"
    if jk: "j < N" "k < N" "j \<noteq> k" and d: "qs ! j = Done (Inr p)" "qs ! k = Done (Inr q)" for j k p q
  proof
    assume "cr_Email (req j) = cr_Email (req k)"
    with ok [OF jk(1) d(1)] ok [OF jk(2) d(2)] obtain a b where
      "view s' (uid j) = Some (enc a)" "view s' (uid k) = Some (enc b)" "Email (enc a) = Email (enc b)"
      by (auto simp: insert_server.enc_keys [OF srv])
    with wf have "uid j = uid k" unfolding wf_accounts_def by blast
    with assms(8) jk show False by (auto dest: inj_onD)
  qed
  have "view s' (uid k) \<noteq> None \<or> emailTaken (view s') (cr_Email (req k))"
    if "k < N" "qs ! k = Done (Inl e)" "errorsIs e (App ErrAccountAlreadyExists)" for k e
    using Q [OF that(1,2)] that(3) by (simp add: insert_server.created_def [OF srv] insert_server.taken_def [OF srv])
  with wf ok distinct show ?thesis by blast
qed

end
