(* ===== verification/UpdateRace.thy ===== *)
theory UpdateRace
  imports CreateRace
begin

text \<open>
  Several Updates in flight.  An UPDATE locks its row until its transaction ends, so that another
  one waits and then sets its own columns in the row it finds; the locale \<open>update_server\<close> says
  what the code relies on.  No field that an Update has set is lost to another that does not set it.
\<close>

section \<open>Rows that are locked\<close>

definition rowLocking :: "(string \<Rightarrow> 's \<Rightarrow> bool) \<Rightarrow> 's AccountRepository \<Rightarrow> 's procRepository" where
  "rowLocking busy r = (statements r)\<lparr>pr_Update := \<lambda>p. atomUnless (busy (up_ID p)) (repo_Update r p)\<rparr>"

lemma rowLocking_simps:
  "pr_Update (rowLocking busy r) p = atomUnless (busy (up_ID p)) (repo_Update r p)"
  "pr_GetByID (rowLocking busy r) i = atom (repo_GetByID r i)"
  by (simp_all add: rowLocking_def statements_def)

text \<open>
  \<open>view\<close> is the committed data, \<open>pend s k\<close> the row that transaction \<open>k\<close> has locked with what its
  commit will do to it.
\<close>

locale update_server =
  fixes repoAt :: "nat \<Rightarrow> 's AccountRepository" and t :: "nat \<Rightarrow> 's TxOps"
    and busy :: "nat \<Rightarrow> string \<Rightarrow> 's \<Rightarrow> bool"
    and view :: "'s \<Rightarrow> accounts" and pend :: "'s \<Rightarrow> nat \<Rightarrow> (string \<times> (account \<Rightarrow> account)) option"
    and encp :: "UpdateAccountParams \<Rightarrow> UpdateAccountParams"
  assumes encp_keeps: "up_ID (encp p) = up_ID p" "up_FirstName (encp p) = up_FirstName p" "up_LastName (encp p) = up_LastName p"
    and encp_status: "(\<And>st. up_Status p = Some st \<Longrightarrow> Valid st) \<Longrightarrow> up_Status (encp p) = up_Status p"
    and begins: "to_begin (t k) s = (x, s') \<Longrightarrow>
        view s' = view s \<and> pend s' = (pend s)(k := None) \<and> (\<forall>e. x = Inl e \<longrightarrow> noApp e)"
    and waits: "\<not> busy k i s \<Longrightarrow> k' \<noteq> k \<Longrightarrow> pend s k' = Some (j, f) \<Longrightarrow> j \<noteq> i"
    and update_ok: "repo_Update (repoAt k) p s = (Inr u, s') \<Longrightarrow> pend s k = None \<Longrightarrow>
        view s (up_ID p) \<noteq> None \<and> view s' = view s \<and> pend s' = (pend s)(k \<mapsto> (up_ID p, patch (encp p)))"
    and update_err: "repo_Update (repoAt k) p s = (Inl e, s') \<Longrightarrow> view s' = view s \<and> pend s' = pend s
        \<and> (errorsIs e (App ErrAccountNotFound) \<longrightarrow> view s (up_ID p) = None)"
    and get_quiet: "repo_GetByID (repoAt k) i s = (y, s') \<Longrightarrow> view s' = view s \<and> pend s' = pend s"
    and get_own: "repo_GetByID (repoAt k) i s = (Inr q, s') \<Longrightarrow> pend s k = Some (i, f) \<Longrightarrow>
        \<exists>a. view s i = Some a \<and> q = Some (f a)"
    and get_err: "repo_GetByID (repoAt k) i s = (Inl e, s') \<Longrightarrow> errorsIs e (App ErrAccountNotFound) \<Longrightarrow> view s i = None"
    and commit_ok: "to_commit (t k) s = (Inr u, s') \<Longrightarrow> pend s' = (pend s)(k := None)
        \<and> view s' = (case pend s k of None \<Rightarrow> view s
           | Some (i, f) \<Rightarrow> (case view s i of None \<Rightarrow> view s | Some a \<Rightarrow> (view s)(i \<mapsto> f a)))"
    and commit_err: "to_commit (t k) s = (Inl e, s') \<Longrightarrow> pend s' = (pend s)(k := None) \<and> view s' = view s \<and> noApp e"
    and rolls_back: "pend (to_rollback (t k) s) = (pend s)(k := None)" "view (to_rollback (t k) s) = view s"
begin

text \<open>
  Of \<open>N\<close> Updates, number \<open>k\<close> stores \<open>par k\<close>; \<open>v0\<close> is the data before all of them.  Every field is
  as it was or as one of them set it.
\<close>

definition fieldFrom :: "(UpdateAccountParams \<Rightarrow> 'x option) \<Rightarrow> (account \<Rightarrow> 'x) \<Rightarrow> (nat \<Rightarrow> UpdateAccountParams) \<Rightarrow> nat
    \<Rightarrow> string \<Rightarrow> account \<Rightarrow> account \<Rightarrow> bool" where
  "fieldFrom f g par N i a0 a \<longleftrightarrow> g a = g a0 \<or> (\<exists>m < N. up_ID (par m) = i \<and> f (par m) = Some (g a))"

definition fixedFields :: "account \<Rightarrow> account \<Rightarrow> bool" where
  "fixedFields a b \<longleftrightarrow> ID b = ID a \<and> Email b = Email a \<and> PasswordHash b = PasswordHash a
     \<and> CreatedAt b = CreatedAt a \<and> DeletedAt b = DeletedAt a"

definition traced :: "(nat \<Rightarrow> UpdateAccountParams) \<Rightarrow> nat \<Rightarrow> string \<Rightarrow> account \<Rightarrow> account \<Rightarrow> bool" where
  "traced par N i a0 a \<longleftrightarrow> fixedFields a0 a \<and> fieldFrom up_FirstName FirstName par N i a0 a
     \<and> fieldFrom up_LastName LastName par N i a0 a \<and> fieldFrom up_Status Status par N i a0 a"

definition orderly :: "(nat \<Rightarrow> UpdateAccountParams) \<Rightarrow> nat \<Rightarrow> accounts \<Rightarrow> 's \<Rightarrow> bool" where
  "orderly par N v0 s \<longleftrightarrow> dom (view s) = dom v0
     \<and> (\<forall>i a0 a. v0 i = Some a0 \<longrightarrow> view s i = Some a \<longrightarrow> traced par N i a0 a)
     \<and> (\<forall>k i f. pend s k = Some (i, f) \<longrightarrow> k < N \<and> i = up_ID (par k) \<and> f = patch (par k) \<and> view s i \<noteq> None)
     \<and> (\<forall>k k' i i' f f'. k \<noteq> k' \<longrightarrow> pend s k = Some (i, f) \<longrightarrow> pend s k' = Some (i', f') \<longrightarrow> i \<noteq> i')"

text \<open>A step of number \<open>k\<close>: its own transaction only, and the commit of its own columns at most.\<close>

definition ownCommit :: "(nat \<Rightarrow> UpdateAccountParams) \<Rightarrow> nat \<Rightarrow> 's \<Rightarrow> 's \<Rightarrow> bool" where
  "ownCommit par k s s' \<longleftrightarrow> (\<forall>m. m \<noteq> k \<longrightarrow> pend s' m = pend s m)
     \<and> (view s' = view s \<or> (\<exists>a. pend s k = Some (up_ID (par k), patch (par k)) \<and> view s (up_ID (par k)) = Some a
          \<and> view s' = (view s)(up_ID (par k) \<mapsto> patch (par k) a)))"

definition elsewhere :: "'s \<Rightarrow> 's \<Rightarrow> bool" where
  "elsewhere s s' \<longleftrightarrow> view s' = view s \<and> pend s' = pend s"

abbreviation sound :: "(nat \<Rightarrow> UpdateAccountParams) \<Rightarrow> nat \<Rightarrow> accounts \<Rightarrow> nat \<Rightarrow> ('s \<Rightarrow> bool) \<Rightarrow> ('s, 'a) proc \<Rightarrow> ('a \<Rightarrow> 's \<Rightarrow> bool) \<Rightarrow> bool" where
  "sound par N v0 \<equiv> proves (orderly par N v0) (ownCommit par) elsewhere"

abbreviation steady :: "(nat \<Rightarrow> UpdateAccountParams) \<Rightarrow> nat \<Rightarrow> accounts \<Rightarrow> nat \<Rightarrow> ('s \<Rightarrow> bool) \<Rightarrow> bool" where
  "steady par N v0 \<equiv> stable (orderly par N v0) (ownCommit par) elsewhere"

text \<open>What the others do, seen from number \<open>k\<close>.\<close>

lemma steadyI:
  assumes "\<And>s s'. B s \<Longrightarrow> pend s' k = pend s k \<Longrightarrow> view s' = view s \<Longrightarrow> B s'"
    and "\<And>s s' m a. orderly par N v0 s \<Longrightarrow> B s \<Longrightarrow> pend s' k = pend s k \<Longrightarrow> m \<noteq> k \<Longrightarrow> m < N \<Longrightarrow>
      pend s m = Some (up_ID (par m), patch (par m)) \<Longrightarrow> view s (up_ID (par m)) = Some a \<Longrightarrow>
      view s' = (view s)(up_ID (par m) \<mapsto> patch (par m) a) \<Longrightarrow> B s'"
  shows "steady par N v0 k B"
  unfolding stable_def
proof (intro allI impI)
  fix s s' assume o: "orderly par N v0 s" and B: "B s" and "elsewhere s s' \<or> (\<exists>m. m \<noteq> k \<and> ownCommit par m s s')"
  then consider "view s' = view s" "pend s' k = pend s k"
    | m a where "m \<noteq> k" "pend s' k = pend s k" "pend s m = Some (up_ID (par m), patch (par m))"
        "view s (up_ID (par m)) = Some a" "view s' = (view s)(up_ID (par m) \<mapsto> patch (par m) a)"
    unfolding elsewhere_def ownCommit_def by metis
  then show "B s'"
  proof cases
    case 1
    with assms(1) B show ?thesis by blast
  next
    case 2
    with o have "m < N" unfolding orderly_def by blast
    with 2 assms(2) [OF o B] show ?thesis by blast
  qed
qed

lemma orderly_same: "orderly par N v0 s \<Longrightarrow> view s' = view s \<Longrightarrow> pend s' = pend s \<Longrightarrow> orderly par N v0 s'"
  by (simp add: orderly_def)

lemma quiet_call:
  "orderly par N v0 s \<Longrightarrow> view s' = view s \<Longrightarrow> pend s' = pend s \<Longrightarrow> orderly par N v0 s' \<and> ownCommit par k s s'"
  by (auto simp: ownCommit_def intro: orderly_same)

lemma orderly_drop: "orderly par N v0 s \<Longrightarrow> view s' = view s \<Longrightarrow> pend s' = (pend s)(k := None) \<Longrightarrow> orderly par N v0 s'"
  unfolding orderly_def by (simp split: if_splits)

lemma orderlyD:
  assumes "orderly par N v0 s"
  shows "dom (view s) = dom v0" "v0 i = Some a0 \<Longrightarrow> view s i = Some a \<Longrightarrow> traced par N i a0 a"
    "pend s k = Some (i, f) \<Longrightarrow> k < N \<and> i = up_ID (par k) \<and> f = patch (par k) \<and> view s i \<noteq> None"
    "k \<noteq> k' \<Longrightarrow> pend s k = Some (i, f) \<Longrightarrow> pend s k' = Some (i', f') \<Longrightarrow> i \<noteq> i'"
  using assms unfolding orderly_def by blast+

lemma orderly_lock:
  assumes "orderly par N v0 s" "view s' = view s" "pend s' = (pend s)(k \<mapsto> (up_ID (par k), patch (par k)))" "k < N"
    and "view s (up_ID (par k)) \<noteq> None" "\<And>m j f. m \<noteq> k \<Longrightarrow> pend s m = Some (j, f) \<Longrightarrow> j \<noteq> up_ID (par k)"
  shows "orderly par N v0 s'"
proof -
  have "i \<noteq> i'" if ne: "m \<noteq> m'" and m: "pend s' m = Some (i, f)" and m': "pend s' m' = Some (i', f')" for m m' i i' f f'
  proof (cases "m = k")
    case True
    with ne m m' assms(3) assms(6) [of m' i' f'] show ?thesis by auto
  next
    case False
    show ?thesis
    proof (cases "m' = k")
      case True
      with ne m m' assms(3) assms(6) [of m i f] show ?thesis by auto
    next
      case m'k: False
      with False m m' assms(3) orderlyD(4) [OF assms(1) ne] show ?thesis by simp
    qed
  qed
  with assms(1-5) show ?thesis unfolding orderly_def by (auto split: if_splits)
qed

lemma fixedFields_patch [simp]: "fixedFields a (patch p b) = fixedFields a b"
  by (simp add: fixedFields_def patch_def)

lemma patched_names [simp]:
  "FirstName (patch p a) = (case up_FirstName p of None \<Rightarrow> FirstName a | Some v \<Rightarrow> v)"
  "LastName (patch p a) = (case up_LastName p of None \<Rightarrow> LastName a | Some v \<Rightarrow> v)"
  "Status (patch p a) = (case up_Status p of None \<Rightarrow> Status a | Some v \<Rightarrow> v)"
  by (simp_all add: patch_def)

lemma traced_patch: "traced par N i a0 a \<Longrightarrow> k < N \<Longrightarrow> up_ID (par k) = i \<Longrightarrow> traced par N i a0 (patch (par k) a)"
  by (auto simp: traced_def fieldFrom_def split: option.splits)

lemma orderly_commit:
  assumes o: "orderly par N v0 s" and p: "pend s k = Some (up_ID (par k), patch (par k))" and a: "view s (up_ID (par k)) = Some a"
    and s': "view s' = (view s)(up_ID (par k) \<mapsto> patch (par k) a)" "pend s' = (pend s)(k := None)"
  shows "orderly par N v0 s'"
proof -
  from orderlyD(3) [OF o p] have k: "k < N" by blast
  have "dom (view s') = dom v0" using orderlyD(1) [OF o] a by (auto simp: s'(1))
  moreover have "traced par N i a0 b" if "v0 i = Some a0" "view s' i = Some b" for i a0 b
  proof (cases "i = up_ID (par k)")
    case True
    with orderlyD(2) [OF o that(1)] a have "traced par N i a0 a" by simp
    then have "traced par N i a0 (patch (par k) a)" using True by (intro traced_patch k) simp_all
    moreover have "b = patch (par k) a" using that(2) True by (simp add: s'(1))
    ultimately show ?thesis by simp
  next
    case False
    with that(2) orderlyD(2) [OF o that(1)] show ?thesis by (simp add: s'(1))
  qed
  moreover have "m < N \<and> i = up_ID (par m) \<and> f = patch (par m) \<and> view s' i \<noteq> None" if "pend s' m = Some (i, f)" for m i f
  proof -
    from that have "pend s m = Some (i, f)" by (simp add: s'(2) split: if_splits)
    with orderlyD(3) [OF o] show ?thesis by (simp add: s'(1))
  qed
  moreover have "i \<noteq> i'" if "m \<noteq> m'" "pend s' m = Some (i, f)" "pend s' m' = Some (i', f')" for m m' i i' f f'
    using orderlyD(4) [OF o that(1), of i f i' f'] that by (simp add: s' split: if_splits)
  ultimately show ?thesis unfolding orderly_def by blast
qed

text \<open>
  What Update number \<open>k\<close> leaves: the account it returns has its fields, and the stored account
  agrees with that one in every field that no other Update of the account sets.
\<close>

definition unlessSet :: "(UpdateAccountParams \<Rightarrow> 'x option) \<Rightarrow> (account \<Rightarrow> 'x) \<Rightarrow> (nat \<Rightarrow> UpdateAccountParams) \<Rightarrow> nat \<Rightarrow> nat
    \<Rightarrow> account \<Rightarrow> account \<Rightarrow> bool" where
  "unlessSet f g par N k a b \<longleftrightarrow>
     ((\<forall>m < N. m \<noteq> k \<longrightarrow> up_ID (par m) = up_ID (par k) \<longrightarrow> f (par m) = None) \<longrightarrow> g b = g a)"

definition agrees :: "(nat \<Rightarrow> UpdateAccountParams) \<Rightarrow> nat \<Rightarrow> nat \<Rightarrow> account \<Rightarrow> account \<Rightarrow> bool" where
  "agrees par N k a b \<longleftrightarrow> fixedFields a b \<and> unlessSet up_FirstName FirstName par N k a b
     \<and> unlessSet up_LastName LastName par N k a b \<and> unlessSet up_Status Status par N k a b"

definition honoured :: "(nat \<Rightarrow> UpdateAccountParams) \<Rightarrow> nat \<Rightarrow> nat \<Rightarrow> go_error + account ptr \<Rightarrow> 's \<Rightarrow> bool" where
  "honoured par N k x s \<longleftrightarrow> (case x of
       Inl e \<Rightarrow> errorsIs e (App ErrAccountNotFound) \<longrightarrow> view s (up_ID (par k)) = None
     | Inr q \<Rightarrow> (\<exists>a b. q = Some a \<and> patch (par k) a = a \<and> view s (up_ID (par k)) = Some b \<and> agrees par N k a b))"

lemma agrees_refl: "agrees par N k a a"
  by (simp add: agrees_def fixedFields_def unlessSet_def)

lemma agrees_patch: "agrees par N k a b \<Longrightarrow> m < N \<Longrightarrow> m \<noteq> k \<Longrightarrow> up_ID (par m) = up_ID (par k) \<Longrightarrow> agrees par N k a (patch (par m) b)"
  by (auto simp: agrees_def unlessSet_def)

lemma patch_idem [simp]: "patch p (patch p a) = patch p a"
  by (simp add: patch_def split: option.split)

lemma steady_honoured: "steady par N v0 k (honoured par N k x)"
proof (rule steadyI)
  fix s s' m a assume h: "honoured par N k x s" and m: "m \<noteq> k" "m < N"
    and a: "view s (up_ID (par m)) = Some a" and s': "view s' = (view s)(up_ID (par m) \<mapsto> patch (par m) a)"
  show "honoured par N k x s'"
  proof (cases "up_ID (par m) = up_ID (par k)")
    case True
    with h a m show ?thesis
      by (auto simp: honoured_def s' agrees_patch split: sum.splits)
  qed (use h s' in \<open>cases x; simp add: honoured_def\<close>)
qed (cases x; simp add: honoured_def)

lemma steady_idle: "steady par N v0 k (\<lambda>s. pend s k = None \<and> P)"
  by (rule steadyI) simp_all

lemma steady_absent: "steady par N v0 k (\<lambda>s. pend s k = None \<and> (Q \<longrightarrow> view s i = None))"
  by (rule steadyI) (auto split: if_splits)

text \<open>A locked row stays as it is.\<close>

lemma steady_locked:
  "steady par N v0 k (\<lambda>s. pend s k = Some (up_ID (par k), patch (par k)) \<and> (\<forall>a. q = Some a \<longrightarrow> view s (up_ID (par k)) = Some a))"
proof (rule steadyI)
  fix s s' m b
  let ?B = "\<lambda>s. pend s k = Some (up_ID (par k), patch (par k)) \<and> (\<forall>a. q = Some a \<longrightarrow> view s (up_ID (par k)) = Some a)"
  assume o: "orderly par N v0 s" and B: "?B s" and p: "pend s' k = pend s k" "m \<noteq> k"
    "pend s m = Some (up_ID (par m), patch (par m))" and s': "view s' = (view s)(up_ID (par m) \<mapsto> patch (par m) b)"
  from o B p have "up_ID (par m) \<noteq> up_ID (par k)" unfolding orderly_def by blast
  with B p s' show "?B s'" by simp
qed simp

text \<open>The two statements of the transaction: the row is locked, then read back as the commit will leave it.\<close>

lemma sound_body:
  assumes "k < N" "par k = encp p"
  shows "sound par N v0 k (\<lambda>s. pend s k = None)
     (pThen (pr_Update (rowLocking (busy k) (repoAt k)) p)
        (\<lambda>_. pThen (pr_GetByID (rowLocking (busy k) (repoAt k)) (up_ID p)) (\<lambda>account. Done (Inr account))))
     (\<lambda>x s. case x of
        Inl e \<Rightarrow> errorsIs e (App ErrAccountNotFound) \<longrightarrow> view s (up_ID (par k)) = None
      | Inr q \<Rightarrow> pend s k = Some (up_ID (par k), patch (par k))
          \<and> (\<exists>a. view s (up_ID (par k)) = Some a \<and> q = Some (patch (par k) a)))"
  (is "sound par N v0 k _ _ ?Q")
proof -
  let ?i = "up_ID (par k)"
  have i: "up_ID p = ?i" by (simp add: assms(2) encp_keeps)
  let ?locked = "\<lambda>s. pend s k = Some (?i, patch (par k))"
  have steadyQ: "steady par N v0 k (?Q x)" for x
  proof (cases x)
    case (Inl e)
    then show ?thesis by (auto intro!: steadyI split: if_splits)
  next
    case (Inr q)
    show ?thesis
      unfolding Inr sum.case
    proof (rule steadyI)
      fix s s' m b
      assume o: "orderly par N v0 s" and B: "?locked s \<and> (\<exists>a. view s ?i = Some a \<and> q = Some (patch (par k) a))"
        and p: "pend s' k = pend s k" "m \<noteq> k" "pend s m = Some (up_ID (par m), patch (par m))"
        and s': "view s' = (view s)(up_ID (par m) \<mapsto> patch (par m) b)"
      from orderlyD(4) [OF o p(2,3)] B have "up_ID (par m) \<noteq> ?i" by blast
      with B p s' show "?locked s' \<and> (\<exists>a. view s' ?i = Some a \<and> q = Some (patch (par k) a))" by simp
    qed simp
  qed
  have upd: "sound par N v0 k (\<lambda>s. pend s k = None) (pr_Update (rowLocking (busy k) (repoAt k)) p)
      (\<lambda>x s. case x of Inl e \<Rightarrow> ?Q (Inl e) s | Inr u \<Rightarrow> ?locked s)" (is "sound par N v0 k _ _ ?U")
    unfolding rowLocking_simps
  proof (rule proves_atomUnless)
    fix s x s' assume o: "orderly par N v0 s" "pend s k = None" "\<not> busy k (up_ID p) s" and r: "repo_Update (repoAt k) p s = (x, s')"
    show "orderly par N v0 s' \<and> ownCommit par k s s' \<and> ?U x s'"
    proof (cases x)
      case (Inl e)
      with update_err [of k p s e s'] r have v: "view s' = view s" "pend s' = pend s"
        "errorsIs e (App ErrAccountNotFound) \<longrightarrow> view s ?i = None" by (auto simp: i)
      with quiet_call [OF o(1) v(1,2)] Inl show ?thesis by simp
    next
      case (Inr u)
      with update_ok [of k p s u s'] r o(2) have v: "view s ?i \<noteq> None" "view s' = view s" "pend s' = (pend s)(k \<mapsto> (?i, patch (par k)))"
        by (auto simp: i simp flip: assms(2))
      have "orderly par N v0 s'"
        by (rule orderly_lock [OF o(1) v(2,3) assms(1) v(1)]) (use waits [OF o(3)] in \<open>auto simp: i\<close>)
      with v Inr show ?thesis by (simp add: ownCommit_def)
    qed
  next
    show "steady par N v0 k (?U x)" for x
    proof (cases x)
      case (Inl e)
      then show ?thesis using steadyQ [of "Inl e"] by simp
    next
      case (Inr u)
      then show ?thesis by (simp add: steadyI)
    qed
  qed
  have get: "sound par N v0 k ?locked (pThen (pr_GetByID (rowLocking (busy k) (repoAt k)) (up_ID p)) (\<lambda>account. Done (Inr account))) ?Q"
  proof (rule proves_pThen [where B = "\<lambda>q. ?Q (Inr q)"])
    show "sound par N v0 k ?locked (pr_GetByID (rowLocking (busy k) (repoAt k)) (up_ID p))
        (\<lambda>x s. case x of Inl e \<Rightarrow> ?Q (Inl e) s | Inr q \<Rightarrow> ?Q (Inr q) s)"
      unfolding rowLocking_simps
    proof (rule proves_atom)
      fix s x s' assume o: "orderly par N v0 s" "?locked s" and r: "repo_GetByID (repoAt k) (up_ID p) s = (x, s')"
      from get_quiet [OF r] have v: "view s' = view s" "pend s' = pend s" by blast+
      have "?Q x s'"
        using get_own [of k "up_ID p" s _ s' "patch (par k)"] get_err [of k "up_ID p" s _ s'] r o(2) v
        by (cases x) (auto simp: i)
      with quiet_call [OF o(1) v] show "orderly par N v0 s' \<and> ownCommit par k s s' \<and> (case x of Inl e \<Rightarrow> ?Q (Inl e) s' | Inr q \<Rightarrow> ?Q (Inr q) s')"
        by (cases x) simp_all
    next
      show "steady par N v0 k (\<lambda>s. case x of Inl e \<Rightarrow> ?Q (Inl e) s | Inr q \<Rightarrow> ?Q (Inr q) s)" for x
        using steadyQ [of x] by (cases x) simp_all
    qed
  qed simp
  show ?thesis
    by (rule proves_pThen [where B = "\<lambda>_. ?locked"], rule proves_weaken [OF upd]) (auto simp: get split: sum.splits)
qed

lemma sound_finish:
  assumes "k < N"
  shows "sound par N v0 k (\<lambda>s. case x of
        Inl e \<Rightarrow> errorsIs e (App ErrAccountNotFound) \<longrightarrow> view s (up_ID (par k)) = None
      | Inr q \<Rightarrow> pend s k = Some (up_ID (par k), patch (par k))
          \<and> (\<exists>a. view s (up_ID (par k)) = Some a \<and> q = Some (patch (par k) a)))
     (procFinish (t k) x) (honoured par N k)"
proof (cases x)
  case (Inl e)
  let ?A = "\<lambda>s. errorsIs e (App ErrAccountNotFound) \<longrightarrow> view s (up_ID (par k)) = None"
  have "sound par N v0 k ?A (atom (rollingBack (t k) e)) (honoured par N k)"
  proof (rule proves_atom)
    fix s s' and z :: "go_error + account ptr"
    assume o: "orderly par N v0 s" "?A s" and r: "rollingBack (t k) e s = (z, s')"
    then have z: "z = Inl e" and v: "view s' = view s" "pend s' = (pend s)(k := None)"
      by (auto simp: rollingBack_def rolls_back)
    with o orderly_drop [OF o(1) v] show "orderly par N v0 s' \<and> ownCommit par k s s' \<and> honoured par N k z s'"
      by (simp add: ownCommit_def honoured_def)
  qed (rule steady_honoured)
  with Inl show ?thesis by (simp add: procFinish_def)
next
  case (Inr q)
  let ?i = "up_ID (par k)"
  let ?A = "\<lambda>s. pend s k = Some (?i, patch (par k)) \<and> (\<exists>a. view s ?i = Some a \<and> q = Some (patch (par k) a))"
  let ?Q = "\<lambda>z s. case z of Inl e \<Rightarrow> honoured par N k (Inl e) s | Inr _ \<Rightarrow> honoured par N k (Inr q) s"
  have "sound par N v0 k ?A (atom (to_commit (t k))) ?Q"
  proof (rule proves_atom)
    fix s z s' assume o: "orderly par N v0 s" "?A s" and r: "to_commit (t k) s = (z, s')"
    then obtain a where p: "pend s k = Some (?i, patch (par k))" and a: "view s ?i = Some a" "q = Some (patch (par k) a)" by blast
    show "orderly par N v0 s' \<and> ownCommit par k s s' \<and> ?Q z s'"
    proof (cases z)
      case (Inl e)
      with commit_err [of k s e s'] r have v: "view s' = view s" "pend s' = (pend s)(k := None)" "noApp e" by auto
      with orderly_drop [OF o(1) v(1,2)] Inl show ?thesis by (simp add: ownCommit_def honoured_def)
    next
      case (Inr u)
      with commit_ok [of k s u s'] r p a have v: "view s' = (view s)(?i \<mapsto> patch (par k) a)" "pend s' = (pend s)(k := None)"
        by auto
      from orderly_commit [OF o(1) p a(1) v] v p a Inr show ?thesis
        by (simp add: ownCommit_def honoured_def agrees_refl)
    qed
  next
    show "steady par N v0 k (?Q z)" for z by (cases z) (simp_all add: steady_honoured)
  qed
  then have "sound par N v0 k ?A (pThen (atom (to_commit (t k))) (\<lambda>_. Done (Inr q))) (honoured par N k)"
    by (rule proves_pThen) simp
  with Inr show ?thesis by (simp add: procFinish_def)
qed

lemma sound_update:
  assumes "k < N" "(\<forall>st. ur_Status req = Some st \<longrightarrow> Valid st) \<Longrightarrow> par k = encp (updateParams now req)"
  shows "sound par N v0 k (\<lambda>s. pend s k = None) (procUpdate (rowLocking (busy k) (repoAt k)) (t k) now req)
    (\<lambda>x s. honoured par N k x s \<and> (\<forall>q. x = Inr q \<longrightarrow> (\<forall>st. ur_Status req = Some st \<longrightarrow> Valid st)))"
proof -
  have i: "ur_ID req = up_ID (updateParams now req)" by (simp add: updateParams_def)
  have tx: "sound par N v0 k (\<lambda>s. pend s k = None) (procWithTx (t k) (procUpdateBody (rowLocking (busy k) (repoAt k)) now req))
      (honoured par N k)"
    if par: "par k = encp (updateParams now req)"
    unfolding procWithTx_def
  proof (rule proves_pThen [where B = "\<lambda>_ s. pend s k = None"])
    let ?B = "\<lambda>y s. case y of Inl e \<Rightarrow> honoured par N k (Inl e) s | Inr _ \<Rightarrow> pend s k = None"
    show "sound par N v0 k (\<lambda>s. pend s k = None) (atom (to_begin (t k))) ?B"
    proof (rule proves_atom)
      fix s y s' assume o: "orderly par N v0 s" "pend s k = None" and r: "to_begin (t k) s = (y, s')"
      from begins [OF r] o(2) have v: "view s' = view s" "pend s' = pend s" "\<forall>e. y = Inl e \<longrightarrow> noApp e" by auto
      with quiet_call [OF o(1) v(1,2)] o(2) show "orderly par N v0 s' \<and> ownCommit par k s s' \<and> ?B y s'"
        by (cases y) (simp_all add: honoured_def)
    next
      show "steady par N v0 k (?B y)" for y
        using steady_idle [of par N v0 k True] by (cases y) (simp_all add: steady_honoured)
    qed
    show "sound par N v0 k (\<lambda>s. pend s k = None)
        (pBind (procUpdateBody (rowLocking (busy k) (repoAt k)) now req) (procFinish (t k))) (honoured par N k)"
      unfolding procUpdateBody_def i
      by (rule proves_pBind [OF sound_body [of k N par "updateParams now req", OF assms(1) par]]) (rule sound_finish [OF assms(1)])
  qed
  have refused: "honoured par N k (Inl idRequired) s" "honoured par N k (Inl (App ErrInvalidStatus)) s" for s
    by (simp_all add: honoured_def idRequired_def errorsIs_App)
  show ?thesis
    unfolding procUpdate_def
  proof (intro proves_if)
    assume "\<not> (case ur_Status req of None \<Rightarrow> False | Some st \<Rightarrow> \<not> Valid st)"
    then have st: "\<forall>st. ur_Status req = Some st \<longrightarrow> Valid st" by auto
    show "sound par N v0 k (\<lambda>s. pend s k = None) (pThen (procWithTx (t k) (procUpdateBody (rowLocking (busy k) (repoAt k)) now req))
        (\<lambda>updated. Done (Inr updated))) (\<lambda>x s. honoured par N k x s \<and> (\<forall>q. x = Inr q \<longrightarrow> (\<forall>st. ur_Status req = Some st \<longrightarrow> Valid st)))"
      by (rule proves_pThen [where B = "\<lambda>q. honoured par N k (Inr q)"], rule proves_weaken [OF tx [OF assms(2) [OF st]]])
        (use st in \<open>auto split: sum.splits\<close>)
  qed (simp_all add: refused)
qed

end

section \<open>Requests\<close>

text \<open>
  A field of a request (\<open>f\<close>) and of an account (\<open>g\<close>): where a value comes from, and that no
  other of \<open>N\<close> requests sets the field on the same account.
\<close>

definition comesFrom :: "(UpdateAccountRequest \<Rightarrow> 'x option) \<Rightarrow> (account \<Rightarrow> 'x) \<Rightarrow> (nat \<Rightarrow> UpdateAccountRequest) \<Rightarrow> nat
    \<Rightarrow> string \<Rightarrow> account \<Rightarrow> account \<Rightarrow> bool" where
  "comesFrom f g req N i a b \<longleftrightarrow> g b = g a \<or> (\<exists>k < N. ur_ID (req k) = i \<and> f (req k) = Some (g b))"

definition noOtherSets :: "(UpdateAccountRequest \<Rightarrow> 'x option) \<Rightarrow> (nat \<Rightarrow> UpdateAccountRequest) \<Rightarrow> nat \<Rightarrow> nat \<Rightarrow> bool" where
  "noOtherSets f req N k \<longleftrightarrow> (\<forall>j < N. j \<noteq> k \<longrightarrow> ur_ID (req j) = ur_ID (req k) \<longrightarrow> f (req j) = None)"

text \<open>The account \<open>a\<close> returned by request \<open>k\<close> has its value, and the stored \<open>b\<close> has that of \<open>a\<close> unless another sets it.\<close>

definition notLost :: "(UpdateAccountRequest \<Rightarrow> 'x option) \<Rightarrow> (account \<Rightarrow> 'x) \<Rightarrow> (nat \<Rightarrow> UpdateAccountRequest) \<Rightarrow> nat \<Rightarrow> nat
    \<Rightarrow> account \<Rightarrow> account \<Rightarrow> bool" where
  "notLost f g req N k a b \<longleftrightarrow>
     (\<forall>v. f (req k) = Some v \<longrightarrow> g a = v) \<and> (noOtherSets f req N k \<longrightarrow> g b = g a)"

context update_server
begin

text \<open>What request \<open>k\<close> stores; nothing if its status is refused.\<close>

definition accepted :: "(nat \<Rightarrow> UpdateAccountRequest) \<Rightarrow> nat \<Rightarrow> bool" where
  "accepted req k \<longleftrightarrow> (\<forall>st. ur_Status (req k) = Some st \<longrightarrow> Valid st)"

definition stores :: "(nat \<Rightarrow> time) \<Rightarrow> (nat \<Rightarrow> UpdateAccountRequest) \<Rightarrow> nat \<Rightarrow> UpdateAccountParams" where
  "stores now req k = (if accepted req k then encp (updateParams (now k) (req k))
     else \<lparr>up_ID = ur_ID (req k), up_FirstName = None, up_LastName = None, up_Status = None, up_UpdatedAt = 0\<rparr>)"

lemma stores_ID: "up_ID (stores now req k) = ur_ID (req k)"
  by (simp add: stores_def encp_keeps updateParams_def)

lemma stores_fields:
  "up_FirstName (stores now req k) = (if accepted req k then ur_FirstName (req k) else None)"
  "up_LastName (stores now req k) = (if accepted req k then ur_LastName (req k) else None)"
  "up_Status (stores now req k) = (if accepted req k then ur_Status (req k) else None)"
  using encp_status [of "updateParams (now k) (req k)"]
  by (cases "accepted req k"; simp add: stores_def encp_keeps updateParams_def; simp add: accepted_def)+

lemma field_requested:
  assumes "fieldFrom F g (stores now req) N i a b" "\<And>m. F (stores now req m) = (if accepted req m then f (req m) else None)"
  shows "comesFrom f g req N i a b"
  using assms unfolding fieldFrom_def comesFrom_def stores_ID by (metis option.distinct(1))

lemma field_kept:
  assumes "unlessSet F g (stores now req) N k a b" "\<And>m. F (stores now req m) = (if accepted req m then f (req m) else None)"
    and "accepted req k" "\<And>v. F (stores now req k) = Some v \<Longrightarrow> g a = v"
  shows "notLost f g req N k a b"
  using assms by (simp add: unlessSet_def notLost_def noOtherSets_def stores_ID)

lemma pool_sound:
  assumes "ps = map (\<lambda>k. procUpdate (rowLocking (busy k) (repoAt k)) (t k) (now k) (req k)) [0..<N]"
    and "\<And>k. pend s k = None" "(poolStep elsewhere)\<^sup>*\<^sup>* (ps, s) (qs, s')"
  shows "orderly (stores now req) N (view s) s'
    \<and> (\<forall>k < N. \<forall>x. qs ! k = Done x \<longrightarrow> honoured (stores now req) N k x s' \<and> (\<forall>q. x = Inr q \<longrightarrow> accepted req k))"
proof -
  let ?par = "stores now req"
  let ?Q = "\<lambda>k x s. honoured ?par N k x s \<and> (\<forall>q. x = Inr q \<longrightarrow> accepted req k)"
  have start: "orderly ?par N (view s) s"
    using assms(2) by (auto simp: orderly_def traced_def fixedFields_def fieldFrom_def)
  have each: "steady ?par N (view s) k (\<lambda>s. pend s k = None) \<and> pend s k = None
      \<and> sound ?par N (view s) k (\<lambda>s. pend s k = None) (ps ! k) (?Q k)" if "k < length ps" for k
    using that sound_update [of k N "req k" ?par "now k" "view s"] steady_idle [of ?par N "view s" k True]
    by (simp add: assms(1,2) accepted_def stores_def)
  have "orderly ?par N (view s) s' \<and> length qs = length ps \<and> (\<forall>k < length ps. \<forall>x. qs ! k = Done x \<longrightarrow> ?Q k x s')"
    by (rule pool_proves [OF assms(3) start each]) (auto intro: orderly_same simp: elsewhere_def)
  then show ?thesis by (simp add: assms(1))
qed

lemma honoured_request:
  assumes "honoured (stores now req) N k (Inr q) s" "accepted req k"
  shows "\<exists>a b. q = Some a \<and> view s (ur_ID (req k)) = Some b \<and> notLost ur_FirstName FirstName req N k a b
    \<and> notLost ur_LastName LastName req N k a b \<and> notLost ur_Status Status req N k a b"
proof -
  from assms(1) obtain a b where q: "q = Some a" "view s (ur_ID (req k)) = Some b"
    and p: "patch (stores now req k) a = a" and ag: "agrees (stores now req) N k a b"
    by (auto simp: honoured_def stores_ID)
  have "up_FirstName (stores now req k) = Some v \<Longrightarrow> FirstName a = v" "up_LastName (stores now req k) = Some w \<Longrightarrow> LastName a = w"
    "up_Status (stores now req k) = Some x \<Longrightarrow> Status a = x" for v w x
    using arg_cong [OF p, of FirstName] arg_cong [OF p, of LastName] arg_cong [OF p, of Status] by (simp_all add: patch_def)
  then show ?thesis
    using q ag field_kept [where f = ur_FirstName, OF _ stores_fields(1) assms(2)]
      field_kept [where f = ur_LastName, OF _ stores_fields(2) assms(2)] field_kept [where f = ur_Status, OF _ stores_fields(3) assms(2)]
    unfolding agrees_def by blast
qed

lemma traced_requests:
  assumes "orderly (stores now req) N v0 s" "v0 i = Some a" "view s i = Some b"
  shows "fixedFields a b \<and> comesFrom ur_FirstName FirstName req N i a b \<and> comesFrom ur_LastName LastName req N i a b
    \<and> comesFrom ur_Status Status req N i a b"
  using orderlyD(2) [OF assms] unfolding traced_def
  by (auto elim!: field_requested [OF _ stores_fields(1)] field_requested [OF _ stores_fields(2)] field_requested [OF _ stores_fields(3)])

end

section \<open>Properties\<close>

text \<open>
  C8: concurrent Updates lose nothing.  Any number of Updates run interleaved over a server that
  locks the rows they change.  At every moment: the accounts are the same ones with the same
  email, password and creation time, and each of the other fields is as it was or as one of the
  requests for that account set it; an Update that is done without an error returned the account
  with its fields, and the stored account has them too, except where another request for the same
  account sets the same field; one that is done with not found has no account.
\<close>

theorem concurrent_updates:
  assumes "update_server repoAt t busy view pend encp"
    and "ps = map (\<lambda>k. procUpdate (rowLocking (busy k) (repoAt k)) (t k) (now k) (req k)) [0..<N]"
    and "\<And>k. pend s k = None"
    and "(poolStep (\<lambda>s s'. view s' = view s \<and> pend s' = pend s))\<^sup>*\<^sup>* (ps, s) (qs, s')"
  shows "dom (view s') = dom (view s)
    \<and> (\<forall>i a b. view s i = Some a \<longrightarrow> view s' i = Some b \<longrightarrow>
         ID b = ID a \<and> Email b = Email a \<and> PasswordHash b = PasswordHash a \<and> CreatedAt b = CreatedAt a
         \<and> comesFrom ur_FirstName FirstName req N i a b \<and> comesFrom ur_LastName LastName req N i a b
         \<and> comesFrom ur_Status Status req N i a b)
    \<and> (\<forall>k < N. \<forall>q. qs ! k = Done (Inr q) \<longrightarrow>
         (\<exists>a b. q = Some a \<and> view s' (ur_ID (req k)) = Some b \<and> notLost ur_FirstName FirstName req N k a b
           \<and> notLost ur_LastName LastName req N k a b \<and> notLost ur_Status Status req N k a b))
    \<and> (\<forall>k < N. \<forall>e. qs ! k = Done (Inl e) \<longrightarrow> errorsIs e (App ErrAccountNotFound) \<longrightarrow> view s' (ur_ID (req k)) = None)"
proof -
  note srv = assms(1)
  have "update_server.elsewhere view pend = (\<lambda>s s'. view s' = view s \<and> pend s' = pend s)"
    by (simp add: fun_eq_iff update_server.elsewhere_def [OF srv])
  note all = update_server.pool_sound [OF srv assms(2,3), unfolded this, OF assms(4)]
  note J = all [THEN conjunct1] and Q = all [THEN conjunct2, rule_format]
  show ?thesis
  proof (intro conjI allI impI)
    show "dom (view s') = dom (view s)" by (rule update_server.orderlyD(1) [OF srv J])
  next
    fix i a b assume "view s i = Some a" "view s' i = Some b"
    from update_server.traced_requests [OF srv J this]
    show "ID b = ID a" "Email b = Email a" "PasswordHash b = PasswordHash a" "CreatedAt b = CreatedAt a"
      "comesFrom ur_FirstName FirstName req N i a b" "comesFrom ur_LastName LastName req N i a b"
      "comesFrom ur_Status Status req N i a b"
      unfolding update_server.fixedFields_def [OF srv] by blast+
  next
    fix k q assume "k < N" "qs ! k = Done (Inr q)"
    from Q [OF this] update_server.honoured_request [OF srv]
    show "\<exists>a b. q = Some a \<and> view s' (ur_ID (req k)) = Some b \<and> notLost ur_FirstName FirstName req N k a b
           \<and> notLost ur_LastName LastName req N k a b \<and> notLost ur_Status Status req N k a b" by blast
  next
    fix k e assume "k < N" "qs ! k = Done (Inl e)" "errorsIs e (App ErrAccountNotFound)"
    with Q [of k "Inl e"] show "view s' (ur_ID (req k)) = None"
      by (simp add: update_server.honoured_def [OF srv] update_server.stores_ID [OF srv])
  qed
qed

end
