(* ===== verification/CreateServers.thy ===== *)
theory CreateServers
  imports CreateRace UseCaseProps
begin

text \<open>
  The server of theory CreateRace on PostgreSQL, with the unique email of the migration: the
  locale is interpreted on it, and a race of two Creates with one email is run.  Only what a
  Create calls is served.
\<close>

section \<open>PostgreSQL\<close>

text \<open>The committed table and, by transaction, the row inserted and not yet committed.\<close>

record pgserver =
  cs_table :: pgtable
  cs_pending :: "(nat \<times> pgrow) list"

definition notServed :: go_error where
  "notServed = DriverErr ''not served''"

definition csFirst :: "nat \<Rightarrow> string \<Rightarrow> string \<Rightarrow> (pgserver, go_error, AccountModel) op" where
  "csFirst k qry v = (\<lambda>s.
     case filter (whereCol qry v) (tableRows (cs_table s) @ (case map_of (cs_pending s) k of None \<Rightarrow> [] | Some r \<Rightarrow> [r])) of
       [] \<Rightarrow> (Inl ErrRecordNotFound, s)
     | r # _ \<Rightarrow> (Inr (rowModel r), s))"

definition csCreate :: "nat \<Rightarrow> AccountModel \<Rightarrow> (pgserver, go_error, unit) op" where
  "csCreate k m = (\<lambda>s.
     if \<not> fitsInt4 (m_Status m) then (Inl outOfRange, s)
     else if conflicts (modelRow m) (tableRows (cs_table s)) \<or> map_of (cs_pending s) k \<noteq> None
     then (Inl ErrDuplicatedKey, s)
     else (Inr (), s\<lparr>cs_pending := put k (modelRow m) (cs_pending s)\<rparr>))"

definition csGorm :: "nat \<Rightarrow> pgserver GormDB" where
  "csGorm k = \<lparr>g_Create = csCreate k, g_First = csFirst k, g_Updates = (\<lambda>_ _. throw notServed),
     g_Delete = (\<lambda>_. throw notServed), g_Count = (\<lambda>_. throw notServed), g_Find = (\<lambda>_ _ _. throw notServed)\<rparr>"

text \<open>The commit checks the constraints once more; it never has to, since inserts wait.\<close>

definition csTx :: "nat \<Rightarrow> pgserver TxOps" where
  "csTx k = \<lparr>to_begin = (\<lambda>s. (Inr (), s\<lparr>cs_pending := drop_key k (cs_pending s)\<rparr>)),
     to_commit = (\<lambda>s. let s' = s\<lparr>cs_pending := drop_key k (cs_pending s)\<rparr> in
       case map_of (cs_pending s) k of
         None \<Rightarrow> (Inr (), s')
       | Some r \<Rightarrow> if conflicts r (tableRows (cs_table s)) then (Inl (PgError uniqueViolation), s')
                   else (Inr (), s'\<lparr>cs_table := mkTable (tableRows (cs_table s) @ [r])\<rparr>)),
     to_rollback = (\<lambda>s. s\<lparr>cs_pending := drop_key k (cs_pending s)\<rparr>)\<rparr>"

definition csBusy :: "nat \<Rightarrow> account \<Rightarrow> pgserver \<Rightarrow> bool" where
  "csBusy k a s = list_ex (\<lambda>(k', r). k' \<noteq> k \<and> (c_id r = ID a \<or> c_email r = Email a)) (cs_pending s)"

abbreviation csView :: "pgserver \<Rightarrow> accounts" where
  "csView s \<equiv> tableView (tableRows (cs_table s))"

definition csPend :: "pgserver \<Rightarrow> nat \<Rightarrow> account option" where
  "csPend s k = map_option rowAccount (map_of (cs_pending s) k)"

lemma csPend_simps:
  "csPend (s\<lparr>cs_pending := drop_key k (cs_pending s)\<rparr>) = (csPend s)(k := None)"
  "csPend (s\<lparr>cs_pending := put k r (cs_pending s)\<rparr>) = (csPend s)(k \<mapsto> rowAccount r)"
  "csPend (s\<lparr>cs_table := u\<rparr>) = csPend s"
  by (auto simp: csPend_def fun_eq_iff)

lemma csRows_wf: "wf_table (tableRows u)"
  by (fact wf_tableRows)

lemma csFirst_cases:
  assumes "csFirst k qry v s = (x, s')"
  shows "s' = s \<and> (case x of
      Inl e \<Rightarrow> e = ErrRecordNotFound
    | Inr m \<Rightarrow> csPend s k = None \<longrightarrow> (\<exists>r \<in> set (tableRows (cs_table s)). whereCol qry v r \<and> m = rowModel r))"
proof -
  let ?rows = "filter (whereCol qry v) (tableRows (cs_table s) @ (case map_of (cs_pending s) k of None \<Rightarrow> [] | Some r \<Rightarrow> [r]))"
  show ?thesis
  proof (cases ?rows)
    case Nil
    with assms show ?thesis by (auto simp: csFirst_def)
  next
    case (Cons r rs)
    have "r \<in> set ?rows" unfolding Cons by simp
    then have "csPend s k = None \<Longrightarrow> r \<in> set (tableRows (cs_table s)) \<and> whereCol qry v r"
      by (auto simp: csPend_def split: option.splits)
    moreover have "s' = s" "x = Inr (rowModel r)" using assms Cons by (simp_all add: csFirst_def)
    ultimately show ?thesis by auto
  qed
qed

lemma csCommit_ok:
  assumes "to_commit (csTx k) s = (Inr u, s')"
  shows "csPend s' = (csPend s)(k := None)
    \<and> csView s' = (case csPend s k of None \<Rightarrow> csView s | Some a \<Rightarrow> (csView s)(ID a \<mapsto> a))"
proof (cases "map_of (cs_pending s) k")
  case None
  with assms show ?thesis by (auto simp: csTx_def Let_def csPend_simps) (simp add: csPend_def)
next
  case (Some r)
  with assms have c: "\<not> conflicts r (tableRows (cs_table s))"
    and s': "s' = s\<lparr>cs_pending := drop_key k (cs_pending s), cs_table := mkTable (tableRows (cs_table s) @ [r])\<rparr>"
    by (auto simp: csTx_def Let_def split: if_splits)
  have p: "csPend s k = Some (rowAccount r)" using Some by (simp add: csPend_def)
  have "csPend s' = (csPend s)(k := None)"
    using csPend_simps(1,3) by (simp add: s' fun_eq_iff csPend_def)
  moreover have "tableRows (cs_table s') = tableRows (cs_table s) @ [r]"
    unfolding s' by (simp add: wf_table_append [OF wf_tableRows c])
  moreover have "csView s' = (csView s)(c_id r \<mapsto> rowAccount r)"
    unfolding calculation(2) using c by (intro tableView_append) (simp add: conflicts_iff)
  ultimately show ?thesis by (simp add: p)
qed

lemma csEmail:
  assumes "repo_GetByEmail (gormRepository (csGorm k)) m s = (y, s')"
  shows "csView s' = csView s \<and> csPend s' = csPend s
    \<and> (\<forall>p. y = Inr p \<longrightarrow> csPend s k = None \<longrightarrow> emailTaken (csView s) m)
    \<and> (\<forall>e. y = Inl e \<longrightarrow> \<not> errorsIs e (App ErrAccountAlreadyExists))"
proof -
  from assms obtain z where f: "csFirst k ''email = ?'' m s = (z, s')"
    and y: "y = (case z of Inl e \<Rightarrow> Inl (if errorsIs e ErrRecordNotFound then App (Cause ErrAccountNotFound e) else App (Cause ErrInternal e))
        | Inr r \<Rightarrow> Inr (Some (gormToDomain r)))"
    by (auto simp: gormRepository_def gormGetByEmail_def gormGetOne_def csGorm_def andThen_def mapErr_def
        split: prod.splits sum.splits)
  from csFirst_cases [OF f] y show ?thesis
    by (auto simp: emailTaken_tableView [OF wf_tableRows] whereCol_def ErrRecordNotFound_def split: sum.splits)
qed

lemma csInsert:
  assumes "repo_Create (gormRepository (csGorm k)) a s = (y, s')"
  shows "csView s' = csView s \<and> (case y of
      Inr i \<Rightarrow> i = ID a \<and> csView s (ID a) = None \<and> \<not> emailTaken (csView s) (Email a) \<and> csPend s' = (csPend s)(k \<mapsto> gormEnc a)
    | Inl e \<Rightarrow> csPend s' = csPend s \<and> (csPend s k = None \<longrightarrow> errorsIs e (App ErrAccountAlreadyExists) \<longrightarrow>
        csView s (ID a) \<noteq> None \<or> emailTaken (csView s) (Email a)))"
proof -
  from assms obtain m z where m: "toModel (Some a) = Some m" and c: "csCreate k m s = (z, s')"
    and y: "y = (case z of Inl e \<Rightarrow> Inl (if errorsIs e ErrDuplicatedKey then App (Cause ErrAccountAlreadyExists e) else App (Cause ErrInternal e))
        | Inr _ \<Rightarrow> Inr (m_ID m))"
    by (auto simp: gormRepository_def gormCreate_def csGorm_def andThen_def mapErr_def toModel_def
        split: prod.splits sum.splits)
  from m have keys: "c_id (modelRow m) = ID a" "c_email (modelRow m) = Email a" "m_ID m = ID a"
    by (auto simp: toModel_def modelRow_def)
  note facts = conflicts_iff tableView_None emailTaken_tableView [OF wf_tableRows] keys
  show ?thesis
  proof (cases "fitsInt4 (m_Status m) \<and> \<not> conflicts (modelRow m) (tableRows (cs_table s)) \<and> map_of (cs_pending s) k = None")
    case True
    with c have z: "z = Inr ()" "s' = s\<lparr>cs_pending := put k (modelRow m) (cs_pending s)\<rparr>" by (auto simp: csCreate_def)
    from True rowAccount_modelRow [OF m] have enc: "rowAccount (modelRow m) = gormEnc a" by blast
    from True show ?thesis by (simp add: z y csPend_simps enc) (simp add: facts)
  next
    case False
    with c have s': "s' = s" and "z = Inl outOfRange
        \<or> z = Inl ErrDuplicatedKey \<and> (conflicts (modelRow m) (tableRows (cs_table s)) \<or> csPend s k \<noteq> None)"
      by (auto simp: csCreate_def csPend_def split: if_splits)
    then consider "z = Inl outOfRange"
      | "z = Inl ErrDuplicatedKey" "conflicts (modelRow m) (tableRows (cs_table s)) \<or> csPend s k \<noteq> None" by blast
    then show ?thesis
      by cases (auto simp: y s' outOfRange_def ErrDuplicatedKey_def facts)
  qed
qed

interpretation cs: insert_server "\<lambda>k. gormRepository (csGorm k)" csTx csBusy csView csPend gormEnc
proof (rule insert_server.intro)
  show "ID (gormEnc a) = ID a" "Email (gormEnc a) = Email a" for a by (simp_all add: gormEnc_def)
  show "csView s' = csView s \<and> csPend s' = (csPend s)(k := None) \<and> (\<forall>e. x = Inl e \<longrightarrow> noApp e)"
    if "to_begin (csTx k) s = (x, s')" for k s x s'
    using that by (auto simp: csTx_def csPend_simps)
  show "ID b \<noteq> ID a \<and> Email b \<noteq> Email a"
    if "\<not> csBusy k a s" "k' \<noteq> k" "csPend s k' = Some b" for k k' a b s
    using that by (auto simp: csBusy_def csPend_def list_ex_iff dest: map_of_SomeD)
  show "csPend s' = (csPend s)(k := None) \<and> csView s' = csView s \<and> noApp e"
    if "to_commit (csTx k) s = (Inl e, s')" for k s e s'
    using that by (auto simp: csTx_def Let_def csPend_simps split: option.splits if_splits)
  show "csPend (to_rollback (csTx k) s) = (csPend s)(k := None)" "csView (to_rollback (csTx k) s) = csView s" for k s
    by (simp_all add: csTx_def csPend_simps)
qed (use csEmail csInsert csCommit_ok in fastforce)+

section \<open>Two Creates with one email\<close>

abbreviation csRepo :: "nat \<Rightarrow> pgserver world AccountRepository" where
  "csRepo k \<equiv> repoOn w_db put_db (gormRepository (csGorm k))"

abbreviation csWorldTx :: "nat \<Rightarrow> pgserver world TxOps" where
  "csWorldTx k \<equiv> txOn w_db put_db (csTx k)"

abbreviation csWorldBusy :: "nat \<Rightarrow> account \<Rightarrow> pgserver world \<Rightarrow> bool" where
  "csWorldBusy k a s \<equiv> csBusy k a (w_db s)"

abbreviation csUC :: "pgserver world AccountDeps" where
  "csUC \<equiv> worldUC (csRepo 0)"

definition raceUid :: "nat \<Rightarrow> string" where
  "raceUid k = (if k = 0 then ''u0'' else ''u1'')"

definition csWorld :: "pgserver world" where
  "csWorld = \<lparr>w_db = \<lparr>cs_table = emptyTable, cs_pending = []\<rparr>, w_cache = emptyCache, w_buckets = [], w_commits = [], w_log = []\<rparr>"

definition twoCreates :: "(pgserver world, go_error + account ptr) proc list" where
  "twoCreates = map (\<lambda>k. procCreate asciiOnly csUC (lockingProcs (csWorldBusy k) (csRepo k)) (csWorldTx k) 7 (raceUid k) sampleReq) [0..<2]"

text \<open>
  Limiter, hash, begin and the lookup of both, then both inserts: the second waits until the
  first has committed, and is refused.
\<close>

definition raceSchedule :: "nat list" where
  "raceSchedule = [0, 0, 0, 0, 1, 1, 1, 1, 0, 1, 0, 1, 0, 1]"

lemma repo_evals:
  "repo_GetByEmail (gormRepository g) m = gormGetByEmail g m" "repo_Create (gormRepository g) a = gormCreate g a"
  by (simp_all add: gormRepository_def)

lemma lockingProcs_simps:
  "pr_Create (lockingProcs b r) a = atomUnless (b a) (repo_Create r a)"
  "pr_GetByEmail (lockingProcs b r) m = atom (repo_GetByEmail r m)"
  by (simp_all add: lockingProcs_def statements_def)

lemmas create_eval = procCreate_def procWithTx_def procCreateBody_def procEnsureEmailFree_def
  lockingProcs_simps

lemma limiter_eval:
  "worldLimiter \<lparr>lq_Action = RateLimitActionCreateAccount, lq_Key = k\<rparr> s =
     (let n = spent s (RateLimitActionCreateAccount @ '':'' @ k) in
      if n < 5 then (Inr \<lparr>lr_Allowed = True, lr_Remaining = 4 - n, lr_RetryAfter = - 1\<rparr>,
           s\<lparr>w_buckets := put (RateLimitActionCreateAccount @ '':'' @ k) (n + 1) (w_buckets s)\<rparr>)
      else (Inr \<lparr>lr_Allowed = False, lr_Remaining = 0, lr_RetryAfter = Minute\<rparr>, s))"
  by (simp add: worldLimiter_def limiterLimit_def policyFor_def NewRedisLimiter_def RateLimitDefaults_def
      worldRate_def bucketAllow_def spent_def Let_def andThen_def mapErr_def)

lemma guards_eval:
  "validateEmail (cr_Email sampleReq) = Inr ()"
  "ensureStrongPassword (passwordService demoHash) (cr_Password sampleReq) = Inr ()"
  "Hash demoHash (cr_Password sampleReq) = Inr ''$2a$longenough''"
  by (simp_all add: validateEmail_ok sampleReq_def ensureStrongPassword_def IsValidPassword_def
      MinPasswordLength_def Hash_def demoHash_def)

lemma csGorm_simps: "g_First (csGorm k) = csFirst k" "g_Create (csGorm k) = csCreate k"
  by (simp_all add: csGorm_def)

lemma csWorldTx_simps:
  "to_begin (csWorldTx k) s = (Inr (), s\<lparr>w_db := (w_db s)\<lparr>cs_pending := drop_key k (cs_pending (w_db s))\<rparr>\<rparr>)"
  "to_commit (csWorldTx k) s = onPart w_db put_db (to_commit (csTx k)) s"
  "to_rollback (csWorldTx k) s = s\<lparr>w_db := (w_db s)\<lparr>cs_pending := drop_key k (cs_pending (w_db s))\<rparr>\<rparr>"
  by (simp_all add: txOn_def csTx_def onPart_def put_db_def)

lemma newAccount_simps: "ID (newAccount u now h req) = u" "Email (newAccount u now h req) = cr_Email req"
  "newAccount u now h req\<lparr>ID := u\<rparr> = newAccount u now h req"
  by (simp_all add: newAccount_def)

lemma csCommit_eval:
  "to_commit (csTx k) s = (let s' = s\<lparr>cs_pending := drop_key k (cs_pending s)\<rparr> in
       case map_of (cs_pending s) k of
         None \<Rightarrow> (Inr (), s')
       | Some r \<Rightarrow> if conflicts r (tableRows (cs_table s)) then (Inl (PgError uniqueViolation), s')
                   else (Inr (), s'\<lparr>cs_table := mkTable (tableRows (cs_table s) @ [r])\<rparr>))"
  by (simp add: csTx_def)

definition rowOf :: "account \<Rightarrow> pgrow" where
  "rowOf a = modelRow (the (toModel (Some a)))"

lemma rowOf_keys: "c_id (rowOf a) = ID a" "c_email (rowOf a) = Email a"
  by (simp_all add: rowOf_def toModel_def modelRow_def)

lemma csFirst_email:
  "repo_GetByEmail (csRepo k) m s =
     (case filter (whereCol ''email = ?'' m) (tableRows (cs_table (w_db s)) @ (case map_of (cs_pending (w_db s)) k of None \<Rightarrow> [] | Some r \<Rightarrow> [r])) of
       [] \<Rightarrow> (Inl (App (Cause ErrAccountNotFound ErrRecordNotFound)), s)
     | r # _ \<Rightarrow> (Inr (Some (gormToDomain (rowModel r))), s))"
  by (simp add: repo_evals onPart_def gormGetByEmail_def gormGetOne_def csGorm_simps csFirst_def
      andThen_def mapErr_def put_db_def ErrRecordNotFound_def split: list.split)

lemma csInsert_eval:
  "repo_Create (csRepo k) a s = (
     if \<not> fitsInt4 (Status a) then (Inl (App (Cause ErrInternal outOfRange)), s)
     else if conflicts (rowOf a) (tableRows (cs_table (w_db s))) \<or> map_of (cs_pending (w_db s)) k \<noteq> None
     then (Inl (App (Cause ErrAccountAlreadyExists ErrDuplicatedKey)), s)
     else (Inr (ID a), s\<lparr>w_db := (w_db s)\<lparr>cs_pending := put k (rowOf a) (cs_pending (w_db s))\<rparr>\<rparr>))"
  by (auto simp: repo_evals onPart_def gormCreate_def csGorm_simps csCreate_def andThen_def mapErr_def put_db_def
      ErrDuplicatedKey_def outOfRange_def toModel_def rowOf_def)

lemma sample_fits: "fitsInt4 (Status (newAccount u now h sampleReq))"
  by (simp add: fitsInt4_def newAccount_def sampleReq_def Valid_def status_defs)

lemma append_table: "tableRows (mkTable [r]) = [r]"
  by (rule tableRows_mkTable) (simp add: rowsWf_def)

lemmas cs_eval = csWorldTx_simps csFirst_email csInsert_eval csCommit_eval csBusy_def

lemmas run_create = schedule_eval twoCreates_def raceSchedule_def create_eval limiter_eval guards_eval spent_def Let_def raceUid_def
  upt_rec mapErr_def liftR_def newAccount_simps procFinish_def rollingBack_def logInfo_def info_def onPart_def put_db_def

lemma conflict_run:
  "fst (runSchedule raceSchedule (twoCreates, csWorld)) =
     [Done (Inr (Some (newAccount ''u0'' 7 ''$2a$longenough'' sampleReq))),
      Done (Inl (App (Cause ErrAccountAlreadyExists ErrDuplicatedKey)))]"
  by (simp del: repoOn_simps pBind_atom moveAt.simps cong: schedule_cong
      add: run_create csWorld_def cs_eval rowOf_keys sample_fits append_table whereCol_def conflicts_iff)

lemma worldLimiter_quiet:
  assumes "dp_limiter (worldUC r) q s = (y, s')"
  shows "w_db s' = w_db s \<and> (\<forall>e. y = Inl e \<longrightarrow> noApp e)"
proof -
  have l: "worldLimiter q s = (y, s')" using assms by simp
  have "(id \<circ> w_db) s' = (id \<circ> w_db) s"
    by (rule keepsD [OF worldLimiter_keeps(1) l])
  moreover have "\<exists>v. y = Inr v"
    using l by (auto simp: worldLimiter_def limiterLimit_def Let_def andThen_def mapErr_def worldRate_def bucketAllow_def
        split: if_splits)
  ultimately show ?thesis by auto
qed

lemma csWorld_limiter:
  "dp_limiter csUC q s = (y, s') \<Longrightarrow>
     (csView \<circ> w_db) s' = (csView \<circ> w_db) s \<and> (csPend \<circ> w_db) s' = (csPend \<circ> w_db) s \<and> (\<forall>e. y = Inl e \<longrightarrow> noApp e)"
  by (drule worldLimiter_quiet) simp

text \<open>In the race above, the first Create's account is in the table.\<close>

theorem concurrent_creates_witness:
  "\<exists>a. csView (w_db (snd (runSchedule raceSchedule (twoCreates, csWorld)))) ''u0'' = Some (gormEnc a) \<and> Email a = cr_Email sampleReq"
proof -
  let ?c = "runSchedule raceSchedule (twoCreates, csWorld)" and ?v = "csView \<circ> w_db" and ?p = "csPend \<circ> w_db"
  have run: "(poolStep (\<lambda>s s'. ?v s' = ?v s \<and> ?p s' = ?p s))\<^sup>*\<^sup>* (twoCreates, csWorld) (fst ?c, snd ?c)"
    unfolding prod.collapse by (rule runSchedule_steps)
  have bcrypt: "noApp e" if "demoHash p = Inl e" for p e using that by (auto simp: demoHash_def split: if_splits)
  have start: "wf_accounts (?v csWorld)" "?p csWorld k = None" "inj_on raceUid {..<2}" for k
    by (simp_all add: csWorld_def csPend_def wf_accounts_def rowsView_def inj_on_def raceUid_def)
  have log: "?v (dp_log csUC msg i s) = ?v s" "?p (dp_log csUC msg i s) = ?p s" for msg i s by (simp_all add: info_def)
  have two: "0 < (2::nat)" by simp
  have ok: "fst ?c ! 0 = Done (Inr (Some (newAccount ''u0'' 7 ''$2a$longenough'' sampleReq)))" unfolding conflict_run by simp
  note all = concurrent_creates [OF insert_server.on_part [OF cs.insert_server_axioms dbPart.store_part_axioms] csWorld_limiter
        log worldUC_simps(4) bcrypt twoCreates_def start(3) start(1,2) run, THEN conjunct2, THEN conjunct1]
  have "\<forall>k<2. \<forall>p. fst ?c ! k = Done (Inr p) \<longrightarrow> (\<exists>a. p = Some a \<and> ID a = raceUid k \<and> Email a = cr_Email sampleReq
      \<and> ?v (snd ?c) (raceUid k) = Some (gormEnc a))"
    by (rule all) assumption+
  with two ok obtain a where "Email a = cr_Email sampleReq" "?v (snd ?c) (raceUid 0) = Some (gormEnc a)" by blast
  moreover have "raceUid 0 = ''u0''" by (simp add: raceUid_def)
  ultimately show ?thesis unfolding comp_apply by metis
qed
end
