(* ===== verification/UpdateServers.thy ===== *)
theory UpdateServers
  imports UpdateRace CreateServers
begin

text \<open>
  The server of theory UpdateRace on PostgreSQL: an UPDATE locks its row and keeps its columns
  until the commit puts them into the committed row; its own transaction reads them.  Only what
  an Update calls is served.
\<close>

section \<open>PostgreSQL\<close>

record lockserver =
  ls_table :: pgtable
  ls_locks :: "(nat \<times> string \<times> (string \<times> gormval) list) list"

definition applyCols :: "(string \<times> gormval) list \<Rightarrow> pgrow \<Rightarrow> pgrow" where
  "applyCols cols r = (case setCols cols r of Some r' \<Rightarrow> r' | None \<Rightarrow> r)"

definition inRow :: "string \<Rightarrow> (string \<times> gormval) list \<Rightarrow> pgrow list \<Rightarrow> pgrow list" where
  "inRow i cols t = map (\<lambda>r. if c_id r = i then applyCols cols r else r) t"

definition lsSeen :: "nat \<Rightarrow> lockserver \<Rightarrow> pgrow list" where
  "lsSeen k s = (case map_of (ls_locks s) k of
     None \<Rightarrow> tableRows (ls_table s) | Some (i, cols) \<Rightarrow> inRow i cols (tableRows (ls_table s)))"

definition lsFirst :: "nat \<Rightarrow> string \<Rightarrow> string \<Rightarrow> (lockserver, go_error, AccountModel) op" where
  "lsFirst k qry v = (\<lambda>s. case filter (whereCol qry v) (lsSeen k s) of
     [] \<Rightarrow> (Inl ErrRecordNotFound, s) | r # _ \<Rightarrow> (Inr (rowModel r), s))"

definition lsUpdates :: "nat \<Rightarrow> string \<Rightarrow> (string \<times> gormval) list \<Rightarrow> (lockserver, go_error, goint) op" where
  "lsUpdates k i cols = (\<lambda>s.
     if \<not> list_all colOk cols then (Inl outOfRange, s)
     else if list_ex (\<lambda>r. c_id r = i) (tableRows (ls_table s)) then (Inr 1, s\<lparr>ls_locks := put k (i, cols) (ls_locks s)\<rparr>)
     else (Inr 0, s))"

definition lsGorm :: "nat \<Rightarrow> lockserver GormDB" where
  "lsGorm k = \<lparr>g_Create = (\<lambda>_. throw notServed), g_First = lsFirst k, g_Updates = lsUpdates k,
     g_Delete = (\<lambda>_. throw notServed), g_Count = (\<lambda>_. throw notServed), g_Find = (\<lambda>_ _ _. throw notServed)\<rparr>"

definition lsTx :: "nat \<Rightarrow> lockserver TxOps" where
  "lsTx k = \<lparr>to_begin = (\<lambda>s. (Inr (), s\<lparr>ls_locks := drop_key k (ls_locks s)\<rparr>)),
     to_commit = (\<lambda>s. (Inr (), s\<lparr>ls_table := mkTable (lsSeen k s), ls_locks := drop_key k (ls_locks s)\<rparr>)),
     to_rollback = (\<lambda>s. s\<lparr>ls_locks := drop_key k (ls_locks s)\<rparr>)\<rparr>"

definition lsBusy :: "nat \<Rightarrow> string \<Rightarrow> lockserver \<Rightarrow> bool" where
  "lsBusy k i s = list_ex (\<lambda>(k', j, cols). k' \<noteq> k \<and> j = i) (ls_locks s)"

section \<open>What the columns do to an account\<close>

fun setField :: "string \<times> gormval \<Rightarrow> account \<Rightarrow> account" where
  "setField (col, GTime t) a = (if col = ''updated_at'' then a\<lparr>UpdatedAt := micros t\<rparr> else a)"
| "setField (col, GText v) a =
     (if col = ''first_name'' then a\<lparr>FirstName := v\<rparr> else if col = ''last_name'' then a\<lparr>LastName := v\<rparr> else a)"
| "setField (col, GInt n) a = (if col = ''status'' then a\<lparr>Status := n\<rparr> else a)"

definition setFields :: "(string \<times> gormval) list \<Rightarrow> account \<Rightarrow> account" where
  "setFields cols = (if list_all colOk cols then fold setField cols else id)"

abbreviation lsView :: "lockserver \<Rightarrow> accounts" where
  "lsView s \<equiv> tableView (tableRows (ls_table s))"

definition lsPend :: "lockserver \<Rightarrow> nat \<Rightarrow> (string \<times> (account \<Rightarrow> account)) option" where
  "lsPend s k = map_option (\<lambda>(i, cols). (i, setFields cols)) (map_of (ls_locks s) k)"

lemma setCol_field: "setCol c r = Some r' \<Longrightarrow> rowAccount r' = setField c (rowAccount r)"
  by (cases c; cases "snd c") (auto simp: rowAccount_def fitsInt4_def split: if_splits)

lemma setCols_fields: "setCols cols r = Some r' \<Longrightarrow> rowAccount r' = fold setField cols (rowAccount r)"
  by (induction cols arbitrary: r) (auto split: option.splits dest: setCol_field)

lemma applyCols_keys: "c_id (applyCols cols r) = c_id r" "c_email (applyCols cols r) = c_email r"
  by (auto simp: applyCols_def split: option.splits dest: setCols_keys)

lemma applyCols_account: "rowAccount (applyCols cols r) = setFields cols (rowAccount r)"
proof (cases "list_all colOk cols")
  case True
  with setCols_ok [of cols r] obtain r' where "setCols cols r = Some r'" by auto
  with True setCols_fields [OF this] show ?thesis by (simp add: applyCols_def setFields_def)
next
  case False
  with setCols_ok [of cols r] have "setCols cols r = None" by auto
  with False show ?thesis by (simp add: applyCols_def setFields_def)
qed

lemma setFields_updates: "list_all colOk (gormUpdates p) \<Longrightarrow> setFields (gormUpdates p) = patch (gormEncp p)"
  by (auto simp: setFields_def fun_eq_iff gormUpdates_def Let_def patch_def gormEncp_def split: option.splits)

lemma inRow_view:
  "tableView (inRow i cols t) = (case tableView t i of None \<Rightarrow> tableView t
     | Some a \<Rightarrow> (tableView t)(i \<mapsto> setFields cols a))"
  unfolding inRow_def by (rule tableView_map) (simp_all add: applyCols_keys applyCols_account)

lemma inRow_wf: "wf_table t \<Longrightarrow> wf_table (inRow i cols t)"
  unfolding inRow_def by (rule wf_table_map) (simp_all add: applyCols_keys)

lemma lsSeen_wf: "wf_table (lsSeen k s)"
  by (auto simp: lsSeen_def inRow_wf split: option.split)

lemma lsSeen_view:
  "tableView (lsSeen k s) = (case lsPend s k of None \<Rightarrow> lsView s
     | Some (i, f) \<Rightarrow> (case lsView s i of None \<Rightarrow> lsView s | Some a \<Rightarrow> (lsView s)(i \<mapsto> f a)))"
  by (auto simp: lsSeen_def lsPend_def inRow_view split: option.splits)

lemma lsPend_simps:
  "lsPend (s\<lparr>ls_locks := drop_key k (ls_locks s)\<rparr>) = (lsPend s)(k := None)"
  "lsPend (s\<lparr>ls_locks := put k (i, cols) (ls_locks s)\<rparr>) = (lsPend s)(k \<mapsto> (i, setFields cols))"
  "lsPend (s\<lparr>ls_table := u\<rparr>) = lsPend s"
  "lsPend (s\<lparr>ls_table := u, ls_locks := drop_key k (ls_locks s)\<rparr>) = (lsPend s)(k := None)"
  by (auto simp: lsPend_def fun_eq_iff)

section \<open>The contract\<close>

lemma lsGet:
  assumes "repo_GetByID (gormRepository (lsGorm k)) i s = (y, s')"
  shows "s' = s \<and> (case y of
      Inr q \<Rightarrow> (\<exists>a. tableView (lsSeen k s) i = Some a \<and> q = Some a)
    | Inl e \<Rightarrow> tableView (lsSeen k s) i = None)"
proof -
  from assms obtain x where f: "lsFirst k ''id = ?'' i s = (x, s')"
    and y: "y = (case x of Inl e \<Rightarrow> Inl (if errorsIs e ErrRecordNotFound then App (Cause ErrAccountNotFound e) else App (Cause ErrInternal e))
        | Inr r \<Rightarrow> Inr (Some (gormToDomain r)))"
    by (auto simp: gormRepository_def gormGetByID_def gormGetOne_def lsGorm_def andThen_def mapErr_def
        split: prod.splits sum.splits)
  show ?thesis
  proof (cases "filter (whereCol ''id = ?'' i) (lsSeen k s)")
    case Nil
    then have "\<forall>r \<in> set (lsSeen k s). c_id r \<noteq> i" by (auto simp: filter_empty_conv whereCol_def)
    with Nil f y show ?thesis by (auto simp: lsFirst_def tableView_None)
  next
    case (Cons r rs)
    have "r \<in> set (filter (whereCol ''id = ?'' i) (lsSeen k s))" unfolding Cons by simp
    then have "r \<in> set (lsSeen k s)" "c_id r = i" by (auto simp: whereCol_def)
    with tableView_Some [OF lsSeen_wf, of k s i] have "tableView (lsSeen k s) i = Some (rowAccount r)" by auto
    with Cons f y show ?thesis by (auto simp: lsFirst_def)
  qed
qed

lemma lsUpdate:
  assumes "repo_Update (gormRepository (lsGorm k)) p s = (y, s')"
  shows "lsView s' = lsView s \<and> (case y of
      Inr u \<Rightarrow> lsView s (up_ID p) \<noteq> None \<and> lsPend s' = (lsPend s)(k \<mapsto> (up_ID p, patch (gormEncp p)))
    | Inl e \<Rightarrow> lsPend s' = lsPend s \<and> (errorsIs e (App ErrAccountNotFound) \<longrightarrow> lsView s (up_ID p) = None))"
proof -
  let ?cols = "gormUpdates p" and ?has = "list_ex (\<lambda>r. c_id r = up_ID p) (tableRows (ls_table s))"
  from assms have r: "gormUpdate (lsGorm k) p s = (y, s')" by (simp add: gormRepository_def)
  have has: "?has \<longleftrightarrow> lsView s (up_ID p) \<noteq> None" by (simp add: list_ex_iff tableView_None image_iff) metis
  consider "\<not> list_all colOk ?cols" | "list_all colOk ?cols" "?has" | "list_all colOk ?cols" "\<not> ?has" by blast
  then show ?thesis
  proof cases
    case 1
    with r show ?thesis
      by (auto simp: gormUpdate_def lsGorm_def lsUpdates_def andThen_def mapErr_def outOfRange_def ErrDuplicatedKey_def)
  next
    case 2
    with r has setFields_updates [of p] show ?thesis
      by (auto simp: gormUpdate_def lsGorm_def lsUpdates_def andThen_def mapErr_def lsPend_simps)
  next
    case 3
    with r has show ?thesis by (auto simp: gormUpdate_def lsGorm_def lsUpdates_def andThen_def mapErr_def)
  qed
qed

interpretation ls: update_server "\<lambda>k. gormRepository (lsGorm k)" lsTx lsBusy lsView lsPend gormEncp
proof (rule update_server.intro)
  show "j \<noteq> i" if "\<not> lsBusy k i s" "k' \<noteq> k" "lsPend s k' = Some (j, f)" for k k' i j f s
    using that by (auto simp: lsBusy_def lsPend_def list_ex_iff dest: map_of_SomeD)
  show "\<exists>a. lsView s i = Some a \<and> q = Some (f a)"
    if "repo_GetByID (gormRepository (lsGorm k)) i s = (Inr q, s')" "lsPend s k = Some (i, f)" for k i s q s' f
    using lsGet [OF that(1)] that(2) by (auto simp: lsSeen_view split: option.splits)
  show "lsView s i = None"
    if "repo_GetByID (gormRepository (lsGorm k)) i s = (Inl e, s')" for k i s e s'
    using lsGet [OF that] by (auto simp: lsSeen_view split: option.splits if_splits)
  show "lsPend s' = (lsPend s)(k := None) \<and> lsView s' = (case lsPend s k of None \<Rightarrow> lsView s
      | Some (i, f) \<Rightarrow> (case lsView s i of None \<Rightarrow> lsView s | Some a \<Rightarrow> (lsView s)(i \<mapsto> f a)))"
    if "to_commit (lsTx k) s = (Inr u, s')" for k s u s'
  proof -
    from that have "s' = s\<lparr>ls_table := mkTable (lsSeen k s), ls_locks := drop_key k (ls_locks s)\<rparr>" by (simp add: lsTx_def)
    then show ?thesis by (simp only: lsPend_simps) (simp add: tableRows_mkTable [OF lsSeen_wf] lsSeen_view)
  qed
qed (auto simp: gormEncp_def lsTx_def lsPend_simps dest: lsGet lsUpdate)

section \<open>Two Updates of one account\<close>

definition annRow :: pgrow where
  "annRow = \<lparr>c_id = ''a1'', c_email = ''ann@x.io'', c_first_name = ''A'', c_last_name = ''B'', c_password_hash = ''h'',
     c_status = 1, c_created_at = 0, c_updated_at = 0, c_deleted_at = None\<rparr>"

definition lsWorld :: lockserver where
  "lsWorld = \<lparr>ls_table = mkTable [annRow], ls_locks = []\<rparr>"

text \<open>The first sets the first name, the second the last name.\<close>

definition nameReq :: "nat \<Rightarrow> UpdateAccountRequest" where
  "nameReq k = (if k = 0 then \<lparr>ur_ID = ''a1'', ur_FirstName = Some ''Ann'', ur_LastName = None, ur_Status = None\<rparr>
     else \<lparr>ur_ID = ''a1'', ur_FirstName = None, ur_LastName = Some ''Lee'', ur_Status = None\<rparr>)"

definition twoUpdates :: "(lockserver, go_error + account ptr) proc list" where
  "twoUpdates = map (\<lambda>k. procUpdate (rowLocking (lsBusy k) (gormRepository (lsGorm k))) (lsTx k) 7 (nameReq k)) [0..<2]"

text \<open>Both begin; the second waits for the row until the first has committed.\<close>

definition updateSchedule :: "nat list" where
  "updateSchedule = [0, 1, 0, 1, 0, 0, 1, 1, 1]"

lemma lsUpdate_eval:
  "repo_Update (gormRepository (lsGorm k)) p s =
     (if \<not> list_all colOk (gormUpdates p) then (Inl (App (Cause ErrInternal outOfRange)), s)
      else if list_ex (\<lambda>r. c_id r = up_ID p) (tableRows (ls_table s))
      then (Inr (), s\<lparr>ls_locks := put k (up_ID p, gormUpdates p) (ls_locks s)\<rparr>)
      else (Inl (App ErrAccountNotFound), s))"
  by (auto simp: gormRepository_def gormUpdate_def lsGorm_def lsUpdates_def andThen_def mapErr_def outOfRange_def ErrDuplicatedKey_def)

lemma lsGet_eval:
  "repo_GetByID (gormRepository (lsGorm k)) i s =
     (case filter (whereCol ''id = ?'' i) (lsSeen k s) of
       [] \<Rightarrow> (Inl (App (Cause ErrAccountNotFound ErrRecordNotFound)), s)
     | r # _ \<Rightarrow> (Inr (Some (rowAccount r)), s))"
  by (simp add: gormRepository_def gormGetByID_def gormGetOne_def lsGorm_def lsFirst_def andThen_def mapErr_def
      ErrRecordNotFound_def split: list.split)

lemma update_run:
  "\<exists>a b. fst (runSchedule updateSchedule (twoUpdates, lsWorld)) = [Done (Inr (Some a)), Done (Inr (Some b))]"
  by (simp del: pBind_atom moveAt.simps cong: schedule_cong
      add: schedule_eval twoUpdates_def updateSchedule_def procUpdate_def procWithTx_def procUpdateBody_def procFinish_def
        rowLocking_simps nameReq_def updateParams_def lsTx_def lsUpdate_eval lsGet_eval lsBusy_def lsSeen_def lsWorld_def
        append_table annRow_def gormUpdates_def colOk_def inRow_def applyCols_def whereCol_def upt_rec Let_def)

text \<open>Both names are in the table in the end.\<close>

theorem concurrent_updates_witness:
  "\<exists>b. lsView (snd (runSchedule updateSchedule (twoUpdates, lsWorld))) ''a1'' = Some b \<and> FirstName b = ''Ann'' \<and> LastName b = ''Lee''"
proof -
  let ?c = "runSchedule updateSchedule (twoUpdates, lsWorld)"
  have run: "(poolStep (\<lambda>s s'. lsView s' = lsView s \<and> lsPend s' = lsPend s))\<^sup>*\<^sup>* (twoUpdates, lsWorld) (fst ?c, snd ?c)"
    unfolding prod.collapse by (rule runSchedule_steps)
  have idle: "lsPend lsWorld k = None" for k by (simp add: lsPend_def lsWorld_def)
  note all = concurrent_updates [OF ls.update_server_axioms twoUpdates_def idle run, THEN conjunct2, THEN conjunct2, THEN conjunct1,
      rule_format]
  obtain a0 a1 where ends: "fst ?c = [Done (Inr (Some a0)), Done (Inr (Some a1))]" using update_run by blast
  from all [of 0 "Some a0"] ends obtain b where b: "lsView (snd ?c) ''a1'' = Some b" and f: "notLost ur_FirstName FirstName nameReq 2 0 a0 b"
    by (auto simp: nameReq_def)
  from all [of 1 "Some a1"] ends b have l: "notLost ur_LastName LastName nameReq 2 1 a1 b"
    by (auto simp: nameReq_def)
  have "noOtherSets ur_FirstName nameReq 2 0" "noOtherSets ur_LastName nameReq 2 1"
    by (auto simp: noOtherSets_def nameReq_def less_2_cases_iff)
  with f l have "FirstName b = ''Ann''" "LastName b = ''Lee''" by (simp_all add: notLost_def nameReq_def)
  with b show ?thesis by blast
qed

end
