(* ===== verification/TxManagers.thy ===== *)
theory TxManagers
  imports UseCaseWorld
begin

text \<open>
  The transaction managers (\<open>internal/infra/db/tx_manager_gorm.go\<close>, \<open>_pgx.go\<close>, \<open>_mongo.go\<close>) and
  how the repositories find the transaction in the context.  go-transaction-manager (\<open>Do\<close>, the
  context getters) and the drivers are parameters; what the code relies on of them is the
  locale \<open>tx_server\<close>.  Its lemmas reduce a closure run by \<open>WithTx\<close> over the providers to the
  same closure over one database, the level at which the port \<open>TxManager\<close> is used elsewhere.
\<close>

section \<open>Driver handles on a part of the state\<close>

definition gormOn :: "('s \<Rightarrow> 'd) \<Rightarrow> ('d \<Rightarrow> 's \<Rightarrow> 's) \<Rightarrow> 'd GormDB \<Rightarrow> 's GormDB" where
  "gormOn get upd g = \<lparr>g_Create = (\<lambda>m. onPart get upd (g_Create g m)),
     g_First = (\<lambda>qry v. onPart get upd (g_First g qry v)),
     g_Updates = (\<lambda>i cols. onPart get upd (g_Updates g i cols)),
     g_Delete = (\<lambda>i. onPart get upd (g_Delete g i)),
     g_Count = (\<lambda>st. onPart get upd (g_Count g st)),
     g_Find = (\<lambda>st lim off. onPart get upd (g_Find g st lim off))\<rparr>"

definition dbtxOn :: "('s \<Rightarrow> 'd) \<Rightarrow> ('d \<Rightarrow> 's \<Rightarrow> 's) \<Rightarrow> 'd DBTX \<Rightarrow> 's DBTX" where
  "dbtxOn get upd d = \<lparr>tx_Exec = (\<lambda>qry args. onPart get upd (tx_Exec d qry args)),
     tx_Query = (\<lambda>qry args. onPart get upd (tx_Query d qry args)),
     tx_QueryRow = (\<lambda>qry args. onPart get upd (tx_QueryRow d qry args))\<rparr>"

definition collOn :: "('s \<Rightarrow> 'd) \<Rightarrow> ('d \<Rightarrow> 's \<Rightarrow> 's) \<Rightarrow> 'd Collection \<Rightarrow> 's Collection" where
  "collOn get upd c = \<lparr>co_InsertOne = (\<lambda>doc. onPart get upd (co_InsertOne c doc)),
     co_FindOne = (\<lambda>flt. onPart get upd (co_FindOne c flt)),
     co_UpdateOne = (\<lambda>flt cols. onPart get upd (co_UpdateOne c flt cols)),
     co_DeleteOne = (\<lambda>flt. onPart get upd (co_DeleteOne c flt)),
     co_CountDocuments = (\<lambda>flt. onPart get upd (co_CountDocuments c flt)),
     co_FindAll = (\<lambda>flt srt lim off. onPart get upd (co_FindAll c flt srt lim off)),
     co_CreateMany = (\<lambda>ixs. onPart get upd (co_CreateMany c ixs)),
     IsDuplicateKeyError = IsDuplicateKeyError c\<rparr>"

context store_part
begin

text \<open>Each repository commutes with moving its handle to a part of the state.\<close>

lemma gormRepository_on: "gormRepository (gormOn get upd g) = repoOn get upd (gormRepository g)"
  by (auto simp: gormRepository_def repoOn_def gormOn_def gormCreate_def gormGetByID_def gormGetByEmail_def
      gormGetOne_def gormUpdate_def gormDelete_def gormList_def Let_def onPart_push fun_eq_iff
      split: option.splits)

lemma sqlcRepository_on: "sqlcRepository (dbtxOn get upd d) = repoOn get upd (sqlcRepository d)"
  by (auto simp: sqlcRepository_def repoOn_def dbtxOn_def sqlcCreate_def sqlcGetByID_def sqlcGetByEmail_def
      sqlcUpdate_def sqlcDelete_def sqlcList_def genCreateAccount_def genGetAccountByID_def
      genGetAccountByEmail_def genUpdateAccount_def genDeleteAccount_def genListAccounts_def
      genCountAccounts_def Let_def onPart_push fun_eq_iff)

lemma mongoRepository_on: "mongoRepository (collOn get upd c) = repoOn get upd (mongoRepository c)"
  by (auto simp: mongoRepository_def repoOn_def collOn_def mongoCreate_def mongoGetByID_def mongoGetByEmail_def
      findOne_def mongoUpdate_def mongoDelete_def mongoList_def Let_def onPart_push fun_eq_iff)

text \<open>So do the closures of the use case.\<close>

lemma ensureEmailFree_on: "ensureEmailFree (repoOn get upd r) email = onPart get upd (ensureEmailFree r email)"
  by (rule ext) (simp add: ensureEmailFree_def repoOn_def onPart_def split: prod.splits sum.splits)

lemma createBody_on:
  "dp_repo uc' = repoOn get upd (dp_repo uc) \<Longrightarrow> createBody uc' a = onPart get upd (createBody uc a)"
  by (simp add: createBody_def ensureEmailFree_on onPart_push)

lemma updateBody_on:
  "dp_repo uc' = repoOn get upd (dp_repo uc) \<Longrightarrow> updateBody uc' now req = onPart get upd (updateBody uc now req)"
  by (simp add: updateBody_def onPart_push)

lemma deleteBody_on:
  "dp_repo uc' = repoOn get upd (dp_repo uc) \<Longrightarrow> deleteBody uc' i = onPart get upd (deleteBody uc i)"
  by (simp add: deleteBody_def onPart_push)

end

section \<open>The managers\<close>

text \<open>
  \<open>'c\<close> is \<open>context.Context\<close>.  \<open>manager.Must(factory(db))\<close> yields \<open>Do\<close>; \<open>DefaultTrOrDB\<close> of a
  context getter returns the handle of the context's transaction, or the one it is given.
\<close>

type_synonym ('c, 's) trmDo = "'c \<Rightarrow> ('c \<Rightarrow> ('s, go_error, account ptr) op) \<Rightarrow> ('s, go_error, account ptr) op"
type_synonym ('c, 'k) CtxGetter = "'c \<Rightarrow> 'k \<Rightarrow> 'k"

record ('c, 's) GormTxManager =
  gm_db :: "'s GormDB"
  gm_manager :: "('c, 's) trmDo"
  gm_getter :: "('c, 's GormDB) CtxGetter"

definition NewGormTxManager ::
    "('s GormDB \<Rightarrow> ('c, 's) trmDo) \<Rightarrow> ('c, 's GormDB) CtxGetter \<Rightarrow> 's GormDB \<Rightarrow> ('c, 's) GormTxManager" where
  "NewGormTxManager newManager getter db = \<lparr>gm_db = db, gm_manager = newManager db, gm_getter = getter\<rparr>"

definition gormWithTx :: "('c, 's) GormTxManager \<Rightarrow> ('c, 's) trmDo" where
  "gormWithTx m ctx fn = gm_manager m ctx fn"

text \<open>\<open>withContext\<close> is \<open>(*gorm.DB).WithContext\<close>.\<close>

definition gormGetDB :: "('c \<Rightarrow> 's GormDB \<Rightarrow> 's GormDB) \<Rightarrow> ('c, 's) GormTxManager \<Rightarrow> 'c \<Rightarrow> 's GormDB" where
  "gormGetDB withContext m ctx = gm_getter m ctx (withContext ctx (gm_db m))"

text \<open>
  Every method of the GORM repository starts with \<open>db := r.provider.GetDB(ctx)\<close> and goes on with
  \<open>db.WithContext(ctx)\<close>: what it does under \<open>ctx\<close>.
\<close>

definition gormProvided :: "('c \<Rightarrow> 's GormDB \<Rightarrow> 's GormDB) \<Rightarrow> ('c, 's) GormTxManager \<Rightarrow> 'c \<Rightarrow> 's AccountRepository" where
  "gormProvided withContext m ctx = gormRepository (withContext ctx (gormGetDB withContext m ctx))"

record ('c, 's) PgxTxManager =
  pm_pool :: "'s DBTX"
  pm_manager :: "('c, 's) trmDo"
  pm_getter :: "('c, 's DBTX) CtxGetter"

definition NewPgxTxManager ::
    "('s DBTX \<Rightarrow> ('c, 's) trmDo) \<Rightarrow> ('c, 's DBTX) CtxGetter \<Rightarrow> 's DBTX \<Rightarrow> ('c, 's) PgxTxManager" where
  "NewPgxTxManager newManager getter pool = \<lparr>pm_pool = pool, pm_manager = newManager pool, pm_getter = getter\<rparr>"

definition pgxWithTx :: "('c, 's) PgxTxManager \<Rightarrow> ('c, 's) trmDo" where
  "pgxWithTx m ctx fn = pm_manager m ctx fn"

definition Conn :: "('c, 's) PgxTxManager \<Rightarrow> 'c \<Rightarrow> 's DBTX" where
  "Conn m ctx = pm_getter m ctx (pm_pool m)"

text \<open>The sqlc repository under \<open>ctx\<close>: every method goes through \<open>r.queries(ctx)\<close>.\<close>

definition sqlcQueries :: "('c, 's) PgxTxManager \<Rightarrow> 'c \<Rightarrow> 's AccountRepository" where
  "sqlcQueries m ctx = sqlcRepository (Conn m ctx)"

record ('c, 's, 'db) MongoTxManager =
  mm_db :: 'db
  mm_manager :: "('c, 's) trmDo"

definition NewMongoTxManager :: "('db \<Rightarrow> ('c, 's) trmDo) \<Rightarrow> 'db \<Rightarrow> ('c, 's, 'db) MongoTxManager" where
  "NewMongoTxManager newManager db = \<lparr>mm_db = db, mm_manager = newManager db\<rparr>"

definition mongoWithTx :: "('c, 's, 'db) MongoTxManager \<Rightarrow> ('c, 's) trmDo" where
  "mongoWithTx m ctx fn = mm_manager m ctx fn"

definition mongoDatabase :: "('c, 's, 'db) MongoTxManager \<Rightarrow> 'db" where
  "mongoDatabase m = mm_db m"

text \<open>
  The MongoDB repository under \<open>ctx\<close>; \<open>collection db name ctx\<close> is \<open>db.Collection(name)\<close> with
  \<open>ctx\<close> passed to its methods, which join the session that \<open>ctx\<close> carries.
\<close>

definition mongoJoined ::
    "('db \<Rightarrow> string \<Rightarrow> 'c \<Rightarrow> 's Collection) \<Rightarrow> ('c, 's, 'db) MongoTxManager \<Rightarrow> 'c \<Rightarrow> 's AccountRepository" where
  "mongoJoined collection m ctx = mongoRepository (collection (mongoDatabase m) collectionName ctx)"

section \<open>What the code relies on\<close>

text \<open>
  A database server with its open transactions: \<open>rd None\<close> is the committed data, what the pool
  works on, \<open>rd (Some h)\<close> the data as transaction \<open>h\<close> sees it.  \<open>Do\<close> joins the transaction its
  context carries; otherwise it begins one on the committed data, hands the function a context
  that carries it, commits when the function returns nil, and rolls back when it fails.
\<close>

locale tx_server =
  fixes Do :: "('c, 's) trmDo"
    and tr :: "'c \<Rightarrow> 'h option"
    and rd :: "'h option \<Rightarrow> 's \<Rightarrow> 'd"
    and wr :: "'h option \<Rightarrow> 'd \<Rightarrow> 's \<Rightarrow> 's"
  assumes handle: "store_part (rd k) (wr k)"
    and isolated: "k \<noteq> k' \<Longrightarrow> rd k' (wr k d s) = rd k' s"
    and do_join: "tr ctx = Some h \<Longrightarrow> Do ctx fn = fn ctx"
    and do_commit: "tr ctx = None \<Longrightarrow> Do ctx fn s = (Inr v, s') \<Longrightarrow>
        \<exists>tx h s0 s1. tr tx = Some h \<and> rd None s0 = rd None s \<and> rd (Some h) s0 = rd None s
          \<and> fn tx s0 = (Inr v, s1) \<and> (rd None s1 = rd None s \<longrightarrow> rd None s' = rd (Some h) s1)"
    and do_fail: "tr ctx = None \<Longrightarrow> Do ctx fn s = (Inl e, s') \<Longrightarrow>
        noApp e \<and> rd None s' = rd None s
        \<or> (\<exists>tx h s0 r s1. tr tx = Some h \<and> rd None s0 = rd None s \<and> rd (Some h) s0 = rd None s
            \<and> fn tx s0 = (r, s1) \<and> (r = Inl e \<or> noApp e) \<and> rd None s' = rd None s1)"
begin

text \<open>
  A function that works on the transaction of its context runs as if on one database, and only
  its success is seen outside.
\<close>

lemma withTx_atomic:
  assumes "tr ctx = None" and fn: "\<And>tx h. tr tx = Some h \<Longrightarrow> fn tx = onPart (rd (Some h)) (wr (Some h)) m"
    and run: "Do ctx fn s = (r, s')"
  shows "case r of Inr v \<Rightarrow> m (rd None s) = (Inr v, rd None s')
    | Inl e \<Rightarrow> rd None s' = rd None s \<and> (noApp e \<or> (\<exists>d. m (rd None s) = (Inl e, d)))"
proof -
  have body: "m (rd None s) = (x, rd (Some h) s1) \<and> rd None s1 = rd None s"
    if "tr tx = Some h" "rd None s0 = rd None s" "rd (Some h) s0 = rd None s" "fn tx s0 = (x, s1)" for tx h s0 x s1
    using that(4) store_part.get_upd [OF handle, of "Some h"] isolated [of "Some h" None]
    by (auto simp: fn [OF that(1)] onPart_def that(2,3) split: prod.splits)
  show ?thesis
  proof (cases r)
    case (Inl e)
    with do_fail [OF assms(1) run [unfolded Inl]] show ?thesis by (auto dest!: body)
  next
    case (Inr v)
    with do_commit [OF assms(1) run [unfolded Inr]] show ?thesis by (auto dest!: body)
  qed
qed

text \<open>Calls of \<open>WithTx\<close> under the context of a transaction are part of it.\<close>

lemma nested_atomic:
  assumes "tr ctx = None"
    and "\<And>tx h. tr tx = Some h \<Longrightarrow> f1 tx = onPart (rd (Some h)) (wr (Some h)) m1"
    and "\<And>tx h. tr tx = Some h \<Longrightarrow> f2 tx = onPart (rd (Some h)) (wr (Some h)) m2"
    and "Do ctx (\<lambda>tx. andThen (Do tx f1) (\<lambda>_. Do tx f2)) s = (r, s')"
  shows "case r of Inr v \<Rightarrow> andThen m1 (\<lambda>_. m2) (rd None s) = (Inr v, rd None s')
    | Inl e \<Rightarrow> rd None s' = rd None s \<and> (noApp e \<or> (\<exists>d. andThen m1 (\<lambda>_. m2) (rd None s) = (Inl e, d)))"
  by (rule withTx_atomic [OF assms(1) _ assms(4)])
    (simp add: do_join assms(2,3) store_part.onPart_andThen [OF handle])

end

text \<open>A context getter over the server; \<open>conn h\<close> is the driver handle bound to \<open>h\<close>.\<close>

locale tx_getter = tx_server Do tr rd wr
  for Do :: "('c, 's) trmDo" and tr :: "'c \<Rightarrow> 'h option"
    and rd :: "'h option \<Rightarrow> 's \<Rightarrow> 'd" and wr :: "'h option \<Rightarrow> 'd \<Rightarrow> 's \<Rightarrow> 's" +
  fixes getter :: "('c, 'k) CtxGetter" and conn :: "'h option \<Rightarrow> 'k"
  assumes DefaultTrOrDB: "getter ctx k = (case tr ctx of None \<Rightarrow> k | Some h \<Rightarrow> conn (Some h))"
begin

lemma getter_conn: "getter ctx (conn None) = conn (tr ctx)"
  by (simp add: DefaultTrOrDB split: option.splits)

end

section \<open>The repositories join the transaction of their context\<close>

lemma gormProvided_on:
  assumes "tx_getter Do tr rd wr getter (\<lambda>k. gormOn (rd k) (wr k) g0)" "\<And>ctx g. withContext ctx g = g"
  shows "gormProvided withContext (NewGormTxManager newManager getter (gormOn (rd None) (wr None) g0)) ctx
    = repoOn (rd (tr ctx)) (wr (tr ctx)) (gormRepository g0)"
proof -
  have db: "gormGetDB withContext (NewGormTxManager newManager getter (gormOn (rd None) (wr None) g0)) ctx
    = gormOn (rd (tr ctx)) (wr (tr ctx)) g0"
    using tx_getter.getter_conn [OF assms(1), of ctx] by (simp add: gormGetDB_def NewGormTxManager_def assms(2))
  show ?thesis
    by (simp add: gormProvided_def db assms(2) store_part.gormRepository_on
        [OF tx_server.handle [OF tx_getter.axioms(1) [OF assms(1)]]])
qed

lemma sqlcQueries_on:
  assumes "tx_getter Do tr rd wr getter (\<lambda>k. dbtxOn (rd k) (wr k) d0)"
  shows "sqlcQueries (NewPgxTxManager newManager getter (dbtxOn (rd None) (wr None) d0)) ctx
    = repoOn (rd (tr ctx)) (wr (tr ctx)) (sqlcRepository d0)"
  using tx_getter.getter_conn [OF assms, of ctx]
  by (simp add: sqlcQueries_def Conn_def NewPgxTxManager_def store_part.sqlcRepository_on
      [OF tx_server.handle [OF tx_getter.axioms(1) [OF assms]]])

lemma mongoJoined_on:
  assumes "tx_server Do tr rd wr" "\<And>ctx. collection db collectionName ctx = collOn (rd (tr ctx)) (wr (tr ctx)) c0"
  shows "mongoJoined collection (NewMongoTxManager newManager db) ctx
    = repoOn (rd (tr ctx)) (wr (tr ctx)) (mongoRepository c0)"
  by (simp add: mongoJoined_def mongoDatabase_def NewMongoTxManager_def assms(2) store_part.mongoRepository_on
      [OF tx_server.handle [OF assms(1)]])

text \<open>The closures of the use case over a repository that joins, run by \<open>WithTx\<close>.\<close>

definition alone :: "'d AccountRepository \<Rightarrow> 'd AccountDeps" where
  "alone r = \<lparr>dp_repo = r, dp_tx = (\<lambda>body. body), dp_limiter = (\<lambda>q. throw (DriverErr [])),
     dp_passwords = \<lparr>pw_IsValidPassword = (\<lambda>p. Inr True), pw_Hash = Inr\<rparr>, dp_log = (\<lambda>msg i s. s)\<rparr>"

lemma alone_repo [simp]: "dp_repo (alone r) = r"
  by (simp add: alone_def)

context tx_server
begin

lemma bodies_on:
  assumes "\<And>tx. repo tx = repoOn (rd (tr tx)) (wr (tr tx)) r" and "tr tx = Some h"
  shows "createBody (uc\<lparr>dp_repo := repo tx\<rparr>) a = onPart (rd (Some h)) (wr (Some h)) (createBody (alone r) a)"
    "updateBody (uc\<lparr>dp_repo := repo tx\<rparr>) now req = onPart (rd (Some h)) (wr (Some h)) (updateBody (alone r) now req)"
    "deleteBody (uc\<lparr>dp_repo := repo tx\<rparr>) i = onPart (rd (Some h)) (wr (Some h)) (deleteBody (alone r) i)"
  using assms store_part.createBody_on [OF handle] store_part.updateBody_on [OF handle]
    store_part.deleteBody_on [OF handle] by (simp_all add: AccountDeps.select_convs)

end

context account_repository
begin

lemma updateBody_alone:
  assumes "updateBody (alone r) now req s = (Inr p, s')"
  shows "\<exists>a. view s (ur_ID req) = Some a
    \<and> p = Some (patch (encp (updateParams now req)) a)
    \<and> view s' = (view s)(ur_ID req \<mapsto> patch (encp (updateParams now req)) a)"
proof -
  from assms obtain u s1 where u: "repo_Update r (updateParams now req) s = (Inr u, s1)"
    and g: "repo_GetByID r (ur_ID req) s1 = (Inr p, s')"
    by (auto simp: updateBody_def andThen_ret_right elim!: andThen_InrE)
  from keepsD [OF reads_keep(1) g] update_ok [OF u] get_ok [OF g] show ?thesis
    by (auto simp: updateParams_def)
qed

lemma createBody_alone:
  assumes "createBody (alone r) a s = (Inr p, s')"
  shows "p = Some a \<and> view s (ID a) = None \<and> \<not> emailTaken (view s) (Email a) \<and> view s' = (view s)(ID a \<mapsto> enc a)"
proof -
  from assms obtain u s1 i where e: "ensureEmailFree r (Email a) s = (Inr u, s1)"
    and c: "repo_Create r a s1 = (Inr i, s')" and p: "p = Some (a\<lparr>ID := i\<rparr>)"
    by (auto simp: createBody_def elim!: andThen_InrE)
  from e have "view s1 = view s"
    using keepsD [OF reads_keep(2)] by (auto simp: ensureEmailFree_def split: prod.splits sum.splits if_splits)
  with create_ok [OF c] p show ?thesis by simp
qed

end

end
