(* ===== verification/TxServer.thy ===== *)
theory TxServer
  imports TxManagers UseCaseProps
begin

text \<open>
  A concrete server with transactions on which the locales of theory TxManagers are interpreted,
  and the properties of the transaction managers together with the repositories.
\<close>

section \<open>A server\<close>

text \<open>
  The committed data, a working copy for every transaction opened so far, and a script of the
  outcomes of the begins and commits to come (exhausted means success).  A context is the
  transaction it carries, if any.
\<close>

record 'd txserver =
  ts_data :: 'd
  ts_work :: "nat \<Rightarrow> 'd"
  ts_next :: nat
  ts_begins :: "string option list"
  ts_commits :: "string option list"

definition serverRd :: "nat option \<Rightarrow> 'd txserver \<Rightarrow> 'd" where
  "serverRd k s = (case k of None \<Rightarrow> ts_data s | Some h \<Rightarrow> ts_work s h)"

definition serverWr :: "nat option \<Rightarrow> 'd \<Rightarrow> 'd txserver \<Rightarrow> 'd txserver" where
  "serverWr k d s = (case k of None \<Rightarrow> s\<lparr>ts_data := d\<rparr> | Some h \<Rightarrow> s\<lparr>ts_work := (ts_work s)(h := d)\<rparr>)"

text \<open>The next outcome of a script.\<close>

definition outcomeOf :: "string option list \<Rightarrow> string option" where
  "outcomeOf fs = (case fs of [] \<Rightarrow> None | f # _ \<Rightarrow> f)"

definition serverBegin :: "'d txserver \<Rightarrow> 'd txserver" where
  "serverBegin s = s\<lparr>ts_work := (ts_work s)(ts_next s := ts_data s), ts_next := Suc (ts_next s),
     ts_begins := tl (ts_begins s)\<rparr>"

definition serverCommit :: "nat \<Rightarrow> account ptr \<Rightarrow> 'd txserver \<Rightarrow> (go_error + account ptr) \<times> 'd txserver" where
  "serverCommit h v s = (case outcomeOf (ts_commits s) of
     Some f \<Rightarrow> (Inl (DriverErr f), s\<lparr>ts_commits := tl (ts_commits s)\<rparr>)
   | None \<Rightarrow> (Inr v, s\<lparr>ts_data := ts_work s h, ts_commits := tl (ts_commits s)\<rparr>))"

definition serverDo :: "(nat option, 'd txserver) trmDo" where
  "serverDo ctx fn = (\<lambda>s. case ctx of
     Some h \<Rightarrow> fn ctx s
   | None \<Rightarrow> (case outcomeOf (ts_begins s) of
        Some f \<Rightarrow> (Inl (DriverErr f), s\<lparr>ts_begins := tl (ts_begins s)\<rparr>)
      | None \<Rightarrow> (case fn (Some (ts_next s)) (serverBegin s) of
            (Inl e, s1) \<Rightarrow> (Inl e, s1)
          | (Inr v, s1) \<Rightarrow> serverCommit (ts_next s) v s1)))"

definition serverGetter :: "(nat option \<Rightarrow> 'k) \<Rightarrow> (nat option, 'k) CtxGetter" where
  "serverGetter conn ctx k = (case ctx of None \<Rightarrow> k | Some h \<Rightarrow> conn (Some h))"

lemma serverRd_simps [simp]:
  "serverRd None s = ts_data s" "serverRd (Some h) s = ts_work s h"
  "ts_data (serverBegin s) = ts_data s" "ts_work (serverBegin s) (ts_next s) = ts_data s"
  by (simp_all add: serverRd_def serverBegin_def)

lemma serverDo_join [simp]: "serverDo (Some h) fn = fn (Some h)"
  by (rule ext) (simp add: serverDo_def)

interpretation srvPart: store_part "serverRd k" "serverWr k"
  by unfold_locales (auto simp: serverRd_def serverWr_def split: option.splits)

interpretation txs: tx_server serverDo "\<lambda>ctx. ctx" serverRd serverWr
proof unfold_locales
  show "serverRd k' (serverWr k d s) = serverRd k' s" if "k \<noteq> k'" for k k' d and s :: "'d txserver"
    using that by (auto simp: serverRd_def serverWr_def split: option.splits)
  fix ctx :: "nat option" and fn v e and s s' :: "'d txserver" assume none: "ctx = None"
  {
    assume "serverDo ctx fn s = (Inr v, s')"
    with none obtain s1 where "fn (Some (ts_next s)) (serverBegin s) = (Inr v, s1)" "ts_data s' = ts_work s1 (ts_next s)"
      by (auto simp: serverDo_def serverCommit_def split: option.splits prod.splits sum.splits)
    then show "\<exists>tx h s0 s1. tx = Some h \<and> serverRd None s0 = serverRd None s \<and> serverRd (Some h) s0 = serverRd None s
        \<and> fn tx s0 = (Inr v, s1)
        \<and> (serverRd None s1 = serverRd None s \<longrightarrow> serverRd None s' = serverRd (Some h) s1)"
      by (intro exI [of _ "Some (ts_next s)"] exI [of _ "ts_next s"] exI [of _ "serverBegin s"] exI [of _ s1]) simp
  next
    assume "serverDo ctx fn s = (Inl e, s')"
    with none consider (begun) f where "e = DriverErr f" "ts_data s' = ts_data s"
      | (ran) r s1 where "fn (Some (ts_next s)) (serverBegin s) = (r, s1)" "r = Inl e \<or> noApp e" "ts_data s' = ts_data s1"
      by (auto simp: serverDo_def serverCommit_def split: option.splits prod.splits sum.splits)
    then show "noApp e \<and> serverRd None s' = serverRd None s
      \<or> (\<exists>tx h s0 r s1. tx = Some h \<and> serverRd None s0 = serverRd None s \<and> serverRd (Some h) s0 = serverRd None s
          \<and> fn tx s0 = (r, s1) \<and> (r = Inl e \<or> noApp e) \<and> serverRd None s' = serverRd None s1)"
    proof cases
      case ran
      then show ?thesis
        by (intro disjI2 exI [of _ "Some (ts_next s)"] exI [of _ "ts_next s"] exI [of _ "serverBegin s"] exI [of _ r]
            exI [of _ s1]) simp
    qed simp
  }
qed simp

interpretation gormTx: tx_getter serverDo "\<lambda>ctx. ctx" serverRd serverWr
  "serverGetter (\<lambda>k. gormOn (serverRd k) (serverWr k) pgGorm)" "\<lambda>k. gormOn (serverRd k) (serverWr k) pgGorm"
  by unfold_locales (simp add: serverGetter_def)

interpretation pgxTx: tx_getter serverDo "\<lambda>ctx. ctx" serverRd serverWr
  "serverGetter (\<lambda>k. dbtxOn (serverRd k) (serverWr k) pgDB)" "\<lambda>k. dbtxOn (serverRd k) (serverWr k) pgDB"
  by unfold_locales (simp add: serverGetter_def)

definition gormTxManager :: "(nat option, pg txserver) GormTxManager" where
  "gormTxManager = NewGormTxManager (\<lambda>_. serverDo) (serverGetter (\<lambda>k. gormOn (serverRd k) (serverWr k) pgGorm))
     (gormOn (serverRd None) (serverWr None) pgGorm)"

definition pgxTxManager :: "(nat option, pg txserver) PgxTxManager" where
  "pgxTxManager = NewPgxTxManager (\<lambda>_. serverDo) (serverGetter (\<lambda>k. dbtxOn (serverRd k) (serverWr k) pgDB))
     (dbtxOn (serverRd None) (serverWr None) pgDB)"

definition sampleServer :: "pg txserver" where
  "sampleServer = \<lparr>ts_data = samplePg, ts_work = (\<lambda>_. pgEmpty), ts_next = 0, ts_begins = [], ts_commits = []\<rparr>"

lemma sampleServer_rows [simp]: "pgRows (ts_data sampleServer) = [sampleRow]"
  by (simp add: sampleServer_def samplePg_def pgRows_def sampleRow_def)

text \<open>
  The context decides: on the transaction's context a failing closure leaves no trace, on the
  context the use case was called with the deletion is committed at once and stays.
\<close>

lemma wrong_context_escapes:
  "(case gormWithTx gormTxManager None (\<lambda>tx. andThen (repo_Delete (gormProvided (\<lambda>_ g. g) gormTxManager tx) ''a1'')
       (\<lambda>_. throw (App ErrInternal))) sampleServer of (r, s') \<Rightarrow> r = Inl (App ErrInternal) \<and> pgRows (ts_data s') = [sampleRow])
   \<and> (case gormWithTx gormTxManager None (\<lambda>tx. andThen (repo_Delete (gormProvided (\<lambda>_ g. g) gormTxManager None) ''a1'')
       (\<lambda>_. throw (App ErrInternal))) sampleServer of (r, s') \<Rightarrow> r = Inl (App ErrInternal) \<and> pgRows (ts_data s') = [])"
  by (simp add: gormWithTx_def gormTxManager_def NewGormTxManager_def gormProvided_def gormGetDB_def serverGetter_def
      serverDo_def outcomeOf_def sampleServer_def gormRepository_def gormDelete_def gormOn_def pgGorm_def
      pgGormDelete_def orFault_def onPart_def andThen_def mapErr_def serverBegin_def serverWr_def
      samplePg_def sampleRow_def pgRows_def)

section \<open>Properties\<close>

text \<open>
  C20: GORM.  Update's closure, run by \<open>WithTx\<close> with every repository call under the context it
  hands out, is atomic on the committed rows: an error leaves them as they were, whether the
  transaction could not begin, a statement failed or the commit did; nil means the account
  existed, was returned as patched, and is the only one that changed.
\<close>

theorem gorm_withtx_update:
  assumes "tx_getter Do tr rd wr getter (\<lambda>k. gormOn (rd k) (wr k) g0)" "\<And>ctx g. withContext ctx g = g"
    and "gorm_driver g0 tbl" "newManager (gormOn (rd None) (wr None) g0) = Do"
    and "m = NewGormTxManager newManager getter (gormOn (rd None) (wr None) g0)" "tr ctx = None"
    and "gormWithTx m ctx (\<lambda>tx. updateBody (uc\<lparr>dp_repo := gormProvided withContext m tx\<rparr>) now req) s = (r, s')"
  shows "case r of
      Inl e \<Rightarrow> tbl (rd None s') = tbl (rd None s)
    | Inr p \<Rightarrow> \<exists>a. tableView (tbl (rd None s)) (ur_ID req) = Some a
        \<and> p = Some (patch (gormEncp (updateParams now req)) a)
        \<and> tableView (tbl (rd None s')) =
            (tableView (tbl (rd None s)))(ur_ID req \<mapsto> patch (gormEncp (updateParams now req)) a)"
proof -
  note srv = tx_getter.axioms(1) [OF assms(1)]
  have run: "Do ctx (\<lambda>tx. updateBody (uc\<lparr>dp_repo := gormProvided withContext m tx\<rparr>) now req) s = (r, s')"
    using assms(4,7) by (simp add: gormWithTx_def assms(5) NewGormTxManager_def)
  have on: "gormProvided withContext m tx = repoOn (rd (tr tx)) (wr (tr tx)) (gormRepository g0)" for tx
    unfolding assms(5) by (rule gormProvided_on [OF assms(1,2)])
  from tx_server.withTx_atomic [OF srv assms(6) tx_server.bodies_on(2) [OF srv on] run]
    account_repository.updateBody_alone [OF gorm_driver.gorm_implements_port_o [OF assms(3)]]
  show ?thesis by (fastforce split: sum.splits)
qed

theorem gorm_withtx_update_witness:
  "pgRows (ts_data (snd (gormWithTx gormTxManager None
     (\<lambda>tx. updateBody ((alone (gormProvided (\<lambda>_ g. g) gormTxManager None))\<lparr>dp_repo := gormProvided (\<lambda>_ g. g) gormTxManager tx\<rparr>) 5 (sampleUpdate\<lparr>ur_ID := ''zz''\<rparr>))
     sampleServer))) = [sampleRow]"
  (is "pgRows (ts_data (snd ?run)) = _")
proof -
  obtain r s' where run: "?run = (r, s')" by fastforce
  from gorm_withtx_update [OF gormTx.tx_getter_axioms _ pgg.gorm_driver_axioms _ gormTxManager_def _ run]
  have "case r of Inl e \<Rightarrow> pgRows (ts_data s') = pgRows (ts_data sampleServer)
    | Inr p \<Rightarrow> \<exists>a. tableView (pgRows (ts_data sampleServer)) ''zz'' = Some a" by (auto split: sum.splits)
  then have "pgRows (ts_data s') = [sampleRow]"
    by (auto simp: rowsView_def sampleRow_def split: sum.splits)
  then show ?thesis unfolding run by simp
qed

text \<open>
  C21: pgx.  Calls of \<open>WithTx\<close> nested in one are one transaction: of two creations, each in a
  \<open>WithTx\<close> of its own under an outer one, the first is undone when the second fails; when the
  whole returns nil both accounts are stored, with different ids and emails.
\<close>

theorem pgx_nested_withtx:
  assumes "tx_getter Do tr rd wr getter (\<lambda>k. dbtxOn (rd k) (wr k) d0)" "pg_driver d0 tbl"
    and "newManager (dbtxOn (rd None) (wr None) d0) = Do"
    and "m = NewPgxTxManager newManager getter (dbtxOn (rd None) (wr None) d0)" "tr ctx = None"
    and "pgxWithTx m ctx (\<lambda>tx.
        andThen (pgxWithTx m tx (\<lambda>t. createBody (uc\<lparr>dp_repo := sqlcQueries m t\<rparr>) a))
          (\<lambda>_. pgxWithTx m tx (\<lambda>t. createBody (uc\<lparr>dp_repo := sqlcQueries m t\<rparr>) b))) s = (r, s')"
  shows "case r of
      Inl e \<Rightarrow> tbl (rd None s') = tbl (rd None s)
    | Inr p \<Rightarrow> p = Some b \<and> ID a \<noteq> ID b \<and> Email a \<noteq> Email b
        \<and> tableView (tbl (rd None s')) = (tableView (tbl (rd None s)))(ID a \<mapsto> sqlcEnc a, ID b \<mapsto> sqlcEnc b)"
proof -
  note srv = tx_getter.axioms(1) [OF assms(1)]
  note repo = pg_driver.implements_port [OF assms(2)]
  let ?body = "createBody (alone (sqlcRepository d0))"
  have mgr: "pgxWithTx m = Do" using assms(3) by (simp add: fun_eq_iff pgxWithTx_def assms(4) NewPgxTxManager_def)
  have on: "sqlcQueries m tx = repoOn (rd (tr tx)) (wr (tr tx)) (sqlcRepository d0)" for tx
    unfolding assms(4) by (rule sqlcQueries_on [OF assms(1)])
  note body = tx_server.bodies_on(1) [OF srv on]
  have both: "p = Some b \<and> ID a \<noteq> ID b \<and> Email a \<noteq> Email b
      \<and> tableView (tbl t') = (tableView (tbl t))(ID a \<mapsto> sqlcEnc a, ID b \<mapsto> sqlcEnc b)"
    if "andThen (?body a) (\<lambda>_. ?body b) t = (Inr p, t')" for p t t'
    using that account_writes.enc_keys [OF account_repository.axioms(1) [OF repo]]
    by (fastforce elim!: andThen_InrE dest!: account_repository.createBody_alone [OF repo]
        simp: emailTaken_def ran_def split: if_splits)
  from tx_server.nested_atomic [OF srv assms(5) body body assms(6) [unfolded mgr]] both
  show ?thesis by (fastforce split: sum.splits)
qed

text \<open>The same account twice: the email of the second is taken.\<close>

theorem pgx_nested_withtx_witness:
  "pgRows (ts_data (snd (pgxWithTx pgxTxManager None (\<lambda>tx.
     andThen (pgxWithTx pgxTxManager tx
         (\<lambda>t. createBody ((alone (sqlcQueries pgxTxManager None))\<lparr>dp_repo := sqlcQueries pgxTxManager t\<rparr>) sampleAccount))
       (\<lambda>_. pgxWithTx pgxTxManager tx
         (\<lambda>t. createBody ((alone (sqlcQueries pgxTxManager None))\<lparr>dp_repo := sqlcQueries pgxTxManager t\<rparr>) sampleAccount)))
     sampleServer))) = [sampleRow]"
  (is "pgRows (ts_data (snd ?run)) = _")
proof -
  obtain r s' where run: "?run = (r, s')" by fastforce
  from pgx_nested_withtx [OF pgxTx.tx_getter_axioms pgx.pg_driver_axioms _ pgxTxManager_def _ run]
  have "case r of Inl e \<Rightarrow> pgRows (ts_data s') = pgRows (ts_data sampleServer) | Inr p \<Rightarrow> False"
    by (auto split: sum.splits)
  then have "pgRows (ts_data s') = [sampleRow]" by (auto split: sum.splits)
  then show ?thesis unfolding run by simp
qed

section \<open>MongoDB\<close>

text \<open>
  The same for MongoDB, whose repository has no getter: the session in the context makes the
  collection join.  Delete's closure removes exactly the account or changes nothing.
\<close>

lemma mongo_withtx_delete:
  assumes srv: "tx_server Do tr rd wr" and drv: "account_collection c0 docs"
    and coll: "\<And>ctx. collection db collectionName ctx = collOn (rd (tr ctx)) (wr (tr ctx)) c0"
    and m: "m = NewMongoTxManager newManager db" "newManager db = Do" and top: "tr ctx = None"
    and run: "mongoWithTx m ctx (\<lambda>tx. deleteBody (uc\<lparr>dp_repo := mongoJoined collection m tx\<rparr>) i) s = (r, s')"
  shows "case r of
      Inl e \<Rightarrow> docs (rd None s') = docs (rd None s)
    | Inr p \<Rightarrow> docsView (docs (rd None s)) i \<noteq> None
        \<and> docsView (docs (rd None s')) = (docsView (docs (rd None s)))(i := None)"
proof -
  note repo = account_repository.axioms(1) [OF account_collection.mongo_implements_port_o [OF drv]]
  have run': "Do ctx (\<lambda>tx. deleteBody (uc\<lparr>dp_repo := mongoJoined collection m tx\<rparr>) i) s = (r, s')"
    using run m by (simp add: mongoWithTx_def NewMongoTxManager_def)
  have on: "mongoJoined collection m tx = repoOn (rd (tr tx)) (wr (tr tx)) (mongoRepository c0)" for tx
    unfolding m(1) by (rule mongoJoined_on [OF srv]) (rule coll)
  have del: "docsView (docs t) i \<noteq> None \<and> docsView (docs t') = (docsView (docs t))(i := None)"
    if "deleteBody (alone (mongoRepository c0)) i t = (Inr p, t')" for p t t'
    using that account_writes.delete_ok [OF repo] by (fastforce simp: deleteBody_def elim!: andThen_InrE)
  from tx_server.withTx_atomic [OF srv top tx_server.bodies_on(3) [OF srv on] run'] del
  show ?thesis by (auto split: sum.splits)
qed

end
