(* ===== verification/CacheRace.thy ===== *)
theory CacheRace
  imports UseCaseProcs TxServer
begin

text \<open>
  The cached repository with several requests in flight.  Entries may become stale (a reader
  loads before a writer commits and stores after it evicted), but never outlive their time to
  live: once no write is in flight, the cache is coherent again after that time.
\<close>

section \<open>The environment of a pool\<close>

text \<open>Time passes, and the cache may become unreachable and come back.\<close>

definition weather :: "'d world \<Rightarrow> 'd world \<Rightarrow> bool" where
  "weather s s' \<longleftrightarrow> (\<exists>dt down. 0 \<le> dt
     \<and> s' = put_cache ((w_cache s)\<lparr>ms_now := ms_now (w_cache s) + dt, ms_down := down\<rparr>) s)"

abbreviation clock :: "'d world \<Rightarrow> time" where
  "clock s \<equiv> ms_now (w_cache s)"

abbreviation stored :: "'d world \<Rightarrow> string \<rightharpoonup> account ptr \<times> time" where
  "stored s \<equiv> map_of (ms_entries (w_cache s))"

lemma live_stored: "live (w_cache s) k = Some v \<Longrightarrow> \<exists>d. stored s k = Some (v, d) \<and> clock s < d"
  by (auto simp: live_def split: option.splits if_splits)

text \<open>What the calls to the cache do to the entries.\<close>

lemma get_stored: "lc_Get worldCache k s = (x, s') \<Longrightarrow> s' = s \<and> (\<forall>v. x = Inr v \<longrightarrow> live (w_cache s) k = Some v)"
  by (auto simp: memCache_def onPart_def memGet_def put_cache_def split: if_splits option.splits)

lemma set_stored:
  assumes "lc_Set worldCache k v ttl s = (x, s')"
  shows "w_db s' = w_db s \<and> clock s' = clock s
    \<and> (stored s' = stored s \<or> stored s' = (stored s)(k \<mapsto> (v, clock s + ttl)))"
  using assms by (auto simp: memCache_def onPart_def memSet_def put_cache_def split: if_splits)

lemma evict_stored:
  assumes "invalidate (worldDeps r ttl) k s = (x, s')"
  shows "w_db s' = w_db s \<and> clock s' = clock s \<and> (stored s' = stored s \<or> stored s' = (stored s)(k := None))"
  using assms
  by (auto simp: invalidate_def worldDeps_def memCache_def onPart_def memDelete_def put_cache_def warn_def
      split: if_splits)

section \<open>No entry outlives its time to live\<close>

definition timely :: "duration \<Rightarrow> 'd world \<Rightarrow> bool" where
  "timely ttl s \<longleftrightarrow> (\<forall>k v d. stored s k = Some (v, d) \<longrightarrow> d \<le> clock s + ttl)"

abbreviation keepsTimely :: "duration \<Rightarrow> 'd world \<Rightarrow> 'd world \<Rightarrow> bool" where
  "keepsTimely ttl s s' \<equiv> timely ttl s \<longrightarrow> timely ttl s'"

lemma timely_same_cache: "w_cache s' = w_cache s \<Longrightarrow> timely ttl s' = timely ttl s"
  by (simp add: timely_def)

lemma timely_weather: "timely ttl s \<Longrightarrow> weather s s' \<Longrightarrow> timely ttl s'"
  by (fastforce simp: timely_def weather_def)

lemma timely_subset:
  assumes "timely ttl s" "clock s' = clock s"
    and "\<And>k v d. stored s' k = Some (v, d) \<Longrightarrow> stored s k = Some (v, d) \<or> d = clock s + ttl"
  shows "timely ttl s'"
  unfolding timely_def
proof (intro allI impI)
  fix k v d assume "stored s' k = Some (v, d)"
  with assms(3) have "stored s k = Some (v, d) \<or> d = clock s + ttl" .
  with assms(1) show "d \<le> clock s' + ttl" unfolding assms(2) timely_def by auto
qed

lemma timely_get [every_atom]: "everyAtom (keepsTimely ttl) (atom (lc_Get worldCache k))"
  by (rule everyAtom_atom) (auto dest: get_stored)

lemma timely_set [every_atom]: "everyAtom (keepsTimely ttl) (atom (lc_Set worldCache k v ttl))"
proof (rule everyAtom_atom, intro impI)
  fix s x s' assume x: "lc_Set worldCache k v ttl s = (x, s')" "timely ttl s"
  from x(2) show "timely ttl s'"
  proof (rule timely_subset)
    show "clock s' = clock s" using set_stored [OF x(1)] by blast
    fix k' v' d assume "stored s' k' = Some (v', d)"
    with set_stored [OF x(1)] show "stored s k' = Some (v', d) \<or> d = clock s + ttl"
      by (metis fun_upd_apply option.inject option.simps(3) prod.inject)
  qed
qed

lemma timely_evict [every_atom]: "everyAtom (keepsTimely ttl) (atom (invalidate (worldDeps r ttl') k))"
proof (rule everyAtom_atom, intro impI)
  fix s x s' assume x: "invalidate (worldDeps r ttl') k s = (x, s')" "timely ttl s"
  from x(2) show "timely ttl s'"
  proof (rule timely_subset)
    show "clock s' = clock s" using evict_stored [OF x(1)] by blast
    fix k' v' d assume "stored s' k' = Some (v', d)"
    with evict_stored [OF x(1)] show "stored s k' = Some (v', d) \<or> d = clock s + ttl"
      by (metis fun_upd_apply option.inject option.simps(3) prod.inject)
  qed
qed

lemma timely_keeps:
  assumes "keeps w_cache m"
  shows "everyAtom (keepsTimely ttl) (atom m)"
proof (rule everyAtom_atom, intro impI)
  fix s x s' assume m: "m s = (x, s')" and t: "timely ttl s"
  from keepsD [OF assms m] have "timely ttl s' = timely ttl s" by (rule timely_same_cache)
  with t show "timely ttl s'" by blast
qed

lemma worldDeps_simps [simp]:
  "cd_inner (worldDeps r ttl) = liftRepo r" "cd_ttl (worldDeps r ttl) = ttl"
  "cd_cache (worldDeps r ttl) = cacheManager worldCache"
  by (simp_all add: worldDeps_def)

text \<open>Operations that leave the cache alone.\<close>

definition cacheless :: "'d world AccountRepository \<Rightarrow> bool" where
  "cacheless r \<longleftrightarrow> (\<forall>a. keeps w_cache (repo_Create r a)) \<and> (\<forall>i. keeps w_cache (repo_GetByID r i))
     \<and> (\<forall>m. keeps w_cache (repo_GetByEmail r m)) \<and> (\<forall>p. keeps w_cache (repo_Update r p))
     \<and> (\<forall>i. keeps w_cache (repo_Delete r i))"

lemma cacheless_lift: "cacheless (liftRepo r)"
  by (simp add: cacheless_def liftRepo_def keeps_onPart_db)

definition cachelessTx :: "'d world TxOps \<Rightarrow> bool" where
  "cachelessTx t \<longleftrightarrow> keeps w_cache (to_begin t) \<and> keeps w_cache (to_commit t) \<and> (\<forall>s. w_cache (to_rollback t s) = w_cache s)"

definition cachelessDeps :: "'d world AccountDeps \<Rightarrow> bool" where
  "cachelessDeps uc \<longleftrightarrow> (\<forall>q. keeps w_cache (dp_limiter uc q)) \<and> (\<forall>m i s. w_cache (dp_log uc m i s) = w_cache s)"

abbreviation siteRepo :: "(string \<Rightarrow> string) \<Rightarrow> duration \<Rightarrow> 'd AccountRepository \<Rightarrow> 'd world procRepository" where
  "siteRepo uni ttl r \<equiv> cachedProcs uni worldCache (worldDeps r ttl)"

lemma timely_siteRepo [every_atom]:
  "everyAtom (keepsTimely ttl) (pr_Create (siteRepo uni ttl r) a)"
  "everyAtom (keepsTimely ttl) (pr_GetByID (siteRepo uni ttl r) i)"
  "everyAtom (keepsTimely ttl) (pr_GetByEmail (siteRepo uni ttl r) m)"
  "everyAtom (keepsTimely ttl) (pr_Update (siteRepo uni ttl r) p)"
  "everyAtom (keepsTimely ttl) (pr_Delete (siteRepo uni ttl r) i)"
  using cacheless_lift [of r] unfolding cacheless_def cachedProcs_def procGetOnce_def procLoad_def procStore_def
  by (auto simp del: pBind_atom intro!: every_atom timely_keeps split: sum.splits)

text \<open>
  Any call of the use case over the cached repository.  Request \<open>k\<close> writes under the context of
  its transaction, \<open>rt k\<close>; Get reads outside transactions, through \<open>r\<close>.
\<close>

definition siteCalls ::
    "(string \<Rightarrow> string) \<Rightarrow> duration \<Rightarrow> 'd AccountRepository \<Rightarrow> (nat \<Rightarrow> 'd AccountRepository) \<Rightarrow> 'd world AccountDeps
       \<Rightarrow> (nat \<Rightarrow> 'd world TxOps) \<Rightarrow> ('d world, go_error + account ptr) proc set" where
  "siteCalls uni ttl r rt uc t =
     {procCreate uni uc (siteRepo uni ttl (rt k)) (t k) now uid req |k now uid req. True}
     \<union> {procGet (siteRepo uni ttl r) i |i. True}
     \<union> {procUpdate (siteRepo uni ttl (rt k)) (t k) now req |k now req. True}
     \<union> {procDelete uc (siteRepo uni ttl (rt k)) (t k) i |k i. True}"

lemma timely_WithTx:
  assumes "cachelessTx t" "everyAtom (keepsTimely ttl) body"
  shows "everyAtom (keepsTimely ttl) (procWithTx t body)"
proof -
  have "keeps w_cache (rollingBack t e)" for e
    using assms(1) by (simp add: cachelessTx_def keeps_def rollingBack_def)
  with assms show ?thesis
    unfolding procWithTx_def procFinish_def cachelessTx_def
    by (auto simp del: pBind_atom intro!: every_atom timely_keeps split: sum.splits)
qed

lemma timely_ensureEmailFree [every_atom]: "everyAtom (keepsTimely ttl) (procEnsureEmailFree (siteRepo uni ttl r) m)"
  unfolding procEnsureEmailFree_def by (auto intro!: every_atom split: sum.splits)

lemma timely_siteCalls:
  assumes "\<And>k. cachelessTx (t k)" "cachelessDeps uc" "p \<in> siteCalls uni ttl r rt uc t"
  shows "everyAtom (keepsTimely ttl) p"
proof -
  have lim: "keeps w_cache (mapErr f (dp_limiter uc q))" for f q
    using assms(2) by (intro keeps_mapErr) (simp add: cachelessDeps_def)
  have log: "keeps w_cache (logInfo uc m i)" for m i
    using assms(2) by (simp add: cachelessDeps_def keeps_def logInfo_def)
  have pw: "keeps w_cache (mapErr f (liftR x))" for f :: "go_error \<Rightarrow> go_error" and x :: "go_error + string"
    by (intro keeps_intros)
  have "everyAtom (keepsTimely ttl) (procCreate uni uc (siteRepo uni ttl (rt k)) (t k) now uid req)" for k now uid req
    unfolding procCreate_def procCreateBody_def
    by (intro every_atom timely_WithTx assms(1) timely_keeps lim log pw)
  moreover have "everyAtom (keepsTimely ttl) (procGet (siteRepo uni ttl r) i)" for i
    unfolding procGet_def by (intro every_atom)
  moreover have "everyAtom (keepsTimely ttl) (procUpdate (siteRepo uni ttl (rt k)) (t k) now req)" for k now req
    unfolding procUpdate_def procUpdateBody_def by (intro every_atom timely_WithTx assms(1))
  moreover have "everyAtom (keepsTimely ttl) (procDelete uc (siteRepo uni ttl (rt k)) (t k) i)" for k i
    unfolding procDelete_def procDeleteBody_def by (intro every_atom timely_WithTx assms(1) timely_keeps log)
  ultimately show ?thesis using assms(3) unfolding siteCalls_def by blast
qed

section \<open>Readers\<close>

text \<open>The values of a Get as it advances: lookup, load, store, done.\<close>

definition readerAt ::
    "duration \<Rightarrow> 'd AccountRepository \<Rightarrow> ('d world \<Rightarrow> accounts) \<Rightarrow> ('d world, go_error + account ptr) proc \<Rightarrow> 'd world \<Rightarrow> bool" where
  "readerAt ttl r view p s \<longleftrightarrow> (\<exists>x. p = Done x)
     \<or> (\<exists>i. p = procGetOnce worldCache (AccountCacheKeyByID i) (atom (repo_GetByID (liftRepo r) i)) ttl)
     \<or> (\<exists>i. p = procLoad worldCache (AccountCacheKeyByID i) (atom (repo_GetByID (liftRepo r) i)) ttl)
     \<or> (\<exists>i v. p = procStore worldCache (AccountCacheKeyByID i) ttl v \<and> view s i = v)"

text \<open>The durable accounts are \<open>V\<close>, and what may still be stale expires by \<open>limit\<close>.\<close>

definition settling :: "('d world \<Rightarrow> accounts) \<Rightarrow> accounts \<Rightarrow> time \<Rightarrow> 'd world \<Rightarrow> bool" where
  "settling view V limit s \<longleftrightarrow> view s = V
     \<and> (\<forall>i v d. stored s (AccountCacheKeyByID i) = Some (v, d) \<longrightarrow> d \<le> limit \<or> v = V i)"

locale quiet_pool = account_repository r view enc encp
  for r :: "'d AccountRepository" and view enc encp +
  fixes ttl :: duration and V :: accounts and limit :: time
begin

abbreviation worldView :: "'d world \<Rightarrow> accounts" where
  "worldView \<equiv> view \<circ> w_db"

lemma reader_own:
  assumes J: "settling worldView V limit s" and L: "readerAt ttl r worldView (Atom f) s" and f: "f s = Some (p, s')"
  shows "settling worldView V limit s' \<and> readerAt ttl r worldView p s' \<and> worldView s' = worldView s"
proof -
  from L consider (look) i where
      "Atom f = procGetOnce worldCache (AccountCacheKeyByID i) (atom (repo_GetByID (liftRepo r) i)) ttl"
    | (load) i where "Atom f = procLoad worldCache (AccountCacheKeyByID i) (atom (repo_GetByID (liftRepo r) i)) ttl"
    | (store) i v where "Atom f = procStore worldCache (AccountCacheKeyByID i) ttl v" "worldView s i = v"
    by (auto simp: readerAt_def)
  then show ?thesis
  proof cases
    case look
    then obtain x where g: "lc_Get worldCache (AccountCacheKeyByID i) s = (x, s')"
      and p: "p = (case x of Inr v \<Rightarrow> Done (Inr v)
        | Inl _ \<Rightarrow> procLoad worldCache (AccountCacheKeyByID i) (atom (repo_GetByID (liftRepo r) i)) ttl)"
      using f by (auto simp: procGetOnce_def split: prod.splits)
    from get_stored [OF g] J p show ?thesis by (auto simp: readerAt_def split: sum.splits)
  next
    case load
    then obtain x where g: "repo_GetByID (liftRepo r) i s = (x, s')"
      and p: "p = (case x of Inl e \<Rightarrow> Done (Inl e) | Inr v \<Rightarrow> procStore worldCache (AccountCacheKeyByID i) ttl v)"
      using f by (auto simp: procLoad_def pThen_def split: prod.splits)
    note lifted = lifted
    from keepsD [OF account_writes.reads_keep(1) [OF account_repository.axioms(1) [OF lifted]] g]
    have v: "worldView s' = worldView s" .
    from lifted_keeps_cache(2) g have c: "w_cache s' = w_cache s" by (rule keepsD)
    have "worldView s' i = w" if "x = Inr w" for w
      using account_repository.get_ok [OF lifted g [unfolded that]] v by auto
    with v c J p show ?thesis by (auto simp: readerAt_def settling_def split: sum.splits)
  next
    case store
    then obtain x where g: "lc_Set worldCache (AccountCacheKeyByID i) v ttl s = (x, s')"
      and p: "\<exists>y. p = Done y"
      using f by (auto simp: procStore_def pThen_def split: prod.splits sum.splits)
    from J store(2) set_stored [OF g] have "settling worldView V limit s'"
      by (auto simp: settling_def split: if_splits) blast+
    with p set_stored [OF g] show ?thesis by (simp add: readerAt_def)
  qed
qed

end

sublocale quiet_pool \<subseteq> readers: pool_invariant weather "settling worldView V limit"
  "\<lambda>_ p s. readerAt ttl r worldView p s" "\<lambda>_ s s'. worldView s' = worldView s"
proof (rule pool_invariant.intro)
  fix s s' :: "'d world" assume J: "settling worldView V limit s" and w: "weather s s'"
  from w have "worldView s' = worldView s" "stored s' = stored s" by (auto simp: weather_def)
  with J show "settling worldView V limit s' \<and> (\<forall>(n::nat) p. readerAt ttl r worldView p s \<longrightarrow> readerAt ttl r worldView p s')"
    by (auto simp: settling_def readerAt_def)
next
  fix s s' :: "'d world" and m n :: nat and p
  assume "readerAt ttl r worldView p s" "worldView s' = worldView s"
  then show "readerAt ttl r worldView p s'" unfolding readerAt_def by auto
qed (rule reader_own)

context quiet_pool
begin

lemma settled:
  assumes "(poolStep weather)\<^sup>*\<^sup>* (qs, s) (qs', s')" "timely ttl s" "V = worldView s" "limit = clock s + ttl"
    and "\<And>n. n < length qs \<Longrightarrow> readerAt ttl r worldView (qs ! n) s" "clock s + ttl \<le> clock s'"
  shows "worldView s' = worldView s \<and> (\<forall>i v. live (w_cache s') (AccountCacheKeyByID i) = Some v \<longrightarrow> v = worldView s' i)"
proof -
  have "settling worldView V limit s" using assms(2-4) by (auto simp: settling_def timely_def)
  from readers.at_end(1) [OF assms(1) this assms(5)] assms(3,4,6) show ?thesis
    by (fastforce simp: settling_def dest: live_stored)
qed

end

interpretation gormReads: quiet_pool "gormRepository pgGorm" "tableView \<circ> pgRows" gormEnc gormEncp accountCacheTTL V limit
  for V limit
  by (intro quiet_pool.intro) (rule pgg.gorm.account_repository_axioms)

section \<open>A site\<close>

text \<open>
  The server of theory TxServer behind the cache.  Request \<open>k\<close> names its transaction \<open>k\<close>; one
  request at a time writes.
\<close>

definition dbAt :: "nat option \<Rightarrow> pg txserver AccountRepository" where
  "dbAt k = repoOn (serverRd k) (serverWr k) (gormRepository pgGorm)"

definition siteTx :: "nat \<Rightarrow> pg txserver world TxOps" where
  "siteTx k = \<lparr>to_begin = onPart w_db put_db (\<lambda>s. (Inr (), s\<lparr>ts_work := (ts_work s)(k := ts_data s)\<rparr>)),
     to_commit = onPart w_db put_db (\<lambda>s. (Inr (), s\<lparr>ts_data := ts_work s k\<rparr>)), to_rollback = id\<rparr>"

definition siteWorld :: "pg txserver world" where
  "siteWorld = \<lparr>w_db = sampleServer, w_cache = emptyCache, w_buckets = [], w_commits = [], w_log = []\<rparr>"

abbreviation siteUC :: "pg txserver world AccountDeps" where
  "siteUC \<equiv> worldUC (worldRepo asciiOnly (dbAt None) accountCacheTTL)"

abbreviation siteAt :: "nat option \<Rightarrow> pg txserver world procRepository" where
  "siteAt k \<equiv> siteRepo asciiOnly accountCacheTTL (dbAt k)"

lemma dbAt_simps:
  "repo_Delete (dbAt k) i = onPart (serverRd k) (serverWr k) (gormDelete pgGorm i)"
  "repo_GetByID (dbAt k) i = onPart (serverRd k) (serverWr k) (gormGetByID pgGorm i)"
  by (simp_all add: dbAt_def repoOn_def gormRepository_def)

text \<open>Delete in request 0, Get in request 1: the lookup and the load fall before the commit, the store after the eviction.\<close>

definition deleteAndGet :: "(pg txserver world, go_error + account ptr) proc list" where
  "deleteAndGet = [procDelete siteUC (siteAt (Some 0)) (siteTx 0) ''a1'', procGet (siteAt None) ''a1'']"

definition later :: "time \<Rightarrow> 'd world \<Rightarrow> 'd world" where
  "later dt s = put_cache ((w_cache s)\<lparr>ms_now := ms_now (w_cache s) + dt\<rparr>) s"

definition staleSite :: "pg txserver world" where
  "staleSite = snd (runSchedule [0, 0, 1, 1, 0, 0, 1, 0] (deleteAndGet, siteWorld))"

lemma delete_race_run:
  "fst (runSchedule [0, 0, 1, 1, 0, 0, 1, 0] (deleteAndGet, siteWorld)) = [Done (Inr None), Done (Inr (Some (rowAccount sampleRow)))]
   \<and> pgRows (ts_data (w_db staleSite)) = []
   \<and> stored staleSite (AccountCacheKeyByID ''a1'') = Some (Some (rowAccount sampleRow), accountCacheTTL)
   \<and> clock staleSite = 0 \<and> \<not> ms_down (w_cache staleSite)"
  by (simp add: staleSite_def runSchedule_def deleteAndGet_def procDelete_def procGet_def procWithTx_def procDeleteBody_def
      cachedProcs_def procGetOnce_def procLoad_def procStore_def procFinish_def pThen_def atom_def siteWorld_def
      siteTx_def liftRepo_def dbAt_simps onPart_def gorm_eval andThen_def mapErr_def logInfo_def info_def
      serverWr_def sampleServer_def samplePg_def sampleRow_def emptyCache_def memCache_def memGet_def memSet_def
      memDelete_def live_def invalidate_def pgRows_def)

section \<open>Properties\<close>

text \<open>The processes of the site, run alone.\<close>

lemma processes_run_as_use_case_witness:
  "runAlone (procGet (siteAt None) ''a1'') siteWorld = Some (ucGet (siteUC\<lparr>dp_tx := txInParts (siteTx 0)\<rparr>) ''a1'' siteWorld)"
proof -
  let ?uc = "siteUC\<lparr>dp_tx := txInParts (siteTx 0)\<rparr>"
  have "repoRuns (siteAt None) (dp_repo ?uc)" using repoRuns_cached [of "worldDeps (dbAt None) accountCacheTTL" worldCache asciiOnly] by (simp add: worldRepo_def)
  then have "runAlone (procGet (siteAt None) ''a1'') siteWorld = Some (ucGet ?uc ''a1'' siteWorld)"
    by (rule processes_run_as_use_case [THEN conjunct2, THEN conjunct1]) simp
  then show ?thesis .
qed

text \<open>
  C9: a stale entry lives no longer than its time to live.  Let any number of Creates, Gets,
  Updates and Deletes run interleaved over the cached repository, with the clock advancing and
  the cache failing and coming back, and take a moment when no call is in flight and only Gets are
  still to run: every call has ended or is a Get that has not begun.  Whatever they do from then
  on, once the time to live has passed every entry under an id key is the durable account.  A Get
  that was in flight at that moment could store a stale account later.
\<close>

theorem stale_entries_expire:
  assumes "account_repository r view enc encp" "\<And>k. cachelessTx (t k)" "cachelessDeps uc"
    and "set ps \<subseteq> siteCalls uni ttl r rt uc t" "timely ttl s0"
    and "(poolStep weather)\<^sup>*\<^sup>* (ps, s0) (qs, s)"
    and "\<forall>q \<in> set qs. (\<exists>x. q = Done x) \<or> (\<exists>i. q = procGet (siteRepo uni ttl r) i)"
    and "(poolStep weather)\<^sup>*\<^sup>* (qs, s) (qs', s')" "clock s + ttl \<le> clock s'"
  shows "view (w_db s') = view (w_db s)
    \<and> (\<forall>i v. live (w_cache s') (AccountCacheKeyByID i) = Some v \<longrightarrow> v = view (w_db s') i)"
proof -
  have t: "timely ttl s"
  proof (rule pool_keeps [of weather ps s0 qs s "timely ttl", OF assms(6,5)])
    fix p assume "p \<in> set ps"
    with assms(4) have "p \<in> siteCalls uni ttl r rt uc t" by blast
    with assms(2,3) show "everyAtom (keepsTimely ttl) p" by (rule timely_siteCalls)
  qed (rule timely_weather)
  have "procGet (siteRepo uni ttl r) i = Done (Inl idRequired)
      \<or> procGet (siteRepo uni ttl r) i = procGetOnce worldCache (AccountCacheKeyByID i) (atom (repo_GetByID (liftRepo r) i)) ttl" for i
    by (simp add: procGet_def cachedProcs_def)
  with assms(7) have "readerAt ttl r (view \<circ> w_db) (qs ! n) s" if "n < length qs" for n
    unfolding readerAt_def using nth_mem [OF that] by metis
  from quiet_pool.settled [OF quiet_pool.intro [OF assms(1)] assms(8) t refl refl this assms(9)]
  show ?thesis unfolding comp_apply .
qed

lemma siteTx_cacheless: "cachelessTx (siteTx k)"
  by (simp add: cachelessTx_def siteTx_def keeps_onPart_db)

lemma siteUC_cacheless: "cachelessDeps siteUC"
  by (simp add: cachelessDeps_def worldLimiter_keeps info_def)

lemma dbAt_contract: "account_repository (dbAt k) ((tableView \<circ> pgRows) \<circ> serverRd k) gormEnc gormEncp"
  unfolding dbAt_def by (rule account_repository.on_part [OF pgg.gorm.account_repository_axioms]) (rule srvPart.store_part_axioms)

lemma staleSite_reached:
  "(poolStep weather)\<^sup>*\<^sup>* (deleteAndGet, siteWorld) ([Done (Inr None), Done (Inr (Some (rowAccount sampleRow)))], staleSite)"
  using runSchedule_steps [of weather "(deleteAndGet, siteWorld)" "[0, 0, 1, 1, 0, 0, 1, 0]"] delete_race_run
  unfolding staleSite_def by (metis prod.collapse)

text \<open>Five minutes after the race below, the deleted account is no longer in the cache.\<close>

theorem stale_entries_expire_witness:
  "live (w_cache (later accountCacheTTL staleSite)) (AccountCacheKeyByID ''a1'') \<noteq> Some (Some (rowAccount sampleRow))"
proof
  let ?d = "[Done (Inr None), Done (Inr (Some (rowAccount sampleRow)))]" and ?s = "later accountCacheTTL staleSite"
  assume l: "live (w_cache ?s) (AccountCacheKeyByID ''a1'') = Some (Some (rowAccount sampleRow))"
  have ps: "set deleteAndGet \<subseteq> siteCalls asciiOnly accountCacheTTL (dbAt None) (\<lambda>k. dbAt (Some k)) siteUC siteTx"
    unfolding deleteAndGet_def siteCalls_def by auto
  have "weather staleSite ?s" unfolding weather_def later_def
    by (intro exI [of _ accountCacheTTL] exI [of _ "ms_down (w_cache staleSite)"]) (simp add: accountCacheTTL_def Minute_def)
  then have w: "(poolStep weather)\<^sup>*\<^sup>* (?d, staleSite) (?d, ?s)" by (intro r_into_rtranclp poolStep.env)
  have t: "timely accountCacheTTL siteWorld" by (simp add: timely_def siteWorld_def emptyCache_def)
  have c: "clock staleSite + accountCacheTTL \<le> clock ?s" by (simp add: later_def)
  from stale_entries_expire [OF dbAt_contract siteTx_cacheless siteUC_cacheless ps t staleSite_reached _ w c] l
  have "Some (rowAccount sampleRow) = tableView (pgRows (ts_data (w_db ?s))) ''a1''" by fastforce
  then show False using delete_race_run by (simp add: later_def rowsView_def)
qed

text \<open>
  C10: the cache can serve what was deleted.  Delete evicts the id key inside its transaction,
  before the commit; a Get that looked up and loaded before the commit stores the account after
  the eviction.  Delete then answered nil and the account is gone, but Get returns it for as
  long as the entry lives.
\<close>

theorem deleted_account_served:
  assumes "0 \<le> dt" "dt < accountCacheTTL"
  shows "\<exists>s. (poolStep weather)\<^sup>*\<^sup>* (deleteAndGet, siteWorld) ([Done (Inr None), Done (Inr (Some (rowAccount sampleRow)))], s)
    \<and> tableView (pgRows (ts_data (w_db s))) ''a1'' = None
    \<and> fst (ucGet siteUC ''a1'' (later dt s)) = Inr (Some (rowAccount sampleRow))"
proof (intro exI conjI)
  from delete_race_run assms have "live (w_cache (later dt staleSite)) (AccountCacheKeyByID ''a1'') = Some (Some (rowAccount sampleRow))"
    "\<not> ms_down (w_cache (later dt staleSite))" by (simp_all add: live_def later_def)
  then show "fst (ucGet siteUC ''a1'' (later dt staleSite)) = Inr (Some (rowAccount sampleRow))"
    by (simp add: ucGet_def worldRepo_def cachedGetByID_def GetOnce_def memCache_def onPart_def memGet_def)
qed (use staleSite_reached delete_race_run in \<open>auto simp: rowsView_def\<close>)

theorem deleted_account_served_witness:
  "\<exists>s. tableView (pgRows (ts_data (w_db s))) ''a1'' = None
    \<and> fst (ucGet siteUC ''a1'' (later Minute s)) = Inr (Some (rowAccount sampleRow))"
  using deleted_account_served [of Minute] by (auto simp: accountCacheTTL_def Minute_def)

end
