(* ===== verification/MongoRace.thy ===== *)
theory MongoRace
  imports CreateServers MongoContract
begin

text \<open>
  The race of theory CreateServers on MongoDB.  There only a unique index on the email, which
  \<open>EnsureIndexes\<close> would build, stops two overlapping Creates with one email: without it both are
  stored, with it no interleaving of any number of Creates stores an email twice.  Nothing in the
  program calls \<open>EnsureIndexes\<close>.
\<close>

section \<open>The server\<close>

text \<open>A collection whose \<open>_id\<close>s are distinct, as MongoDB keeps them by itself.\<close>

typedef docstore = "{t :: accountDoc list. distinct (map d_ID t)}"
  morphisms storeDocs mkStore
proof
  show "[] \<in> {t :: accountDoc list. distinct (map d_ID t)}" by simp
qed

setup_lifting type_definition_docstore

lemma distinct_storeDocs [simp]: "distinct (map d_ID (storeDocs t))"
  using storeDocs [of t] by simp

lemma storeDocs_mkStore [simp]: "distinct (map d_ID t) \<Longrightarrow> storeDocs (mkStore t) = t"
  by (simp add: mkStore_inverse)

text \<open>
  Committed documents, and by transaction the snapshot it reads and its uncommitted insert.
  Creates only add documents, so a snapshot is a prefix of the committed ones.  \<open>unique\<close> are the
  fields that unique indexes cover.  An insert that meets an uncommitted document with the same
  key fails with a write conflict.
\<close>

record mongoserver =
  rs_store :: docstore
  rs_snap :: "(nat \<times> nat) list"
  rs_pending :: "(nat \<times> accountDoc) list"

definition rsDocs :: "mongoserver \<Rightarrow> accountDoc list" where
  "rsDocs s = storeDocs (rs_store s)"

definition snapshotOf :: "nat \<Rightarrow> mongoserver \<Rightarrow> accountDoc list" where
  "snapshotOf k s = (case map_of (rs_snap s) k of None \<Rightarrow> rsDocs s | Some n \<Rightarrow> take n (rsDocs s))
     @ (case map_of (rs_pending s) k of None \<Rightarrow> [] | Some d \<Rightarrow> [d])"

definition rsInsertOne :: "string list \<Rightarrow> nat \<Rightarrow> accountDoc \<Rightarrow> (mongoserver, go_error, unit) op" where
  "rsInsertOne unique k d = (\<lambda>s.
     if list_ex (sameKey unique d) (rsDocs s) then (Inl dupKey, s)
     else if map_of (rs_pending s) k \<noteq> None then (Inl notServed, s)
     else if list_ex (\<lambda>(k', d'). sameKey unique d d') (rs_pending s) then (Inl (DriverErr ''WriteConflict''), s)
     else (Inr (), s\<lparr>rs_pending := put k (storedDoc d) (rs_pending s)\<rparr>))"

definition rsFindOne :: "nat \<Rightarrow> bsonM \<Rightarrow> (mongoserver, go_error, accountDoc) op" where
  "rsFindOne k flt = (\<lambda>s.
     case filter (matchDoc flt) (snapshotOf k s) of [] \<Rightarrow> (Inl ErrNoDocuments, s) | d # _ \<Rightarrow> (Inr d, s))"

definition rsColl :: "string list \<Rightarrow> nat \<Rightarrow> mongoserver Collection" where
  "rsColl unique k = \<lparr>co_InsertOne = rsInsertOne unique k, co_FindOne = rsFindOne k, co_UpdateOne = (\<lambda>_ _. throw notServed),
     co_DeleteOne = (\<lambda>_. throw notServed), co_CountDocuments = (\<lambda>_. throw notServed),
     co_FindAll = (\<lambda>_ _ _ _. throw notServed), co_CreateMany = (\<lambda>_. throw notServed), IsDuplicateKeyError = (\<lambda>e. e = dupKey)\<rparr>"

text \<open>The commit checks the keys once more; it never has to, since inserts conflict.\<close>

definition rsTx :: "string list \<Rightarrow> nat \<Rightarrow> mongoserver TxOps" where
  "rsTx unique k = \<lparr>to_begin = (\<lambda>s. (Inr (), s\<lparr>rs_snap := put k (length (rsDocs s)) (rs_snap s), rs_pending := drop_key k (rs_pending s)\<rparr>)),
     to_commit = (\<lambda>s. let s' = s\<lparr>rs_snap := drop_key k (rs_snap s), rs_pending := drop_key k (rs_pending s)\<rparr> in
       case map_of (rs_pending s) k of
         None \<Rightarrow> (Inr (), s')
       | Some d \<Rightarrow> if list_ex (sameKey unique d) (rsDocs s) then (Inl (DriverErr ''WriteConflict''), s')
                   else (Inr (), s'\<lparr>rs_store := mkStore (rsDocs s @ [d])\<rparr>)),
     to_rollback = (\<lambda>s. s\<lparr>rs_snap := drop_key k (rs_snap s), rs_pending := drop_key k (rs_pending s)\<rparr>)\<rparr>"

section \<open>The server keeps the contract of concurrent inserts\<close>

abbreviation rsView :: "mongoserver \<Rightarrow> accounts" where
  "rsView s \<equiv> docsView (rsDocs s)"

definition rsPend :: "mongoserver \<Rightarrow> nat \<Rightarrow> account option" where
  "rsPend s k = map_option docToDomain (map_of (rs_pending s) k)"

lemma rsDocs_simps [simp]:
  "rsDocs (s\<lparr>rs_snap := n\<rparr>) = rsDocs s" "rsDocs (s\<lparr>rs_pending := p\<rparr>) = rsDocs s"
  "distinct (map d_ID (rsDocs s))"
  by (simp_all add: rsDocs_def)

lemma rsDocs_append:
  assumes "\<not> list_ex (sameKey unique d) (rsDocs s)"
  shows "rsDocs (t\<lparr>rs_store := mkStore (rsDocs s @ [d])\<rparr>) = rsDocs s @ [d]"
proof -
  have "d_ID d \<notin> d_ID ` set (rsDocs s)" using assms by (auto simp: list_ex_iff sameKey_def)
  then have "distinct (map d_ID (rsDocs s @ [d]))" by simp
  then show ?thesis unfolding rsDocs_def by simp
qed

lemma rsPend_simps:
  "rsPend (s\<lparr>rs_snap := n, rs_pending := drop_key k (rs_pending s)\<rparr>) = (rsPend s)(k := None)"
  "rsPend (s\<lparr>rs_pending := put k d (rs_pending s)\<rparr>) = (rsPend s)(k \<mapsto> docToDomain d)"
  "rsPend (s\<lparr>rs_store := u\<rparr>) = rsPend s"
  by (auto simp: rsPend_def fun_eq_iff)

lemma rsRepo_email:
  "repo_GetByEmail (mongoRepository (rsColl unique k)) m s =
     (case filter (matchDoc [(''email'', BText m)]) (snapshotOf k s) of
       [] \<Rightarrow> (Inl (App (Cause ErrAccountNotFound ErrNoDocuments)), s)
     | d # _ \<Rightarrow> (Inr (Some (docToDomain d)), s))"
  by (simp add: mongoRepository_def mongoGetByEmail_def findOne_def rsColl_def rsFindOne_def
      andThen_def mapErr_def ErrNoDocuments_def split: list.split)

lemma rsRepo_create:
  "repo_Create (mongoRepository (rsColl unique k)) a s = (case rsInsertOne unique k (toDoc a) s of
     (Inl e, d) \<Rightarrow> (Inl (App (Cause (if e = dupKey then ErrAccountAlreadyExists else ErrInternal) e)), d)
   | (Inr _, d) \<Rightarrow> (Inr (ID a), d))"
  by (cases "rsInsertOne unique k (toDoc a) s")
    (auto simp: mongoRepository_def mongoCreate_def rsColl_def andThen_def mapErr_def Let_def split: sum.split)

lemma rs_lookup:
  assumes "repo_GetByEmail (mongoRepository (rsColl unique k)) m s = (y, s')"
  shows "s' = s \<and> (case y of
      Inl e \<Rightarrow> \<not> errorsIs e (App ErrAccountAlreadyExists)
    | Inr p \<Rightarrow> rsPend s k = None \<longrightarrow> emailTaken (rsView s) m)"
proof (cases "filter (matchDoc [(''email'', BText m)]) (snapshotOf k s)")
  case Nil
  with assms show ?thesis by (auto simp: rsRepo_email errorsIs_App ErrNoDocuments_def)
next
  case (Cons d ds)
  then have "d \<in> set (filter (matchDoc [(''email'', BText m)]) (snapshotOf k s))" by (metis list.set_intros(1))
  then have d: "d \<in> set (snapshotOf k s)" "d_Email d = m" by simp_all
  have "d \<in> set (rsDocs s)" if "rsPend s k = None"
    using d(1) that by (auto simp: snapshotOf_def rsPend_def split: option.splits dest: in_set_takeD)
  with assms Cons d(2) show ?thesis
    by (auto simp: rsRepo_email mgt.emailTaken_ids)
qed

lemma rs_insert:
  assumes "repo_Create (mongoRepository (rsColl unique k)) a s = (y, s')" "''email'' \<in> set unique"
  shows "rsView s' = rsView s \<and> (case y of
      Inr i \<Rightarrow> i = ID a \<and> rsView s (ID a) = None \<and> \<not> emailTaken (rsView s) (Email a) \<and> rsPend s' = (rsPend s)(k \<mapsto> mongoEnc a)
        \<and> (\<forall>k' b. rsPend s k' = Some b \<longrightarrow> ID b \<noteq> ID a \<and> Email b \<noteq> Email a)
    | Inl e \<Rightarrow> rsPend s' = rsPend s \<and> (errorsIs e (App ErrAccountAlreadyExists) \<longrightarrow>
        rsView s (ID a) \<noteq> None \<or> emailTaken (rsView s) (Email a)))"
proof -
  let ?d = "toDoc a"
  have key: "list_ex (sameKey unique ?d) t \<longleftrightarrow> ID a \<in> d_ID ` set t \<or> Email a \<in> d_Email ` set t" for t
    using assms(2) unfolding list_ex_iff sameKey_def by (auto simp: image_iff)
  have view: "rsView s (ID a) = None \<longleftrightarrow> ID a \<notin> d_ID ` set (rsDocs s)"
    "emailTaken (rsView s) (Email a) \<longleftrightarrow> Email a \<in> d_Email ` set (rsDocs s)"
    by (rule mgt.view_None, rule mgt.emailTaken_ids, simp)
  show ?thesis
  proof (cases y)
    case (Inl e)
    with assms(1) have "s' = s" "e = App (Cause ErrAccountAlreadyExists dupKey) \<and> list_ex (sameKey unique ?d) (rsDocs s)
        \<or> e = App (Cause ErrInternal notServed) \<or> e = App (Cause ErrInternal (DriverErr ''WriteConflict''))"
      by (auto simp: rsRepo_create rsInsertOne_def dupKey_def notServed_def split: if_splits)
    with Inl show ?thesis by (auto simp: key view errorsIs_App notServed_def)
  next
    case (Inr i)
    with assms(1) have i: "i = ID a" and free: "\<not> list_ex (sameKey unique ?d) (rsDocs s)"
      and others: "\<not> list_ex (\<lambda>(k', d'). sameKey unique ?d d') (rs_pending s)"
      and s': "s' = s\<lparr>rs_pending := put k (storedDoc ?d) (rs_pending s)\<rparr>"
      by (auto simp: rsRepo_create rsInsertOne_def split: if_splits)
    have "ID b \<noteq> ID a \<and> Email b \<noteq> Email a" if "rsPend s k' = Some b" for k' b
    proof -
      from that obtain d where d: "map_of (rs_pending s) k' = Some d" "b = docToDomain d" by (auto simp: rsPend_def)
      from map_of_SomeD [OF d(1)] others have "\<not> sameKey unique ?d d" unfolding list_ex_iff by auto
      with assms(2) d(2) show ?thesis by (auto simp: sameKey_def)
    qed
    with Inr i free show ?thesis by (simp add: s' rsPend_simps docToDomain_stored key view)
  qed
qed

lemma rs_commit:
  assumes "to_commit (rsTx unique k) s = (y, s')"
  shows "rsPend s' = (rsPend s)(k := None) \<and> (case y of
      Inr u \<Rightarrow> rsView s' = (case rsPend s k of None \<Rightarrow> rsView s | Some a \<Rightarrow> (rsView s)(ID a \<mapsto> a))
    | Inl e \<Rightarrow> rsView s' = rsView s \<and> noApp e)"
proof (cases "map_of (rs_pending s) k")
  case None
  with assms have "y = Inr ()" "s' = s\<lparr>rs_snap := drop_key k (rs_snap s), rs_pending := drop_key k (rs_pending s)\<rparr>" "rsPend s k = None"
    by (auto simp: rsTx_def rsPend_def)
  then show ?thesis by (simp add: rsPend_simps)
next
  case (Some d)
  show ?thesis
  proof (cases "list_ex (sameKey unique d) (rsDocs s)")
    case True
    with Some assms have "y = Inl (DriverErr ''WriteConflict'')"
      "s' = s\<lparr>rs_snap := drop_key k (rs_snap s), rs_pending := drop_key k (rs_pending s)\<rparr>"
      by (auto simp: rsTx_def)
    then show ?thesis by (simp add: rsPend_simps)
  next
    case False
    with Some assms have y: "y = Inr ()" and s': "s' = s\<lparr>rs_snap := drop_key k (rs_snap s), rs_pending := drop_key k (rs_pending s),
        rs_store := mkStore (rsDocs s @ [d])\<rparr>" by (auto simp: rsTx_def)
    have "d_ID d \<notin> d_ID ` set (rsDocs s)" using False by (auto simp: list_ex_iff sameKey_def)
    then have "rsView s' = (rsView s)(d_ID d \<mapsto> docToDomain d)"
      unfolding s' rsDocs_append [OF False] by (rule mgt.view_append)
    moreover have "rsPend s k = Some (docToDomain d)" using Some by (simp add: rsPend_def)
    moreover have "rsPend s' = (rsPend s)(k := None)"
      by (auto simp: s' rsPend_def fun_eq_iff)
    ultimately show ?thesis by (simp add: y)
  qed
qed

lemma rs_insert_server:
  assumes "''email'' \<in> set unique"
  shows "insert_server (\<lambda>k. mongoRepository (rsColl unique k)) (rsTx unique) (\<lambda>_ _ _. False) rsView rsPend mongoEnc"
proof (rule insert_server.intro)
  show "ID (mongoEnc a) = ID a" "Email (mongoEnc a) = Email a" for a by (simp_all add: mongoEnc_def)
  show "rsView s' = rsView s \<and> rsPend s' = (rsPend s)(k := None) \<and> (\<forall>e. x = Inl e \<longrightarrow> noApp e)"
    if "to_begin (rsTx unique k) s = (x, s')" for k s x s'
    using that by (auto simp: rsTx_def rsPend_simps)
  show "rsPend (to_rollback (rsTx unique k) s) = (rsPend s)(k := None)" "rsView (to_rollback (rsTx unique k) s) = rsView s" for k s
    by (simp_all add: rsTx_def rsPend_simps)
  show "ID b \<noteq> ID a \<and> Email b \<noteq> Email a"
    if "repo_Create (mongoRepository (rsColl unique k)) a s = (Inr i, s')" "rsPend s k' = Some b" for k k' a b s i s'
    using rs_insert [OF that(1) assms] that(2) by simp
qed (use rs_lookup rs_insert [OF _ assms] rs_commit in fastforce)+

interpretation indexed: insert_server "\<lambda>k. mongoRepository (rsColl (uniqueFields accountIndexes) k)"
    "rsTx (uniqueFields accountIndexes)" "\<lambda>_ _ _. False" rsView rsPend mongoEnc
  by (rule rs_insert_server) simp

section \<open>Requests\<close>

abbreviation rsRepo :: "string list \<Rightarrow> nat \<Rightarrow> mongoserver world AccountRepository" where
  "rsRepo unique k \<equiv> repoOn w_db put_db (mongoRepository (rsColl unique k))"

abbreviation rsWorldTx :: "string list \<Rightarrow> nat \<Rightarrow> mongoserver world TxOps" where
  "rsWorldTx unique k \<equiv> txOn w_db put_db (rsTx unique k)"

text \<open>Create number \<open>k\<close> of a process that serves from the collection.\<close>

definition mongoCreating ::
    "(string \<Rightarrow> string) \<Rightarrow> mongoserver world AccountDeps \<Rightarrow> string list \<Rightarrow> nat \<Rightarrow> time \<Rightarrow> string \<Rightarrow> CreateAccountRequest
       \<Rightarrow> (mongoserver world, go_error + account ptr) proc" where
  "mongoCreating uni uc unique k now uid req =
     procCreate uni uc (statements (rsRepo unique k)) (rsWorldTx unique k) now uid req"

section \<open>Running two Creates\<close>

lemma statements_simps:
  "pr_Create (statements r) a = atom (repo_Create r a)" "pr_GetByEmail (statements r) m = atom (repo_GetByEmail r m)"
  by (simp_all add: statements_def)

lemma rsWorldRepo:
  "repo_GetByEmail (rsRepo unique k) m s =
     (case filter (matchDoc [(''email'', BText m)]) (snapshotOf k (w_db s)) of
       [] \<Rightarrow> (Inl (App (Cause ErrAccountNotFound ErrNoDocuments)), s)
     | d # _ \<Rightarrow> (Inr (Some (docToDomain d)), s))"
  "repo_Create (rsRepo unique k) a s = (case rsInsertOne unique k (toDoc a) (w_db s) of
     (Inl e, d) \<Rightarrow> (Inl (App (Cause (if e = dupKey then ErrAccountAlreadyExists else ErrInternal) e)), put_db d s)
   | (Inr _, d) \<Rightarrow> (Inr (ID a), put_db d s))"
  by (simp_all add: onPart_def rsRepo_email rsRepo_create put_db_def split: list.split prod.split sum.split)

lemma rsWorldTx:
  "to_begin (rsWorldTx unique k) s = (Inr (), put_db ((w_db s)\<lparr>rs_snap := put k (length (rsDocs (w_db s))) (rs_snap (w_db s)),
     rs_pending := drop_key k (rs_pending (w_db s))\<rparr>) s)"
  "to_commit (rsWorldTx unique k) s = onPart w_db put_db (to_commit (rsTx unique k)) s"
  "to_rollback (rsWorldTx unique k) s = put_db (to_rollback (rsTx unique k) (w_db s)) s"
  by (simp_all add: txOn_def onPart_def rsTx_def)

lemma rsCommit:
  "to_commit (rsTx unique k) s = (let s' = s\<lparr>rs_snap := drop_key k (rs_snap s), rs_pending := drop_key k (rs_pending s)\<rparr> in
       case map_of (rs_pending s) k of
         None \<Rightarrow> (Inr (), s')
       | Some d \<Rightarrow> if list_ex (sameKey unique d) (rsDocs s) then (Inl (DriverErr ''WriteConflict''), s')
                   else (Inr (), s'\<lparr>rs_store := mkStore (rsDocs s @ [d])\<rparr>))"
  by (simp add: rsTx_def)

lemmas run_mongo = schedule_eval procCreate_def procWithTx_def procCreateBody_def procEnsureEmailFree_def
  limiter_eval spent_def Let_def mapErr_def liftR_def newAccount_simps procFinish_def rollingBack_def logInfo_def info_def
  onPart_def put_db_def statements_simps rsWorldRepo rsWorldTx rsCommit rsInsertOne_def snapshotOf_def

lemma doc_free:
  "''email'' \<notin> set unique \<Longrightarrow> d_ID d \<notin> d_ID ` set t \<Longrightarrow> \<not> list_ex (sameKey unique d) t" "m \<notin> d_Email ` set t \<Longrightarrow> filter (matchDoc [(''email'', BText m)]) t = []"
  by (auto simp: list_ex_iff filter_empty_conv sameKey_def)

lemma doc_same: "''email'' \<notin> set unique \<Longrightarrow> sameKey unique d d' \<longleftrightarrow> d_ID d = d_ID d'"
  by (simp add: sameKey_def)

lemma rsDocs_mkStore: "distinct (map d_ID t) \<Longrightarrow> rsDocs \<lparr>rs_store = mkStore t, rs_snap = n, rs_pending = p\<rparr> = t"
  "distinct (map d_ID t) \<Longrightarrow> rsDocs (s\<lparr>rs_store := mkStore t\<rparr>) = t"
  by (simp_all add: rsDocs_def)

text \<open>
  The first Create runs to its lookup, limiter, hash, begin and lookup; then the second runs
  to its end; then the first inserts, commits and logs.
\<close>

definition overtaking :: "nat list" where
  "overtaking = [0, 0, 0, 0, 1, 1, 1, 1, 1, 1, 1, 0, 0, 0]"

lemma overtaking_run:
  fixes s :: "mongoserver world"
  assumes "''email'' \<notin> set unique" "uidA \<noteq> uidB" "cr_Email reqA = m" "cr_Email reqB = m"
    and "validateEmail m = Inr ()" "spent s (RateLimitActionCreateAccount @ '':'' @ ToLower uni m) < 4"
    and "ensureStrongPassword (passwordService demoHash) pA = Inr ()" "ensureStrongPassword (passwordService demoHash) pB = Inr ()"
    and "Hash demoHash pA = Inr hA" "Hash demoHash pB = Inr hB" 
    and "cr_Password reqA = pA" "cr_Password reqB = pB"
    and "{uidA, uidB} \<inter> d_ID ` set (rsDocs (w_db s)) = {}" "m \<notin> d_Email ` set (rsDocs (w_db s))" "rs_pending (w_db s) = []"
  shows "\<exists>s'. runSchedule overtaking ([mongoCreating uni (worldUC r) unique 0 nowA uidA reqA, mongoCreating uni (worldUC r) unique 1 nowB uidB reqB], s)
     = ([Done (Inr (Some (newAccount uidA nowA hA reqA))), Done (Inr (Some (newAccount uidB nowB hB reqB)))], s')
     \<and> rsDocs (w_db s') = rsDocs (w_db s) @ [storedDoc (toDoc (newAccount uidB nowB hB reqB)), storedDoc (toDoc (newAccount uidA nowA hA reqA))]"
  using assms
  by (simp del: repoOn_simps pBind_atom moveAt.simps cong: schedule_cong
      add: run_mongo mongoCreating_def overtaking_def doc_free doc_same rsDocs_mkStore list_ex_append)

lemma password_ok:
  assumes "8 \<le> length p" "length p \<le> 72"
  shows "ensureStrongPassword (passwordService demoHash) p = Inr ()" "Hash demoHash p = Inr (''$2a$'' @ p)"
  using assms by (simp_all add: ensureStrongPassword_ok IsValidPassword_def MinPasswordLength_def Hash_def demoHash_def)

definition rsWorld :: "mongoserver world" where
  "rsWorld = \<lparr>w_db = \<lparr>rs_store = mkStore [], rs_snap = [], rs_pending = []\<rparr>, w_cache = emptyCache,
     w_buckets = [], w_commits = [], w_log = []\<rparr>"

lemma rsWorld_docs: "rsDocs (w_db rsWorld) = []" "rs_pending (w_db rsWorld) = []" "w_buckets rsWorld = []"
  by (simp_all add: rsWorld_def rsDocs_def)

text \<open>The same interleaving on a collection with the index: the overtaken insert is refused.\<close>

lemma sample_overtaken:
  "fst (runSchedule overtaking (map (\<lambda>k. mongoCreating asciiOnly (worldUC (rsRepo ixs 0)) (uniqueFields accountIndexes) k 7 (raceUid k) sampleReq) [0..<2], rsWorld))
     = [Done (Inl (App (Cause ErrAccountAlreadyExists dupKey))), Done (Inr (Some (newAccount ''u1'' 7 ''$2a$longenough'' sampleReq)))]"
  by (simp del: repoOn_simps pBind_atom moveAt.simps cong: schedule_cong
      add: run_mongo mongoCreating_def overtaking_def sameKey_def rsDocs_mkStore rsWorld_docs upt_rec raceUid_def
        guards_eval)

section \<open>Properties\<close>

text \<open>
  C11: on the server above, without the index that EnsureIndexes builds, two overlapping Creates with the same email
  both return success and MongoDB keeps both accounts.  Let no unique index cover the email, let two
  admissible requests (an at sign, 8 to 72 bytes of password, tokens left) have the same email and
  different ids, and let email and ids be free.  Then there is an interleaving in which both Creates
  return their account with a nil error and both documents are stored.
\<close>

theorem mongo_duplicate_emails:
  fixes s :: "mongoserver world"
  assumes "''email'' \<notin> set unique" "uidA \<noteq> uidB" "cr_Email reqB = cr_Email reqA" "CHR ''@'' \<in> set (cr_Email reqA)"
    and "\<forall>req \<in> {reqA, reqB}. 8 \<le> length (cr_Password req) \<and> length (cr_Password req) \<le> 72"
    and "spent s (RateLimitActionCreateAccount @ '':'' @ ToLower uni (cr_Email reqA)) < 4"
    and "{uidA, uidB} \<inter> d_ID ` set (rsDocs (w_db s)) = {}" "cr_Email reqA \<notin> d_Email ` set (rsDocs (w_db s))" "rs_pending (w_db s) = []"
  shows "\<exists>ns a b s'. runSchedule ns ([mongoCreating uni (worldUC r) unique 0 nowA uidA reqA, mongoCreating uni (worldUC r) unique 1 nowB uidB reqB], s)
       = ([Done (Inr (Some a)), Done (Inr (Some b))], s')
     \<and> ID a = uidA \<and> ID b = uidB \<and> Email a = cr_Email reqA \<and> Email b = cr_Email reqA
     \<and> rsDocs (w_db s') = rsDocs (w_db s) @ [storedDoc (toDoc b), storedDoc (toDoc a)]"
proof -
  from assms(5) have len: "8 \<le> length (cr_Password reqA)" "length (cr_Password reqA) \<le> 72"
    "8 \<le> length (cr_Password reqB)" "length (cr_Password reqB) \<le> 72" by simp_all
  have "validateEmail (cr_Email reqA) = Inr ()" using assms(4) by (simp add: validateEmail_ok)
  from overtaking_run [OF assms(1,2) refl assms(3) this assms(6) password_ok(1) [OF len(1,2)] password_ok(1) [OF len(3,4)]
      password_ok(2) [OF len(1,2)] password_ok(2) [OF len(3,4)] refl refl assms(7-9), of r nowA nowB]
  show ?thesis by (metis newAccount_fields(1,2) assms(3))
qed

theorem mongo_duplicate_emails_witness:
  "\<exists>ns a b s'. runSchedule ns ([mongoCreating asciiOnly (worldUC (rsRepo [] 0)) [] 0 7 ''u0'' sampleReq,
      mongoCreating asciiOnly (worldUC (rsRepo [] 0)) [] 1 7 ''u1'' sampleReq], rsWorld) = ([Done (Inr (Some a)), Done (Inr (Some b))], s')
     \<and> ID a = ''u0'' \<and> ID b = ''u1'' \<and> Email a = ''bob@x.io'' \<and> Email b = ''bob@x.io''
     \<and> rsDocs (w_db s') = [storedDoc (toDoc b), storedDoc (toDoc a)]"
  using mongo_duplicate_emails [of "[]" "''u0''" "''u1''" sampleReq sampleReq rsWorld asciiOnly "rsRepo [] 0" 7 7]
  by (simp add: rsWorld_docs spent_def sampleReq_def)

text \<open>
  C12: with the index no interleaving stores an email twice.  Let the unique indexes of the server be
  those of \<open>accountIndexes\<close>, on a collection without duplicate emails.  Any number of Creates run interleaved on it, with limiter, log
  and cache in between.  At every moment the emails of the documents are distinct, and each Create
  that is done without an error has its document stored.
\<close>

theorem mongo_index_stops_duplicates:
  fixes s :: "mongoserver world"
  assumes "\<And>q t y t'. dp_limiter uc q t = (y, t') \<Longrightarrow> w_db t' = w_db t \<and> (\<forall>e. y = Inl e \<longrightarrow> noApp e)"
    and "\<And>msg i t. w_db (dp_log uc msg i t) = w_db t"
    and "dp_passwords uc = passwordService bcrypt" "\<And>p e. bcrypt p = Inl e \<Longrightarrow> noApp e"
    and "ps = map (\<lambda>k. mongoCreating uni uc (uniqueFields accountIndexes) k (now k) (uid k) (req k)) [0..<N]"
    and "distinct (map d_Email (rsDocs (w_db s)))" "rs_pending (w_db s) = []"
    and "(poolStep (\<lambda>t t'. w_db t' = w_db t))\<^sup>*\<^sup>* (ps, s) (qs, s')"
  shows "distinct (map d_Email (rsDocs (w_db s')))
    \<and> (\<forall>k < N. \<forall>p. qs ! k = Done (Inr p) \<longrightarrow>
         (\<exists>d \<in> set (rsDocs (w_db s')). d_ID d = uid k \<and> d_Email d = cr_Email (req k)))"
proof -
  let ?ix = "uniqueFields accountIndexes"
  let ?v = "rsView \<circ> w_db" and ?p = "rsPend \<circ> w_db"
  note srv = insert_server.on_part [OF indexed.insert_server_axioms dbPart.store_part_axioms]
  have ps: "ps = map (\<lambda>k. procCreate uni uc (lockingProcs (\<lambda>_ _. False) (rsRepo ?ix k)) (rsWorldTx ?ix k) (now k) (uid k) (req k)) [0..<N]"
    unfolding assms(5) mongoCreating_def never_busy ..
  have "wf_docs (rsDocs (w_db s))" using assms(6) by (simp add: rowsWf_def)
  then have start: "wf_accounts (?v s)" "?p s k = None" for k
    using assms(7) by (simp_all add: rsPend_def mgt.view_wf)
  have run: "(poolStep (\<lambda>t t'. ?v t' = ?v t \<and> ?p t' = ?p t))\<^sup>*\<^sup>* (ps, s) (qs, s')"
    by (rule poolStep_weaken [OF assms(8)]) simp
  have lim: "?v t' = ?v t \<and> ?p t' = ?p t \<and> (\<forall>e. y = Inl e \<longrightarrow> noApp e)" if "dp_limiter uc q t = (y, t')" for q t y t'
    using assms(1) [OF that] by simp
  have log: "?v (dp_log uc msg i t) = ?v t" "?p (dp_log uc msg i t) = ?p t" for msg i t by (simp_all add: assms(2))
  have "wf_accounts (?v s') \<and> (\<forall>k < N. \<forall>x. qs ! k = Done x \<longrightarrow> insert_server.created ?v mongoEnc (uid k) (cr_Email (req k)) x s')"
    by (rule creates_hold [OF srv lim log assms(3,4) ps start run]) assumption+
  then have wf: "wf_accounts (rsView (w_db s'))"
    and each: "\<And>k x. k < N \<Longrightarrow> qs ! k = Done x \<Longrightarrow> insert_server.created ?v mongoEnc (uid k) (cr_Email (req k)) x s'"
    unfolding comp_apply by blast+
  have stored: "\<exists>a. rsView (w_db s') (uid k) = Some (mongoEnc a) \<and> Email a = cr_Email (req k)"
    if "k < N" "qs ! k = Done (Inr p)" for k p
    using each [OF that] by (auto simp: insert_server.created_def [OF srv])
  have "\<exists>d \<in> set (rsDocs (w_db s')). d_ID d = uid k \<and> d_Email d = cr_Email (req k)"
    if "k < N" "qs ! k = Done (Inr p)" for k p
    using stored [OF that] by (auto simp: mgt.view_Some_ids mongoEnc_def dest!: arg_cong [where f = Email])
  with mgt.wf_view_ids [OF rsDocs_simps(3) wf] show ?thesis by blast
qed

theorem mongo_index_stops_duplicates_witness:
  "distinct (map d_Email (rsDocs (w_db (snd (runSchedule overtaking
      (map (\<lambda>k. mongoCreating asciiOnly (worldUC (rsRepo [] 0)) (uniqueFields accountIndexes) k 7 (raceUid k) sampleReq) [0..<2], rsWorld))))))
   \<and> (\<exists>d \<in> set (rsDocs (w_db (snd (runSchedule overtaking
      (map (\<lambda>k. mongoCreating asciiOnly (worldUC (rsRepo [] 0)) (uniqueFields accountIndexes) k 7 (raceUid k) sampleReq) [0..<2], rsWorld))))).
        d_ID d = ''u1'' \<and> d_Email d = ''bob@x.io'')"
proof -
  let ?ps = "map (\<lambda>k. mongoCreating asciiOnly (worldUC (rsRepo [] 0)) (uniqueFields accountIndexes) k 7 (raceUid k) sampleReq) [0..<2]"
  let ?c = "runSchedule overtaking (?ps, rsWorld)"
  let ?docs = "rsDocs (w_db (snd ?c))"
  have run: "(poolStep (\<lambda>t t'. w_db t' = w_db t))\<^sup>*\<^sup>* (?ps, rsWorld) (fst ?c, snd ?c)"
    unfolding prod.collapse by (rule runSchedule_steps)
  have bcrypt: "noApp e" if "demoHash p = Inl e" for p e using that by (auto simp: demoHash_def split: if_splits)
  have "w_db (dp_log (worldUC (rsRepo [] 0)) msg i t) = w_db t" for msg i t by (simp add: info_def)
  from mongo_index_stops_duplicates [OF worldLimiter_quiet this worldUC_simps(4) bcrypt refl _ rsWorld_docs(2) run]
  have all: "distinct (map d_Email ?docs) \<and> (\<forall>k<2. \<forall>p. fst ?c ! k = Done (Inr p) \<longrightarrow>
      (\<exists>d \<in> set ?docs. d_ID d = raceUid k \<and> d_Email d = cr_Email sampleReq))"
    by (simp add: rsWorld_docs)
  have "fst ?c ! 1 = Done (Inr (Some (newAccount ''u1'' 7 ''$2a$longenough'' sampleReq)))" unfolding sample_overtaken by simp
  from conjunct2 [OF all, rule_format, OF _ this]
  have "\<exists>d \<in> set ?docs. d_ID d = raceUid 1 \<and> d_Email d = cr_Email sampleReq" by simp
  moreover have "raceUid 1 = ''u1''" "cr_Email sampleReq = ''bob@x.io''" by (simp_all add: raceUid_def sampleReq_def)
  ultimately show ?thesis using conjunct1 [OF all] by (simp only:)
qed

end
