(* ===== verification/PbMessages.thy ===== *)
theory PbMessages
  imports GrpcHandler
begin

text \<open>
  The messages generated from \<open>account.proto\<close> (\<open>internal/gen/account/v1/account.pb.go\<close>) as Go
  code reads them: the tables of the status enum and the getters, which take a pointer and read
  a nil message, or a field that is not set, as its zero value.  The records are those of
  GrpcHandler; a message of one field is that field, and a timestamp is a pointer.
\<close>

section \<open>The status enum\<close>

definition AccountStatus_name :: "(goint32 \<times> string) list" where
  "AccountStatus_name =
     [(0, ''ACCOUNT_STATUS_UNSPECIFIED''), (1, ''ACCOUNT_STATUS_ACTIVE''), (2, ''ACCOUNT_STATUS_INACTIVE''),
      (3, ''ACCOUNT_STATUS_BLOCKED''), (4, ''ACCOUNT_STATUS_DELETED'')]"

definition AccountStatus_value :: "(string \<times> goint32) list" where
  "AccountStatus_value =
     [(''ACCOUNT_STATUS_UNSPECIFIED'', 0), (''ACCOUNT_STATUS_ACTIVE'', 1), (''ACCOUNT_STATUS_INACTIVE'', 2),
      (''ACCOUNT_STATUS_BLOCKED'', 3), (''ACCOUNT_STATUS_DELETED'', 4)]"

definition ACCOUNT_STATUS_UNSPECIFIED :: pbStatus where "ACCOUNT_STATUS_UNSPECIFIED = 0"

definition AccountStatus_Enum :: "pbStatus \<Rightarrow> pbStatus ptr" where "AccountStatus_Enum x = Some x"

definition AccountStatus_Number :: "pbStatus \<Rightarrow> goint32" where "AccountStatus_Number x = x"

section \<open>Reset\<close>

text \<open>\<open>*x = T{}\<close>; what it stores for the protobuf runtime is no field.\<close>

definition Account_Reset :: "'ts ptr pbAccount \<Rightarrow> 'ts ptr pbAccount" where
  "Account_Reset x = \<lparr>pa_Id = [], pa_Email = [], pa_FirstName = [], pa_LastName = [], pa_Status = 0, pa_CreatedAt = None, pa_UpdatedAt = None\<rparr>"

definition GetAccountRequest_Reset :: "string \<Rightarrow> string" where
  "GetAccountRequest_Reset x = []"

definition GetAccountResponse_Reset :: "'ts pbAccount ptr \<Rightarrow> 'ts pbAccount ptr" where
  "GetAccountResponse_Reset x = None"

definition CreateAccountRequest_Reset :: "pbCreateRequest \<Rightarrow> pbCreateRequest" where
  "CreateAccountRequest_Reset x = \<lparr>pc_Email = [], pc_Password = [], pc_FirstName = [], pc_LastName = []\<rparr>"

definition CreateAccountResponse_Reset :: "string \<Rightarrow> string" where
  "CreateAccountResponse_Reset x = []"

definition UpdateAccountRequest_Reset :: "pbUpdateRequest \<Rightarrow> pbUpdateRequest" where
  "UpdateAccountRequest_Reset x = \<lparr>pu_Id = [], pu_FirstName = None, pu_LastName = None, pu_Status = None\<rparr>"

definition UpdateAccountResponse_Reset :: "'ts pbAccount ptr \<Rightarrow> 'ts pbAccount ptr" where
  "UpdateAccountResponse_Reset x = None"

definition DeleteAccountRequest_Reset :: "string \<Rightarrow> string" where
  "DeleteAccountRequest_Reset x = []"

definition DeleteAccountResponse_Reset :: "unit \<Rightarrow> unit" where
  "DeleteAccountResponse_Reset x = ()"

definition ListAccountsRequest_Reset :: "pbListRequest \<Rightarrow> pbListRequest" where
  "ListAccountsRequest_Reset x = \<lparr>pl_Status = None, pl_Limit = 0, pl_Offset = 0\<rparr>"

definition ListAccountsResponse_Reset :: "'ts pbListResponse \<Rightarrow> 'ts pbListResponse" where
  "ListAccountsResponse_Reset x = \<lparr>pr_Accounts = [], pr_Total = 0\<rparr>"

lemmas Reset_defs = Account_Reset_def GetAccountRequest_Reset_def GetAccountResponse_Reset_def CreateAccountRequest_Reset_def CreateAccountResponse_Reset_def UpdateAccountRequest_Reset_def
  UpdateAccountResponse_Reset_def DeleteAccountRequest_Reset_def DeleteAccountResponse_Reset_def ListAccountsRequest_Reset_def ListAccountsResponse_Reset_def

section \<open>Getters\<close>

definition Account_GetId :: "'ts pbAccount ptr \<Rightarrow> string" where
  "Account_GetId x = (case x of Some m \<Rightarrow> pa_Id m | None \<Rightarrow> '''')"

definition Account_GetEmail :: "'ts pbAccount ptr \<Rightarrow> string" where
  "Account_GetEmail x = (case x of Some m \<Rightarrow> pa_Email m | None \<Rightarrow> '''')"

definition Account_GetFirstName :: "'ts pbAccount ptr \<Rightarrow> string" where
  "Account_GetFirstName x = (case x of Some m \<Rightarrow> pa_FirstName m | None \<Rightarrow> '''')"

definition Account_GetLastName :: "'ts pbAccount ptr \<Rightarrow> string" where
  "Account_GetLastName x = (case x of Some m \<Rightarrow> pa_LastName m | None \<Rightarrow> '''')"

definition Account_GetStatus :: "'ts pbAccount ptr \<Rightarrow> pbStatus" where
  "Account_GetStatus x = (case x of Some m \<Rightarrow> pa_Status m | None \<Rightarrow> ACCOUNT_STATUS_UNSPECIFIED)"

definition Account_GetCreatedAt :: "'ts ptr pbAccount ptr \<Rightarrow> 'ts ptr" where
  "Account_GetCreatedAt x = (case x of Some m \<Rightarrow> pa_CreatedAt m | None \<Rightarrow> None)"

definition Account_GetUpdatedAt :: "'ts ptr pbAccount ptr \<Rightarrow> 'ts ptr" where
  "Account_GetUpdatedAt x = (case x of Some m \<Rightarrow> pa_UpdatedAt m | None \<Rightarrow> None)"

definition GetAccountRequest_GetId :: "string ptr \<Rightarrow> string" where
  "GetAccountRequest_GetId x = (case x of Some m \<Rightarrow> m | None \<Rightarrow> '''')"

definition GetAccountResponse_GetAccount :: "'ts pbAccount ptr ptr \<Rightarrow> 'ts pbAccount ptr" where
  "GetAccountResponse_GetAccount x = (case x of Some m \<Rightarrow> m | None \<Rightarrow> None)"

definition CreateAccountRequest_GetEmail :: "pbCreateRequest ptr \<Rightarrow> string" where
  "CreateAccountRequest_GetEmail x = (case x of Some m \<Rightarrow> pc_Email m | None \<Rightarrow> '''')"

definition CreateAccountRequest_GetPassword :: "pbCreateRequest ptr \<Rightarrow> string" where
  "CreateAccountRequest_GetPassword x = (case x of Some m \<Rightarrow> pc_Password m | None \<Rightarrow> '''')"

definition CreateAccountRequest_GetFirstName :: "pbCreateRequest ptr \<Rightarrow> string" where
  "CreateAccountRequest_GetFirstName x = (case x of Some m \<Rightarrow> pc_FirstName m | None \<Rightarrow> '''')"

definition CreateAccountRequest_GetLastName :: "pbCreateRequest ptr \<Rightarrow> string" where
  "CreateAccountRequest_GetLastName x = (case x of Some m \<Rightarrow> pc_LastName m | None \<Rightarrow> '''')"

definition CreateAccountResponse_GetId :: "string ptr \<Rightarrow> string" where
  "CreateAccountResponse_GetId x = (case x of Some m \<Rightarrow> m | None \<Rightarrow> '''')"

definition UpdateAccountRequest_GetId :: "pbUpdateRequest ptr \<Rightarrow> string" where
  "UpdateAccountRequest_GetId x = (case x of Some m \<Rightarrow> pu_Id m | None \<Rightarrow> '''')"

definition UpdateAccountRequest_GetFirstName :: "pbUpdateRequest ptr \<Rightarrow> string" where
  "UpdateAccountRequest_GetFirstName x = (case x of Some m \<Rightarrow> (case pu_FirstName m of Some v \<Rightarrow> v | None \<Rightarrow> '''') | None \<Rightarrow> '''')"

definition UpdateAccountRequest_GetLastName :: "pbUpdateRequest ptr \<Rightarrow> string" where
  "UpdateAccountRequest_GetLastName x = (case x of Some m \<Rightarrow> (case pu_LastName m of Some v \<Rightarrow> v | None \<Rightarrow> '''') | None \<Rightarrow> '''')"

definition UpdateAccountRequest_GetStatus :: "pbUpdateRequest ptr \<Rightarrow> pbStatus" where
  "UpdateAccountRequest_GetStatus x = (case x of Some m \<Rightarrow> (case pu_Status m of Some v \<Rightarrow> v | None \<Rightarrow> ACCOUNT_STATUS_UNSPECIFIED) | None \<Rightarrow> ACCOUNT_STATUS_UNSPECIFIED)"

definition UpdateAccountResponse_GetAccount :: "'ts pbAccount ptr ptr \<Rightarrow> 'ts pbAccount ptr" where
  "UpdateAccountResponse_GetAccount x = (case x of Some m \<Rightarrow> m | None \<Rightarrow> None)"

definition DeleteAccountRequest_GetId :: "string ptr \<Rightarrow> string" where
  "DeleteAccountRequest_GetId x = (case x of Some m \<Rightarrow> m | None \<Rightarrow> '''')"

definition ListAccountsRequest_GetStatus :: "pbListRequest ptr \<Rightarrow> pbStatus" where
  "ListAccountsRequest_GetStatus x = (case x of Some m \<Rightarrow> (case pl_Status m of Some v \<Rightarrow> v | None \<Rightarrow> ACCOUNT_STATUS_UNSPECIFIED) | None \<Rightarrow> ACCOUNT_STATUS_UNSPECIFIED)"

definition ListAccountsRequest_GetLimit :: "pbListRequest ptr \<Rightarrow> goint32" where
  "ListAccountsRequest_GetLimit x = (case x of Some m \<Rightarrow> pl_Limit m | None \<Rightarrow> 0)"

definition ListAccountsRequest_GetOffset :: "pbListRequest ptr \<Rightarrow> goint32" where
  "ListAccountsRequest_GetOffset x = (case x of Some m \<Rightarrow> pl_Offset m | None \<Rightarrow> 0)"

definition ListAccountsResponse_GetAccounts :: "'ts pbListResponse ptr \<Rightarrow> 'ts pbAccount ptr list" where
  "ListAccountsResponse_GetAccounts x = (case x of Some m \<Rightarrow> pr_Accounts m | None \<Rightarrow> [])"

definition ListAccountsResponse_GetTotal :: "'ts pbListResponse ptr \<Rightarrow> goint32" where
  "ListAccountsResponse_GetTotal x = (case x of Some m \<Rightarrow> pr_Total m | None \<Rightarrow> 0)"

lemmas getter_defs = Account_GetId_def Account_GetEmail_def Account_GetFirstName_def Account_GetLastName_def Account_GetStatus_def
  Account_GetCreatedAt_def Account_GetUpdatedAt_def GetAccountRequest_GetId_def GetAccountResponse_GetAccount_def
  CreateAccountRequest_GetEmail_def CreateAccountRequest_GetPassword_def CreateAccountRequest_GetFirstName_def
  CreateAccountRequest_GetLastName_def CreateAccountResponse_GetId_def UpdateAccountRequest_GetId_def
  UpdateAccountRequest_GetFirstName_def UpdateAccountRequest_GetLastName_def UpdateAccountRequest_GetStatus_def
  UpdateAccountResponse_GetAccount_def DeleteAccountRequest_GetId_def ListAccountsRequest_GetStatus_def
  ListAccountsRequest_GetLimit_def ListAccountsRequest_GetOffset_def ListAccountsResponse_GetAccounts_def
  ListAccountsResponse_GetTotal_def

section \<open>Lemmas\<close>

text \<open>The tables of the enum are inverse to each other.\<close>

lemma enum_tables: "map_of AccountStatus_name n = Some s \<longleftrightarrow> map_of AccountStatus_value s = Some n"
  by (auto simp: AccountStatus_name_def AccountStatus_value_def)

text \<open>ASCII upper case, as the names of the enum are formed from those of the domain.\<close>

definition upper :: "string \<Rightarrow> string" where
  "upper = map (\<lambda>c. if 97 \<le> (of_char c :: nat) \<and> (of_char c :: nat) \<le> 122 then char_of ((of_char c :: nat) - 32) else c)"

lemma enum_names:
  assumes "Valid st"
  shows "map_of AccountStatus_name (toProtoStatus st) = Some (''ACCOUNT_STATUS_'' @ upper (StatusString st))"
proof -
  from assms consider "st = 1" | "st = 2" | "st = 3" | "st = 4" by (auto simp: Valid_iff)
  then show ?thesis
    by cases (simp_all add: AccountStatus_name_def toProtoStatus_def upper_def StatusString_def status_defs scast_numerals char_of_def bit_0)
qed

text \<open>A nil message reads as one that has been reset.\<close>

lemma nil_reads_as_reset:
  "Account_GetId None = Account_GetId (Some (Account_Reset xAccount))"
  "Account_GetEmail None = Account_GetEmail (Some (Account_Reset xAccount))"
  "Account_GetFirstName None = Account_GetFirstName (Some (Account_Reset xAccount))"
  "Account_GetLastName None = Account_GetLastName (Some (Account_Reset xAccount))"
  "Account_GetStatus None = Account_GetStatus (Some (Account_Reset xAccount))"
  "Account_GetCreatedAt None = Account_GetCreatedAt (Some (Account_Reset xAccount))"
  "Account_GetUpdatedAt None = Account_GetUpdatedAt (Some (Account_Reset xAccount))"
  "GetAccountRequest_GetId None = GetAccountRequest_GetId (Some (GetAccountRequest_Reset xGetAccountRequest))"
  "GetAccountResponse_GetAccount None = GetAccountResponse_GetAccount (Some (GetAccountResponse_Reset xGetAccountResponse))"
  "CreateAccountRequest_GetEmail None = CreateAccountRequest_GetEmail (Some (CreateAccountRequest_Reset xCreateAccountRequest))"
  "CreateAccountRequest_GetPassword None = CreateAccountRequest_GetPassword (Some (CreateAccountRequest_Reset xCreateAccountRequest))"
  "CreateAccountRequest_GetFirstName None = CreateAccountRequest_GetFirstName (Some (CreateAccountRequest_Reset xCreateAccountRequest))"
  "CreateAccountRequest_GetLastName None = CreateAccountRequest_GetLastName (Some (CreateAccountRequest_Reset xCreateAccountRequest))"
  "CreateAccountResponse_GetId None = CreateAccountResponse_GetId (Some (CreateAccountResponse_Reset xCreateAccountResponse))"
  "UpdateAccountRequest_GetId None = UpdateAccountRequest_GetId (Some (UpdateAccountRequest_Reset xUpdateAccountRequest))"
  "UpdateAccountRequest_GetFirstName None = UpdateAccountRequest_GetFirstName (Some (UpdateAccountRequest_Reset xUpdateAccountRequest))"
  "UpdateAccountRequest_GetLastName None = UpdateAccountRequest_GetLastName (Some (UpdateAccountRequest_Reset xUpdateAccountRequest))"
  "UpdateAccountRequest_GetStatus None = UpdateAccountRequest_GetStatus (Some (UpdateAccountRequest_Reset xUpdateAccountRequest))"
  "UpdateAccountResponse_GetAccount None = UpdateAccountResponse_GetAccount (Some (UpdateAccountResponse_Reset xUpdateAccountResponse))"
  "DeleteAccountRequest_GetId None = DeleteAccountRequest_GetId (Some (DeleteAccountRequest_Reset xDeleteAccountRequest))"
  "ListAccountsRequest_GetStatus None = ListAccountsRequest_GetStatus (Some (ListAccountsRequest_Reset xListAccountsRequest))"
  "ListAccountsRequest_GetLimit None = ListAccountsRequest_GetLimit (Some (ListAccountsRequest_Reset xListAccountsRequest))"
  "ListAccountsRequest_GetOffset None = ListAccountsRequest_GetOffset (Some (ListAccountsRequest_Reset xListAccountsRequest))"
  "ListAccountsResponse_GetAccounts None = ListAccountsResponse_GetAccounts (Some (ListAccountsResponse_Reset xListAccountsResponse))"
  "ListAccountsResponse_GetTotal None = ListAccountsResponse_GetTotal (Some (ListAccountsResponse_Reset xListAccountsResponse))"
  by (simp_all add: getter_defs Reset_defs ACCOUNT_STATUS_UNSPECIFIED_def)

text \<open>
  What Go code reads of a response that carries an account, and of one that carries none: the
  getters chain, so that a missing account reads as the zero message.
\<close>

lemma account_read:
  fixes ts :: "time \<Rightarrow> 'ts ptr"
  defines "r \<equiv> \<lambda>p. GetAccountResponse_GetAccount (Some (toProtoAccount ts p))"
  shows "Account_GetId (r (Some a)) = ID a" "Account_GetEmail (r (Some a)) = Email a"
    "Account_GetFirstName (r (Some a)) = FirstName a" "Account_GetLastName (r (Some a)) = LastName a"
    "toDomainStatus (Account_GetStatus (r (Some a))) = scast (scast (Status a) :: goint32)"
    "Account_GetCreatedAt (r (Some a)) = ts (CreatedAt a)" "Account_GetUpdatedAt (r (Some a)) = ts (UpdatedAt a)"
    "Account_GetId (r None) = []" "Account_GetStatus (r None) = ACCOUNT_STATUS_UNSPECIFIED" "Account_GetCreatedAt (r None) = None"
  by (simp_all add: r_def getter_defs toProtoAccount_def toProtoStatus_def toDomainStatus_def)

text \<open>An update that leaves a field out and one that sets it to its zero value read the same.\<close>

lemma optional_not_read:
  "UpdateAccountRequest_GetFirstName (Some (u\<lparr>pu_FirstName := None\<rparr>)) = UpdateAccountRequest_GetFirstName (Some (u\<lparr>pu_FirstName := Some []\<rparr>))"
  "UpdateAccountRequest_GetStatus (Some (u\<lparr>pu_Status := None\<rparr>)) = UpdateAccountRequest_GetStatus (Some (u\<lparr>pu_Status := Some 0\<rparr>))"
  "pbUpdate (u\<lparr>pu_FirstName := None\<rparr>) \<noteq> pbUpdate (u\<lparr>pu_FirstName := Some []\<rparr>)"
  by (simp_all add: getter_defs ACCOUNT_STATUS_UNSPECIFIED_def pbUpdate_def Let_def split: option.split)

end
