(* ===== verification/RpcStubs.thy ===== *)
theory RpcStubs
  imports Service
begin

text \<open>
  The stubs generated from the service definition (\<open>internal/gen/account/v1/account_grpc.pb.go\<close>):
  the client, the server interface, the handlers the service description lists, and what they
  are together with the interceptors and methods of the API process.  grpc-go, which carries a
  call from \<open>Invoke\<close> to a handler, and the protobuf codec are parameters under the contract
  \<open>grpc_channel\<close>.  A message of one field is that field, as in GrpcHandler.
\<close>

section \<open>Names\<close>

definition CreateAccount_FullMethodName :: string where
  "CreateAccount_FullMethodName = ''/account.v1.AccountService/CreateAccount''"

definition GetAccount_FullMethodName :: string where
  "GetAccount_FullMethodName = ''/account.v1.AccountService/GetAccount''"

definition ListAccounts_FullMethodName :: string where
  "ListAccounts_FullMethodName = ''/account.v1.AccountService/ListAccounts''"

definition UpdateAccount_FullMethodName :: string where
  "UpdateAccount_FullMethodName = ''/account.v1.AccountService/UpdateAccount''"

definition DeleteAccount_FullMethodName :: string where
  "DeleteAccount_FullMethodName = ''/account.v1.AccountService/DeleteAccount''"

lemmas FullMethodName_defs = CreateAccount_FullMethodName_def GetAccount_FullMethodName_def ListAccounts_FullMethodName_def
  UpdateAccount_FullMethodName_def DeleteAccount_FullMethodName_def

section \<open>The client\<close>

text \<open>
  What a response on the wire decodes to as each message: \<open>Invoke\<close> decodes it into the type of
  its argument \<open>out\<close>.
\<close>

record 'ts replyAs =
  re_CreateAccountResponse :: "go_error + string"
  re_GetAccountResponse :: "go_error + 'ts pbAccount ptr"
  re_ListAccountsResponse :: "go_error + 'ts pbListResponse"
  re_UpdateAccountResponse :: "go_error + 'ts pbAccount ptr"
  re_DeleteAccountResponse :: "go_error + unit"

datatype 'o callOption = StaticMethod | CallOption 'o

type_synonym ('s, 'ts, 'o) clientConn = "string \<Rightarrow> rpcRequest \<Rightarrow> 'o callOption list \<Rightarrow> ('s, go_error, 'ts replyAs) op"

definition clientCreateAccount ::
    "('s, 'ts, 'o) clientConn \<Rightarrow> pbCreateRequest \<Rightarrow> 'o callOption list \<Rightarrow> ('s, go_error, string) op" where
  "clientCreateAccount cc in' opts =
     (let cOpts = [StaticMethod] @ opts
      in andThen (cc CreateAccount_FullMethodName (CreateAccountRPC in') cOpts) (\<lambda>out. liftR (re_CreateAccountResponse out)))"

definition clientGetAccount ::
    "('s, 'ts, 'o) clientConn \<Rightarrow> string \<Rightarrow> 'o callOption list \<Rightarrow> ('s, go_error, 'ts pbAccount ptr) op" where
  "clientGetAccount cc in' opts =
     (let cOpts = [StaticMethod] @ opts
      in andThen (cc GetAccount_FullMethodName (GetAccountRPC in') cOpts) (\<lambda>out. liftR (re_GetAccountResponse out)))"

definition clientListAccounts ::
    "('s, 'ts, 'o) clientConn \<Rightarrow> pbListRequest \<Rightarrow> 'o callOption list \<Rightarrow> ('s, go_error, 'ts pbListResponse) op" where
  "clientListAccounts cc in' opts =
     (let cOpts = [StaticMethod] @ opts
      in andThen (cc ListAccounts_FullMethodName (ListAccountsRPC in') cOpts) (\<lambda>out. liftR (re_ListAccountsResponse out)))"

definition clientUpdateAccount ::
    "('s, 'ts, 'o) clientConn \<Rightarrow> pbUpdateRequest \<Rightarrow> 'o callOption list \<Rightarrow> ('s, go_error, 'ts pbAccount ptr) op" where
  "clientUpdateAccount cc in' opts =
     (let cOpts = [StaticMethod] @ opts
      in andThen (cc UpdateAccount_FullMethodName (UpdateAccountRPC in') cOpts) (\<lambda>out. liftR (re_UpdateAccountResponse out)))"

definition clientDeleteAccount ::
    "('s, 'ts, 'o) clientConn \<Rightarrow> string \<Rightarrow> 'o callOption list \<Rightarrow> ('s, go_error, unit) op" where
  "clientDeleteAccount cc in' opts =
     (let cOpts = [StaticMethod] @ opts
      in andThen (cc DeleteAccount_FullMethodName (DeleteAccountRPC in') cOpts) (\<lambda>out. liftR (re_DeleteAccountResponse out)))"

section \<open>The server\<close>

record ('s, 'ts) AccountServiceServer =
  as_CreateAccount :: "(pbCreateRequest, 's, string outcome) unary"
  as_GetAccount :: "(string, 's, 'ts pbAccount ptr) unary"
  as_ListAccounts :: "(pbListRequest, 's, 'ts pbListResponse) unary"
  as_UpdateAccount :: "(pbUpdateRequest, 's, 'ts pbAccount ptr) unary"
  as_DeleteAccount :: "(string, 's, unit) unary"

definition UnimplementedAccountServiceServer :: "('s, 'ts) AccountServiceServer" where
  "UnimplementedAccountServiceServer = \<lparr>
     as_CreateAccount = (\<lambda>_. throw (GrpcStatus Unimplemented ''method CreateAccount not implemented'')),
     as_GetAccount = (\<lambda>_. throw (GrpcStatus Unimplemented ''method GetAccount not implemented'')),
     as_ListAccounts = (\<lambda>_. throw (GrpcStatus Unimplemented ''method ListAccounts not implemented'')),
     as_UpdateAccount = (\<lambda>_. throw (GrpcStatus Unimplemented ''method UpdateAccount not implemented'')),
     as_DeleteAccount = (\<lambda>_. throw (GrpcStatus Unimplemented ''method DeleteAccount not implemented''))\<rparr>"

text \<open>\<open>AccountHandler\<close> embeds the server that implements nothing and replaces every method.\<close>

definition NewAccountHandler :: "(time \<Rightarrow> 'ts) \<Rightarrow> 's AccountUseCase \<Rightarrow> ('s, 'ts) AccountServiceServer" where
  "NewAccountHandler ts uc = UnimplementedAccountServiceServer\<lparr>
     as_CreateAccount := grpcCreateAccount uc, as_GetAccount := grpcGetAccount ts uc,
     as_ListAccounts := grpcListAccounts ts uc, as_UpdateAccount := grpcUpdateAccount ts uc,
     as_DeleteAccount := grpcDeleteAccount uc\<rparr>"

text \<open>What the bytes of a request decode to as each message: \<open>dec\<close> decodes into the type it is given.\<close>

record requestAs =
  de_CreateAccountRequest :: "go_error + pbCreateRequest"
  de_GetAccountRequest :: "go_error + string"
  de_ListAccountsRequest :: "go_error + pbListRequest"
  de_UpdateAccountRequest :: "go_error + pbUpdateRequest"
  de_DeleteAccountRequest :: "go_error + string"

text \<open>
  An interceptor takes the full method name, the handler and the request as a value of any
  message type; a handler that is passed a message of another type panics.
\<close>

type_synonym ('s, 'ts) anyHandler = "(rpcRequest, 's, 'ts rpcReply outcome) unary"
type_synonym ('s, 'ts) unaryInterceptor = "string \<Rightarrow> ('s, 'ts) anyHandler \<Rightarrow> ('s, 'ts) anyHandler"
type_synonym ('s, 'ts) methodHandler =
  "('s, 'ts) AccountServiceServer \<Rightarrow> requestAs \<Rightarrow> ('s, 'ts) unaryInterceptor option \<Rightarrow> ('s, go_error, 'ts rpcReply outcome) op"

abbreviation answering :: "('s, go_error, 'a) op \<Rightarrow> ('a \<Rightarrow> 'ts rpcReply outcome) \<Rightarrow> ('s, go_error, 'ts rpcReply outcome) op" where
  "answering m f \<equiv> andThen m (\<lambda>x. ret (f x))"

definition created :: "string outcome \<Rightarrow> 'ts rpcReply outcome" where
  "created x = (case x of Panics \<Rightarrow> Panics | Resp i \<Rightarrow> Resp (CreatedReply (Resp i)))"

definition CreateAccount_Handler :: "('s, 'ts) methodHandler" where
  "CreateAccount_Handler srv dec interceptor =
     (case de_CreateAccountRequest dec of
        Inl err \<Rightarrow> throw err
      | Inr in' \<Rightarrow>
          (case interceptor of
             None \<Rightarrow> answering (as_CreateAccount srv in') created
           | Some ic \<Rightarrow>
               (let handler = (\<lambda>req. case req of
                      CreateAccountRPC r \<Rightarrow> answering (as_CreateAccount srv r) created | _ \<Rightarrow> ret Panics)
                in ic CreateAccount_FullMethodName handler (CreateAccountRPC in'))))"

definition GetAccount_Handler :: "('s, 'ts) methodHandler" where
  "GetAccount_Handler srv dec interceptor =
     (case de_GetAccountRequest dec of
        Inl err \<Rightarrow> throw err
      | Inr in' \<Rightarrow>
          (case interceptor of
             None \<Rightarrow> answering (as_GetAccount srv in') (\<lambda>p. Resp (AccountReply p))
           | Some ic \<Rightarrow>
               (let handler = (\<lambda>req. case req of
                      GetAccountRPC r \<Rightarrow> answering (as_GetAccount srv r) (\<lambda>p. Resp (AccountReply p)) | _ \<Rightarrow> ret Panics)
                in ic GetAccount_FullMethodName handler (GetAccountRPC in'))))"

definition ListAccounts_Handler :: "('s, 'ts) methodHandler" where
  "ListAccounts_Handler srv dec interceptor =
     (case de_ListAccountsRequest dec of
        Inl err \<Rightarrow> throw err
      | Inr in' \<Rightarrow>
          (case interceptor of
             None \<Rightarrow> answering (as_ListAccounts srv in') (\<lambda>p. Resp (PageReply p))
           | Some ic \<Rightarrow>
               (let handler = (\<lambda>req. case req of
                      ListAccountsRPC r \<Rightarrow> answering (as_ListAccounts srv r) (\<lambda>p. Resp (PageReply p)) | _ \<Rightarrow> ret Panics)
                in ic ListAccounts_FullMethodName handler (ListAccountsRPC in'))))"

definition UpdateAccount_Handler :: "('s, 'ts) methodHandler" where
  "UpdateAccount_Handler srv dec interceptor =
     (case de_UpdateAccountRequest dec of
        Inl err \<Rightarrow> throw err
      | Inr in' \<Rightarrow>
          (case interceptor of
             None \<Rightarrow> answering (as_UpdateAccount srv in') (\<lambda>p. Resp (AccountReply p))
           | Some ic \<Rightarrow>
               (let handler = (\<lambda>req. case req of
                      UpdateAccountRPC r \<Rightarrow> answering (as_UpdateAccount srv r) (\<lambda>p. Resp (AccountReply p)) | _ \<Rightarrow> ret Panics)
                in ic UpdateAccount_FullMethodName handler (UpdateAccountRPC in'))))"

definition DeleteAccount_Handler :: "('s, 'ts) methodHandler" where
  "DeleteAccount_Handler srv dec interceptor =
     (case de_DeleteAccountRequest dec of
        Inl err \<Rightarrow> throw err
      | Inr in' \<Rightarrow>
          (case interceptor of
             None \<Rightarrow> answering (as_DeleteAccount srv in') (\<lambda>_. Resp DeletedReply)
           | Some ic \<Rightarrow>
               (let handler = (\<lambda>req. case req of
                      DeleteAccountRPC r \<Rightarrow> answering (as_DeleteAccount srv r) (\<lambda>_. Resp DeletedReply) | _ \<Rightarrow> ret Panics)
                in ic DeleteAccount_FullMethodName handler (DeleteAccountRPC in'))))"

lemmas Handler_defs = CreateAccount_Handler_def GetAccount_Handler_def ListAccounts_Handler_def UpdateAccount_Handler_def
  DeleteAccount_Handler_def

record ('s, 'ts) serviceDesc =
  sd_ServiceName :: string
  sd_Methods :: "(string \<times> ('s, 'ts) methodHandler) list"
  sd_Streams :: "string list"
  sd_Metadata :: string

definition AccountService_ServiceDesc :: "('s, 'ts) serviceDesc" where
  "AccountService_ServiceDesc = \<lparr>
     sd_ServiceName = ''account.v1.AccountService'',
     sd_Methods =
       [(''CreateAccount'', CreateAccount_Handler),
        (''GetAccount'', GetAccount_Handler),
        (''ListAccounts'', ListAccounts_Handler),
        (''UpdateAccount'', UpdateAccount_Handler),
        (''DeleteAccount'', DeleteAccount_Handler)],
     sd_Streams = [],
     sd_Metadata = ''account/v1/account.proto''\<rparr>"

text \<open>The services of a server and the interceptors of its options.\<close>

record ('s, 'ts) grpcRegistry =
  gr_services :: "(('s, 'ts) serviceDesc \<times> ('s, 'ts) AccountServiceServer) list"
  gr_interceptor :: "('s, 'ts) unaryInterceptor option"

definition RegisterAccountServiceServer ::
    "('s, 'ts) grpcRegistry \<Rightarrow> ('s, 'ts) AccountServiceServer \<Rightarrow> ('s, 'ts) grpcRegistry" where
  "RegisterAccountServiceServer s srv = s\<lparr>gr_services := gr_services s @ [(AccountService_ServiceDesc, srv)]\<rparr>"

definition RegisterServer :: "('s, 'ts) AccountServiceServer \<Rightarrow> ('s, 'ts) grpcRegistry \<Rightarrow> ('s, 'ts) grpcRegistry" where
  "RegisterServer h s = RegisterAccountServiceServer s h"

text \<open>The server of the API process; a server option that chains no interceptors is none.\<close>

definition chained :: "('s, 'ts) site \<Rightarrow> interceptor list \<Rightarrow> ('s, 'ts) unaryInterceptor option" where
  "chained st is = (if is = [] then None
     else Some (\<lambda>_ h. foldr (applyInterceptor (st_isStatus st) (st_validate st) (st_text st)) is h))"

definition rpcServer :: "('s, 'ts) site \<Rightarrow> moment \<Rightarrow> (interceptor, statsHandler) grpcServer \<Rightarrow> ('s, 'ts) grpcRegistry" where
  "rpcServer st mo srv =
     RegisterServer (NewAccountHandler (st_ts st) (useCaseOf st mo)) \<lparr>gr_services = [], gr_interceptor = chained st (interceptors srv)\<rparr>"

section \<open>The channel between them\<close>

text \<open>The message that bytes decode to.\<close>

definition readsAs :: "requestAs \<Rightarrow> rpcRequest \<Rightarrow> bool" where
  "readsAs d rq =
     (case rq of
        CreateAccountRPC r \<Rightarrow> de_CreateAccountRequest d = Inr r
      | GetAccountRPC i \<Rightarrow> de_GetAccountRequest d = Inr i
      | ListAccountsRPC r \<Rightarrow> de_ListAccountsRequest d = Inr r
      | UpdateAccountRPC r \<Rightarrow> de_UpdateAccountRequest d = Inr r
      | DeleteAccountRPC i \<Rightarrow> de_DeleteAccountRequest d = Inr i)"

definition repliesAs :: "'ts replyAs \<Rightarrow> 'ts rpcReply \<Rightarrow> bool" where
  "repliesAs out reply =
     (case reply of
        CreatedReply x \<Rightarrow> (case x of Resp i \<Rightarrow> re_CreateAccountResponse out = Inr i | Panics \<Rightarrow> True)
      | AccountReply p \<Rightarrow> re_GetAccountResponse out = Inr p \<and> re_UpdateAccountResponse out = Inr p
      | PageReply l \<Rightarrow> re_ListAccountsResponse out = Inr l
      | DeletedReply \<Rightarrow> re_DeleteAccountResponse out = Inr ())"

text \<open>
  What the code relies on of grpc-go and protobuf: a call by full name runs the handler of that
  service and method on what the request decodes to; its response comes back decoded, its error
  as a status; a method the service does not have is answered Unimplemented.  Messages that can
  be sent (\<open>sendable\<close>, \<open>returnable\<close>: their strings are UTF-8) decode to themselves.
\<close>

locale grpc_channel =
  fixes invoke :: "('s, 'ts) grpcRegistry \<Rightarrow> ('s, 'ts, 'o) clientConn"
    and dec :: "rpcRequest \<Rightarrow> requestAs" and enc :: "'ts rpcReply \<Rightarrow> 'ts replyAs"
    and sendable :: "rpcRequest \<Rightarrow> bool" and returnable :: "'ts rpcReply \<Rightarrow> bool"
    and remote :: "go_error \<Rightarrow> go_error"
  assumes failed: "gr_services g = [(d, srv)] \<Longrightarrow> map_of (sd_Methods d) m = Some h \<Longrightarrow> CHR ''/'' \<notin> set m \<Longrightarrow> sendable rq \<Longrightarrow>
      h srv (dec rq) (gr_interceptor g) s = (Inl e, s') \<Longrightarrow>
      invoke g (''/'' @ sd_ServiceName d @ ''/'' @ m) rq opts s = (Inl (remote e), s')"
    and answered: "gr_services g = [(d, srv)] \<Longrightarrow> map_of (sd_Methods d) m = Some h \<Longrightarrow> CHR ''/'' \<notin> set m \<Longrightarrow> sendable rq \<Longrightarrow>
      h srv (dec rq) (gr_interceptor g) s = (Inr (Resp reply), s') \<Longrightarrow> returnable reply \<Longrightarrow>
      invoke g (''/'' @ sd_ServiceName d @ ''/'' @ m) rq opts s = (Inr (enc reply), s')"
    and unknown: "gr_services g = [(d, srv)] \<Longrightarrow> map_of (sd_Methods d) m = None \<Longrightarrow> CHR ''/'' \<notin> set m \<Longrightarrow> sendable rq \<Longrightarrow>
      \<exists>msg. invoke g (''/'' @ sd_ServiceName d @ ''/'' @ m) rq opts s = (Inl (GrpcStatus Unimplemented msg), s)"
    and status: "remote (GrpcStatus c msg) = GrpcStatus c msg"
    and requests: "sendable rq \<Longrightarrow> readsAs (dec rq) rq"
    and replies: "returnable reply \<Longrightarrow> repliesAs (enc reply) reply"

text \<open>A client's call of the method that a request belongs to.\<close>

definition clientCall :: "('s, 'ts, 'o) clientConn \<Rightarrow> rpcRequest \<Rightarrow> 'o callOption list \<Rightarrow> ('s, go_error, 'ts rpcReply) op" where
  "clientCall cc rq opts =
     (case rq of
        CreateAccountRPC r \<Rightarrow> andThen (clientCreateAccount cc r opts) (\<lambda>i. ret (CreatedReply (Resp i)))
      | GetAccountRPC i \<Rightarrow> andThen (clientGetAccount cc i opts) (\<lambda>p. ret (AccountReply p))
      | ListAccountsRPC r \<Rightarrow> andThen (clientListAccounts cc r opts) (\<lambda>l. ret (PageReply l))
      | UpdateAccountRPC r \<Rightarrow> andThen (clientUpdateAccount cc r opts) (\<lambda>p. ret (AccountReply p))
      | DeleteAccountRPC i \<Rightarrow> andThen (clientDeleteAccount cc i opts) (\<lambda>_. ret DeletedReply))"

lemmas client_defs = clientCreateAccount_def clientGetAccount_def clientListAccounts_def clientUpdateAccount_def clientDeleteAccount_def

definition methodName :: "rpcRequest \<Rightarrow> string" where
  "methodName rq =
     (case rq of CreateAccountRPC _ \<Rightarrow> ''CreateAccount'' | GetAccountRPC _ \<Rightarrow> ''GetAccount'' | ListAccountsRPC _ \<Rightarrow> ''ListAccounts''
      | UpdateAccountRPC _ \<Rightarrow> ''UpdateAccount'' | DeleteAccountRPC _ \<Rightarrow> ''DeleteAccount'')"


section \<open>A call is a request served\<close>

definition methodHandlerOf :: "rpcRequest \<Rightarrow> ('s, 'ts) methodHandler" where
  "methodHandlerOf rq =
     (case rq of CreateAccountRPC _ \<Rightarrow> CreateAccount_Handler | GetAccountRPC _ \<Rightarrow> GetAccount_Handler
      | ListAccountsRPC _ \<Rightarrow> ListAccounts_Handler | UpdateAccountRPC _ \<Rightarrow> UpdateAccount_Handler
      | DeleteAccountRPC _ \<Rightarrow> DeleteAccount_Handler)"

lemma described:
  "map_of (sd_Methods AccountService_ServiceDesc) (methodName rq) = Some (methodHandlerOf rq)"
  "CHR ''/'' \<notin> set (methodName rq)" "sd_ServiceName AccountService_ServiceDesc = ''account.v1.AccountService''"
  by (cases rq; simp add: methodName_def methodHandlerOf_def AccountService_ServiceDesc_def)+

lemma not_described:
  "map_of (sd_Methods AccountService_ServiceDesc) m = None
   \<longleftrightarrow> m \<notin> {''CreateAccount'', ''GetAccount'', ''ListAccounts'', ''UpdateAccount'', ''DeleteAccount''}"
  by (auto simp: AccountService_ServiceDesc_def)

lemma registered:
  "gr_services (rpcServer st mo srv) = [(AccountService_ServiceDesc, NewAccountHandler (st_ts st) (useCaseOf st mo))]"
  "gr_interceptor (rpcServer st mo srv) = chained st (interceptors srv)"
  by (simp_all add: rpcServer_def RegisterServer_def RegisterAccountServiceServer_def)

text \<open>The generated handler behind the chain of the server is what \<open>serveRPC\<close> runs.\<close>

definition settled :: "'ts rpcReply \<Rightarrow> 'ts rpcReply outcome" where
  "settled reply = (case reply of CreatedReply x \<Rightarrow> created x | _ \<Rightarrow> Resp reply)"

lemma handler_serves:
  assumes "registerGRPC None (st_cfg st) = Inr (srv, probes)" "readsAs d rq" "serveRPC st mo rq s = Some (ans, s')"
  shows "case ans of
      Http _ _ \<Rightarrow> False
    | RpcErr e \<Rightarrow> methodHandlerOf rq (NewAccountHandler (st_ts st) (useCaseOf st mo)) d (chained st (interceptors srv)) s = (Inl e, s')
    | RpcOK reply \<Rightarrow>
        methodHandlerOf rq (NewAccountHandler (st_ts st) (useCaseOf st mo)) d (chained st (interceptors srv)) s = (Inr (settled reply), s')"
proof -
  obtain rest where ic: "interceptors srv = [IError, IValidation]"
    using interceptors_registered [of "st_cfg st"] assms(1) by auto
  show ?thesis
    using assms(2,3) unfolding serveRPC_def assms(1)
    by (cases rq) (auto simp: ic chained_def readsAs_def methodHandlerOf_def Handler_defs NewAccountHandler_def
        accountService_def ErrorInterceptor_def ValidationInterceptor_def mapErr_def settled_def andThen_def
        split: prod.splits sum.splits option.splits)
qed

text \<open>A reply belongs to the method of its request, and a created account has an id.\<close>

definition replyFits :: "rpcRequest \<Rightarrow> 'ts rpcReply \<Rightarrow> bool" where
  "replyFits rq reply =
     (case rq of
        CreateAccountRPC _ \<Rightarrow> (\<exists>i. reply = CreatedReply (Resp i))
      | GetAccountRPC _ \<Rightarrow> (\<exists>p. reply = AccountReply p)
      | ListAccountsRPC _ \<Rightarrow> (\<exists>l. reply = PageReply l)
      | UpdateAccountRPC _ \<Rightarrow> (\<exists>p. reply = AccountReply p)
      | DeleteAccountRPC _ \<Rightarrow> reply = DeletedReply)"

lemma reply_fits:
  assumes "use_case (st_uc st) view en encp" "serve st mo (Rpc rq) (s, m) = Some (RpcOK reply, s', m')"
  shows "replyFits rq reply"
  using assms(2)
proof (cases rule: serve_cases)
  case (performed ac x)
  from performed(1) have ac: "ac = rpcAction rq" by (auto simp: callAction_def split: option.splits)
  from performed(2) obtain y where x: "x = Inr y" by (cases x) (auto simp: rpcAnswer_def)
  have "\<exists>a. y = OneAccount (Some a)" if c: "ac = DoCreate req" for req
  proof -
    from performed(3) x c obtain p where "ucCreate (st_uni st) (st_uc st) (mo_now mo) (mo_id mo) req s = (Inr p, s')" "y = OneAccount p"
      by (auto simp: perform_def accountUseCase_def elim!: andThen_InrE)
    with use_case.ucCreate_ok [OF assms(1)] show ?thesis by blast
  qed
  with performed(2,3) ac x show ?thesis
    by (cases rq) (auto simp: rpcAction_def replyFits_def rpcAnswer_def creates_def perform_def elim!: andThen_InrE)
qed (simp add: rpcAnswer_def)

lemma settled_fits: "replyFits rq reply \<Longrightarrow> settled reply = Resp reply"
  by (auto simp: replyFits_def settled_def created_def split: rpcRequest.splits)

context grpc_channel
begin

lemma call_failed:
  assumes "methodHandlerOf rq h (dec rq) ic s = (Inl e, s')" "sendable rq"
    and "gr_services g = [(AccountService_ServiceDesc, h)]" "gr_interceptor g = ic"
  shows "clientCall (invoke g) rq opts s = (Inl (remote e), s')"
  using failed [OF assms(3) described(1) [of rq] described(2) [of rq] assms(2), where opts = "StaticMethod # opts"] assms
  by (cases rq) (auto simp: described(3) clientCall_def client_defs FullMethodName_defs methodName_def Let_def)

lemma call_answered:
  assumes "methodHandlerOf rq h (dec rq) ic s = (Inr (Resp reply), s')" "sendable rq" "returnable reply" "replyFits rq reply"
    and "gr_services g = [(AccountService_ServiceDesc, h)]" "gr_interceptor g = ic"
  shows "clientCall (invoke g) rq opts s = (Inr reply, s')"
  using answered [OF assms(5) described(1) [of rq] described(2) [of rq] assms(2) _ assms(3), where opts = "StaticMethod # opts"] replies [OF assms(3)] assms
  by (cases rq) (auto simp: described(3) clientCall_def client_defs FullMethodName_defs methodName_def Let_def replyFits_def
      repliesAs_def)

end

section \<open>A channel\<close>

text \<open>
  A channel that carries messages as they are: the name is cut at its last slash; a request is
  no message of another type.
\<close>

definition plainDec :: "rpcRequest \<Rightarrow> requestAs" where
  "plainDec rq =
     (let no = \<lparr>de_CreateAccountRequest = Inl (DriverErr ''proto''), de_GetAccountRequest = Inl (DriverErr ''proto''),
         de_ListAccountsRequest = Inl (DriverErr ''proto''), de_UpdateAccountRequest = Inl (DriverErr ''proto''),
         de_DeleteAccountRequest = Inl (DriverErr ''proto'')\<rparr>
      in case rq of
        CreateAccountRPC r \<Rightarrow> no\<lparr>de_CreateAccountRequest := Inr r\<rparr>
      | GetAccountRPC i \<Rightarrow> no\<lparr>de_GetAccountRequest := Inr i\<rparr>
      | ListAccountsRPC r \<Rightarrow> no\<lparr>de_ListAccountsRequest := Inr r\<rparr>
      | UpdateAccountRPC r \<Rightarrow> no\<lparr>de_UpdateAccountRequest := Inr r\<rparr>
      | DeleteAccountRPC i \<Rightarrow> no\<lparr>de_DeleteAccountRequest := Inr i\<rparr>)"

definition plainEnc :: "'ts rpcReply \<Rightarrow> 'ts replyAs" where
  "plainEnc reply =
     (let no = \<lparr>re_CreateAccountResponse = Inl (DriverErr ''proto''), re_GetAccountResponse = Inl (DriverErr ''proto''),
         re_ListAccountsResponse = Inl (DriverErr ''proto''), re_UpdateAccountResponse = Inl (DriverErr ''proto''),
         re_DeleteAccountResponse = Inl (DriverErr ''proto'')\<rparr>
      in case reply of
        CreatedReply x \<Rightarrow> (case x of Resp i \<Rightarrow> no\<lparr>re_CreateAccountResponse := Inr i\<rparr> | Panics \<Rightarrow> no)
      | AccountReply p \<Rightarrow> no\<lparr>re_GetAccountResponse := Inr p, re_UpdateAccountResponse := Inr p\<rparr>
      | PageReply l \<Rightarrow> no\<lparr>re_ListAccountsResponse := Inr l\<rparr>
      | DeletedReply \<Rightarrow> no\<lparr>re_DeleteAccountResponse := Inr ()\<rparr>)"

definition statusOf :: "go_error \<Rightarrow> go_error" where
  "statusOf e = (case e of GrpcStatus c msg \<Rightarrow> GrpcStatus c msg | _ \<Rightarrow> GrpcStatus Internal ''unknown'')"

definition afterSlash :: "string \<Rightarrow> string" where
  "afterSlash name = rev (takeWhile (\<lambda>c. c \<noteq> CHR ''/'') (rev name))"

definition dial :: "('s, 'ts) grpcRegistry \<Rightarrow> ('s, 'ts, unit) clientConn" where
  "dial g name rq opts =
     (case gr_services g of
        [(d, srv)] \<Rightarrow>
          (if name \<noteq> ''/'' @ sd_ServiceName d @ ''/'' @ afterSlash name then throw (GrpcStatus Unimplemented ''unknown service'')
           else case map_of (sd_Methods d) (afterSlash name) of
             None \<Rightarrow> throw (GrpcStatus Unimplemented ''unknown method'')
           | Some h \<Rightarrow> (\<lambda>s. case h srv (plainDec rq) (gr_interceptor g) s of
               (Inl e, s') \<Rightarrow> (Inl (statusOf e), s')
             | (Inr (Resp reply), s') \<Rightarrow> (Inr (plainEnc reply), s')
             | (Inr Panics, s') \<Rightarrow> (Inl (DriverErr ''connection closed''), s')))
      | _ \<Rightarrow> throw (GrpcStatus Unimplemented ''unknown service''))"

lemma afterSlash:
  assumes "CHR ''/'' \<notin> set m"
  shows "afterSlash (CHR ''/'' # n @ CHR ''/'' # m) = m"
proof -
  from assms have t: "takeWhile (\<lambda>c. c \<noteq> CHR ''/'') (rev m) = rev m" by (subst takeWhile_eq_all_conv) auto
  show ?thesis by (simp add: afterSlash_def takeWhile_tail t)
qed

interpretation plain: grpc_channel dial plainDec plainEnc "\<lambda>_. True" "\<lambda>_. True" statusOf
  by unfold_locales (auto simp: dial_def afterSlash statusOf_def readsAs_def repliesAs_def plainDec_def plainEnc_def Let_def
      split: rpcRequest.splits rpcReply.splits outcome.splits)

section \<open>Properties\<close>

text \<open>
  C13: the generated client and server fit together.  Over every channel that keeps the contract
  of grpc-go and every wiring that keeps the write contracts, cached or not, a call of a client
  method on the API process, with a request and a reply that can be sent, is the request of that
  method served: the handler of the same method runs behind the interceptors, the reply comes back
  as it left, an error as its status.  No other name is in the method table of the service, so by
  the contract of the channel it is answered Unimplemented and nothing happens; the service is one
  the server announces.
\<close>

theorem client_calls_served:
  assumes "grpc_channel invoke dec enc sendable returnable remote" "use_case (st_uc st) view en encp"
    and "registerGRPC None (st_cfg st) = Inr (srv, probes)" "sendable rq"
    and "serve st mo (Rpc rq) (s, m) = Some (ans, s', m')" "\<forall>reply. ans = RpcOK reply \<longrightarrow> returnable reply"
  shows "(case ans of
        Http _ _ \<Rightarrow> False
      | RpcErr e \<Rightarrow> clientCall (invoke (rpcServer st mo srv)) rq opts s = (Inl (remote e), s')
      | RpcOK reply \<Rightarrow> clientCall (invoke (rpcServer st mo srv)) rq opts s = (Inr reply, s'))
    \<and> (\<forall>meth. CHR ''/'' \<notin> set meth \<longrightarrow>
        meth \<notin> {''CreateAccount'', ''GetAccount'', ''ListAccounts'', ''UpdateAccount'', ''DeleteAccount''} \<longrightarrow>
        (\<exists>msg. invoke (rpcServer st mo srv) (''/account.v1.AccountService/'' @ meth) rq opts s = (Inl (GrpcStatus Unimplemented msg), s)))
    \<and> ''account.v1.AccountService'' \<in> set (gs_services srv)"
proof (intro conjI allI impI)
  have r: "serveRPC st mo rq s = Some (ans, s')" using assms(5) by (auto simp: serve_def)
  note h = handler_serves [OF assms(3) grpc_channel.requests [OF assms(1,4)] r]
  show "case ans of
        Http _ _ \<Rightarrow> False
      | RpcErr e \<Rightarrow> clientCall (invoke (rpcServer st mo srv)) rq opts s = (Inl (remote e), s')
      | RpcOK reply \<Rightarrow> clientCall (invoke (rpcServer st mo srv)) rq opts s = (Inr reply, s')"
  proof (cases ans)
    case (RpcErr e)
    with h grpc_channel.call_failed [OF assms(1) _ assms(4) registered] show ?thesis by auto
  next
    case (RpcOK reply)
    with reply_fits [OF assms(2), of mo rq s m reply s' m'] assms(5) have fits: "replyFits rq reply" by simp
    from h RpcOK settled_fits [OF fits] grpc_channel.call_answered [OF assms(1) _ assms(4) _ fits registered] assms(6)
    show ?thesis by auto
  qed (use h in auto)
next
  fix meth :: string
  assume "CHR ''/'' \<notin> set meth"
    "meth \<notin> {''CreateAccount'', ''GetAccount'', ''ListAccounts'', ''UpdateAccount'', ''DeleteAccount''}"
  with grpc_channel.unknown [OF assms(1) registered(1) not_described [THEN iffD2] _ assms(4), of meth st mo srv opts s]
  show "\<exists>msg. invoke (rpcServer st mo srv) (''/account.v1.AccountService/'' @ meth) rq opts s = (Inl (GrpcStatus Unimplemented msg), s)"
    by (simp add: described(3))
next
  show "''account.v1.AccountService'' \<in> set (gs_services srv)"
    using assms(3) by (auto simp: registerGRPC_def Let_def)
qed

lemma samplePb_served:
  "\<exists>s' m'. serve sampleSite sampleMoment (Rpc (CreateAccountRPC samplePb)) (sampleWorld, newMetrics)
     = Some (RpcOK (CreatedReply (Resp ''u1'')), s', m')"
proof -
  let ?req = "\<lparr>cr_Email = ''bob@x.io'', cr_Password = ''longenough'', cr_FirstName = ''Bob'', cr_LastName = ''Ray'', cr_Status = 0\<rparr>"
  have a: "callAction sampleSite (Rpc (CreateAccountRPC samplePb)) = Some (Inr (DoCreate ?req))"
    by (simp add: callAction_def sampleSite_def rpcAction_def samplePb_def)
  obtain s' where "ucCreate asciiOnly gormUC 7 ''u1'' ?req sampleWorld = (Inr (Some (newAccount ''u1'' 7 ''$2a$longenough'' ?req)), s')"
    using wired_create_runs [of sampleWorld asciiOnly ?req "''u1''" accountCacheTTL 7] by (auto simp: spent_def sampleWorld_def sampleRow_def)
  then have "perform (useCaseOf sampleSite sampleMoment) (DoCreate ?req) sampleWorld
      = (Inr (OneAccount (Some (newAccount ''u1'' 7 ''$2a$longenough'' ?req))), s')"
    by (simp add: perform_def useCaseOf_def accountUseCase_def sampleSite_def sampleMoment_def)
  with serve_action [OF a, of sampleMoment sampleWorld newMetrics] show ?thesis
    by (auto simp: creates_def rpcAnswer_def newAccount_def)
qed

theorem client_calls_served_witness:
  "\<exists>srv probes msg s'. registerGRPC None defaultConfig = Inr (srv, probes)
    \<and> clientCall (dial (rpcServer sampleSite sampleMoment srv)) (CreateAccountRPC samplePb) [CallOption ()] sampleWorld
        = (Inr (CreatedReply (Resp ''u1'')), s')
    \<and> dial (rpcServer sampleSite sampleMoment srv) (''/account.v1.AccountService/'' @ ''Ping'') (CreateAccountRPC samplePb)
        [CallOption ()] sampleWorld = (Inl (GrpcStatus Unimplemented msg), sampleWorld)"
proof -
  obtain srv probes where g: "registerGRPC None (st_cfg sampleSite) = Inr (srv, probes)"
    by (simp add: registerGRPC_def Let_def)
  obtain s' m' where "serve sampleSite sampleMoment (Rpc (CreateAccountRPC samplePb)) (sampleWorld, newMetrics)
     = Some (RpcOK (CreatedReply (Resp ''u1'')), s', m')" using samplePb_served by blast
  note r = client_calls_served [OF plain.grpc_channel_axioms sampleSite_writes g _ this, of "[CallOption ()]"]
  have "CHR ''/'' \<notin> set ''Ping''" "''Ping'' \<notin> {''CreateAccount'', ''GetAccount'', ''ListAccounts'', ''UpdateAccount'', ''DeleteAccount''}"
    by simp_all
  with r [THEN conjunct2, THEN conjunct1, rule_format, of "''Ping''"] r [THEN conjunct1] g show ?thesis
    by (simp add: sampleSite_def)
qed

end
