(* ===== verification/Spec2Isabelle.thy ===== *)
theory Spec2Isabelle
  imports CacheEffects ApperrHeap Validation Process UpdateServers CacheRace MongoRace PbMessages RpcStubs
begin

text \<open>
  A verification library for the account service (a Go service in clean architecture: domain,
  ports, use case, adapters, infrastructure, composition root).

  \<^bold>\<open>How the parts interact.\<close>  HTTP (\<open>internal/adapter/http\<close> behind the middleware of
  \<open>internal/infra/ginx\<close>) and gRPC (\<open>internal/adapter/grpc\<close> behind the interceptors of
  \<open>internal/infra/grpcx\<close>) call the use case (\<open>internal/core/usecase/account\<close>).  The use case works
  on ports (\<open>internal/ports\<close>): a rate limiter, a password service, a transaction manager and a
  repository.  Three repositories implement the port (\<open>internal/adapter/repo\<close>: pgx + sqlc, GORM,
  MongoDB) and a cache decorator wraps one of them.  Errors are \<open>AppError\<close>s
  (\<open>internal/infra/apperr\<close>) and are rendered at the edge.  A worker process consumes Kafka events
  and runs a job under a Redis lock.  \<open>internal/apps\<close> wires all of it.

  \<^bold>\<open>How code is translated.\<close>  A Go function with effects is an operation
  \<open>('s, 'e, 'a) op = 's \<Rightarrow> ('e + 'a) \<times> 's\<close> (theory Prelude): the error or the value, and the state
  after the call on both paths.  \<open>if err != nil\<close> is \<open>andThen\<close>, wrapping is \<open>mapErr\<close>.  A struct is
  a record, an interface a record of its methods, a pointer that may be nil an option, \<open>int\<close> and
  \<open>int32\<close> are 64 and 32 bit words, strings are byte strings.  Third-party code is a parameter; what
  the code relies on of it is a locale, and each locale is interpreted on a concrete model (a table
  with faults, a key-value store with expiry, a Redis server with lost replies, a partition with a
  log, a schema version, a list of hooks, a command table, a channel, locked rows), on which the witnesses evaluate.

  \<^bold>\<open>The theories.\<close>
  \<^item> Prelude, GoStrings, GoFormat: operations, association lists, the string and number functions
    of the standard library the code uses.
  \<^item> Domain (\<open>internal/domain\<close>): entities, statuses, cache keys, events, rate limits.
  \<^item> Apperr, ApperrHeap (\<open>internal/infra/apperr\<close>): AppError as a value with \<open>errors.Is/As\<close> and the
    catalogue, and again over a store of objects and maps, where copying is the claim.
  \<^item> Render (\<open>httpx\<close>, \<open>grpcx\<close>): error to HTTP body and to gRPC status, the two interceptors.
  \<^item> Ports: the interfaces, and the contracts \<open>account_writes\<close>, \<open>account_repository\<close>, \<open>tx_manager\<close>.
  \<^item> Rows, PgTable, PgServer, SqlcRepo, SqlcContract, GormRepo, GormContract, MongoRepo,
    MongoContract: tables with the constraints of the migration, the statements (in which order
    they return rows created at the same time is open), the three repositories, and that each of
    them refines the repository contract.  MongoDB keeps emails unique only under an index
    (locale \<open>mongo_driver\<close> takes the indexes as an argument): its refinement is that of a collection
    with the indexes of \<open>accountIndexes\<close>, which \<open>EnsureIndexes\<close> builds and nothing calls.
  \<^item> Cache, CachedRepo, World, CacheEffects: the cache manager, the decorator, reachable states of
    repository and cache, and what the cache does to the use case.
  \<^item> ReadThrough: what the operations of the use case promise on the cached wiring of
    \<open>NewAccountRepository\<close> (locale \<open>read_through\<close>: \<open>held\<close> are the accounts cached by id; a read
    returns the stored account or a held one); an uncached wiring is the case without such entries.
  \<^item> Limiter, UseCase, UseCaseWorld, UseCaseProps: limiter and passwords, the four operations of the
    use case (with List), their contract over every repository, transaction manager and limiter
    that keep theirs (locale \<open>use_case\<close>), and the wirings with each backend.
  \<^item> TxManagers, TxServer (\<open>internal/infra/db/tx_manager_*.go\<close>): the three managers, the handle a
    repository takes from the context, the contracts of go-transaction-manager (\<open>tx_server\<close>,
    \<open>tx_getter\<close>), and a server with open transactions and failing begins and commits.
  \<^item> Interleave, RelyGuarantee, UseCaseProcs: processes, that is calls cut at every call to a shared
    resource; pools of them moving one atom at a time (\<open>poolStep\<close>); invariants and
    rely-guarantee proofs of pools; the cached repository and the use case as processes.
  \<^item> CacheRace, CreateRace, CreateServers, MongoRace: requests in flight over the cache (time to
    live against staleness), Creates racing for an email over a server with unique keys (locale
    \<open>insert_server\<close>), on PostgreSQL and on MongoDB with its index, and what happens without it.
  \<^item> UpdateRace, UpdateServers: Updates racing for an account over a server that locks the rows it
    changes (locale \<open>update_server\<close>), and on PostgreSQL.
  \<^item> Observe, Ginx, HttpHandler: log levels, correlation ids, metrics; the request context and the
    middleware stack, in which a handler may panic; the REST handlers.
  \<^item> GrpcHandler: messages, mappers and the five methods.
  \<^item> PbMessages, RpcStubs (\<open>internal/gen\<close>): Reset, the getters and the enum tables of the generated messages; the
    generated client, handlers and service description, over the contract \<open>grpc_channel\<close> of grpc-go
    and the codec.
  \<^item> Lock, Kafka, Worker: the Redis lock with histories of holders (\<open>lockStep\<close>), the consumer loop
    (\<open>Run\<close>, a partial function: None is a loop that never returns) over the contracts
    \<open>partition_reader\<close> and \<open>handled_partition\<close>, the housekeeping tick.
  \<^item> Infra, Config, Migrate, Servers, Wiring: helpers, configuration and its singleton, migrations,
    servers with their routes, interceptors and lifecycle hooks, and the dependency graph.
  \<^item> Service: a request from the wire to its answer.  \<open>serve\<close> routes it as \<open>registerHTTP\<close> and
    \<open>registerGRPC\<close> do, through the middleware or the interceptors, the handler, the use case and
    back; \<open>accountsStep\<close> is the abstract store of accounts that it refines, with the cached entries
    an answer may come from; \<open>traffic\<close> is requests and what happens between them.
  \<^item> Validation: the binding tags and field rules as data (\<open>createBinding\<close>, \<open>fieldRules\<close>), and
    what is known of a request that passes them (locale \<open>validated_site\<close>).
  \<^item> Process (\<open>main.go\<close>, \<open>cmd\<close>, \<open>run\<close> of the server): the command line over the contract
    \<open>command_tree\<close> of cobra, and the hooks of the server (\<open>serverBoot\<close>), with the start and stop
    methods of its servers, over the contract \<open>fx_lifecycle\<close>.

  \<^bold>\<open>What is shown.\<close>  Use case: what each successful call did to the durable accounts, that failed
  calls do nothing, the invariant of all reachable stores, which answer each guard gives, that
  an admissible request goes through on the cached GORM wiring, and when conflict and absence are honest.  Repositories:
  refinement of one abstract store by three backends, with their differences in paging.
  Transactions: a closure run by \<open>WithTx\<close> over the context it is handed is atomic on the committed
  data, also when calls are nested.  Cache:
  the write contract survives, reads by id are fresh unless an eviction failed, and the cases
  where the cache changes the behaviour of the service.  Concurrency: the processes are the
  operations when run alone; interleaved Creates keep emails unique where the server does and
  only report conflicts that exist; interleaved Updates lose no field that only one of them
  sets; stale cache entries end with their time to live; and the
  runs in which a deleted account is served and, without the index of MongoDB, one email is stored
  twice.  Errors: sentinels are matched and never
  mutated, causes never reach a client.  Transports: status, body, metrics and correlation id of
  the answers.  Service: over REST and gRPC, cached as it is wired or not, the API is a store of accounts, each answer
  being the encoded outcome of a step of the store, read from the database or from what the cache
  held; an account created under an id new to the cache is what the next reads return over either
  transport; an error answer means that nothing changed; requests that pass
  the validation rules pass the checks of the use case; a call of the generated client is its
  request served.  Lock: mutual exclusion within the lifetime, and
  release of the own lock only.  Consumer: when the loop ends and with what, commit after handling,
  delivery against a reference with commits that may fail, and that a failed message is passed over.
  Boot: migrations reach their target,
  the configuration is read once, the dependency graph can be built, a gRPC port that cannot be
  opened fails the boot and undoes it, what was started is stopped
  in the reverse order, and the exit status tells whether the command succeeded.

  \<^bold>\<open>Bounds.\<close>  Nothing is bounded except where the code is: words keep their width (times,
  durations and the numbers of the rate limits are unbounded integers, and a lifetime is kept to
  the nanosecond where go-redis sends milliseconds), and the
  dependency graph is resolved in seven rounds, the length of its longest chain (lifecycle and
  configuration to the handlers).  The consumer loop needs no fuel: it is shown to return on every
  reader that reports an error once its log is drained.

  \<^bold>\<open>Not modelled.\<close>  The descriptor and the reflection methods of the
  generated messages (String, ProtoReflect, Descriptor), which only call the protobuf runtime; the libraries themselves (gin, gRPC, GORM,
  pgx, the MongoDB driver, go-redis, gocache, redis_rate, bcrypt, kafka-go, golang-migrate,
  go-transaction-manager, fx, cobra, OpenTelemetry, Prometheus); constructors that only store
  their arguments; timeouts and cancellation of request contexts, except where
  the consumer loop asks for it.  Interleaving is that of calls to shared resources, each of
  them atomic; List is not among the interleaved requests, since it neither writes nor reads
  the cache.
\<close>

end
